(* ===== verification/Go_Prelude.thy ===== *)
theory Go_Prelude
  imports Main "HOL-Library.AList" "HOL-Library.Multiset" "HOL-Library.Char_ord" "HOL-Library.List_Lexorder"
begin

text \<open>
  The parts of the Go language every component of the server uses: 64-bit integers with
  their wrap-around, Go maps and the unspecified order in which \<open>range\<close> visits them,
  times and durations, error values, and the readers that carry request bodies.
  A Go \<open>string\<close> or \<open>[]byte\<close> is a \<^typ>\<open>string\<close> of bytes.
\<close>

named_theorems gomap_simps "lookup, update, deletion and length of Go maps"
named_theorems int64_simps "arithmetic of wrapped 64-bit integers"
named_theorems go_eval "definitions unfolded to evaluate a closed term of the model"

declare Let_def [go_eval]

section \<open>Errors and outcomes\<close>

text \<open>
  The sentinel errors of \<open>internal/storage\<close> and \<open>internal/store\<close>; every other error
  value of the program (network, JSON, context, SQL, client) is \<open>OtherErr\<close> with its text.
\<close>

datatype goerr =
    ErrNotFound
  | ErrExists
  | ErrIncomplete
  | ErrInvalidHash
  | ErrCatalogLoadFailed
  | OtherErr string

text \<open>A call returns a value, returns an error, or panics.\<close>

datatype 'a outcome = Ret 'a | Fail goerr | Panic

section \<open>64-bit integers\<close>

text \<open>Go's \<open>int64\<close> (and \<open>int\<close> on the 64-bit platforms the image targets) wraps around.\<close>

definition in64 :: "int \<Rightarrow> bool" where [go_eval]:
  "in64 x \<longleftrightarrow> - (2 ^ 63) \<le> x \<and> x < 2 ^ 63"

definition wrap64 :: "int \<Rightarrow> int" where [go_eval]:
  "wrap64 x = (x + 2 ^ 63) mod 2 ^ 64 - 2 ^ 63"

definition clamp64 :: "int \<Rightarrow> int" where [go_eval]:
  "clamp64 x = max (- (2 ^ 63)) (min (2 ^ 63 - 1) x)"

definition max_int64 :: int where [go_eval]: "max_int64 = 2 ^ 63 - 1"
definition min_int64 :: int where [go_eval]: "min_int64 = - (2 ^ 63)"

lemma in64_wrap64 [simp, intro]: "in64 (wrap64 x)"
proof -
  have "0 \<le> (x + 2 ^ 63) mod 2 ^ 64" and "(x + 2 ^ 63) mod 2 ^ 64 < 2 ^ 64"
    by simp_all
  then show ?thesis unfolding in64_def wrap64_def by simp
qed

lemma wrap64_id [int64_simps]: "in64 x \<Longrightarrow> wrap64 x = x"
  by (simp add: in64_def wrap64_def)

lemma wrap64_add_left [int64_simps]: "wrap64 (wrap64 x + y) = wrap64 (x + y)"
proof -
  have "(x + 2 ^ 63) mod 2 ^ 64 - 2 ^ 63 + y + 2 ^ 63 = (x + 2 ^ 63) mod 2 ^ 64 + y"
    by simp
  moreover have "((x + 2 ^ 63) mod 2 ^ 64 + y) mod 2 ^ 64 = (x + 2 ^ 63 + y) mod 2 ^ 64"
    by (rule mod_add_left_eq)
  moreover have "x + 2 ^ 63 + y = x + y + 2 ^ 63"
    by simp
  ultimately show ?thesis by (simp only: wrap64_def)
qed

lemma wrap64_add_right [int64_simps]: "wrap64 (x + wrap64 y) = wrap64 (x + y)"
  by (metis add.commute wrap64_add_left)

lemma in64_clamp64 [simp, intro]: "in64 (clamp64 x)"
  by (simp add: in64_def clamp64_def)

lemma clamp64_id [int64_simps]: "in64 x \<Longrightarrow> clamp64 x = x"
  by (auto simp: in64_def clamp64_def)

text \<open>Go's integer division truncates towards zero, and \<open>%\<close> has the sign of the dividend.\<close>

definition go_div :: "int \<Rightarrow> int \<Rightarrow> int" where [go_eval]:
  "go_div a b = sgn a * sgn b * (\<bar>a\<bar> div \<bar>b\<bar>)"

definition go_mod :: "int \<Rightarrow> int \<Rightarrow> int" where [go_eval]:
  "go_mod a b = a - b * go_div a b"

lemma go_div_nonneg: "0 \<le> a \<Longrightarrow> 0 < b \<Longrightarrow> go_div a b = a div b"
  by (cases "a = 0") (simp_all add: go_div_def)

lemma go_mod_nonneg: "0 \<le> a \<Longrightarrow> 0 < b \<Longrightarrow> go_mod a b = a mod b"
  by (simp add: go_mod_def go_div_nonneg minus_mult_div_eq_mod)

section \<open>Go maps\<close>

text \<open>
  A Go map is an association list whose keys are distinct (\<open>gwf\<close>). Reading, writing and
  deleting are independent of the order of the list.
\<close>

type_synonym ('k, 'v) gomap = "('k \<times> 'v) list"

abbreviation gget :: "('k, 'v) gomap \<Rightarrow> 'k \<Rightarrow> 'v option" where
  "gget \<equiv> map_of"

definition gset :: "('k, 'v) gomap \<Rightarrow> 'k \<Rightarrow> 'v \<Rightarrow> ('k, 'v) gomap" where [go_eval]:
  "gset m k v = AList.update k v m"

definition gdel :: "('k, 'v) gomap \<Rightarrow> 'k \<Rightarrow> ('k, 'v) gomap" where [go_eval]:
  "gdel m k = AList.delete k m"

definition gwf :: "('k, 'v) gomap \<Rightarrow> bool" where [go_eval]:
  "gwf m \<longleftrightarrow> distinct (map fst m)"

definition ghas :: "('k, 'v) gomap \<Rightarrow> 'k \<Rightarrow> bool" where [go_eval]:
  "ghas m k \<longleftrightarrow> gget m k \<noteq> None"

lemma gget_gset [simp, gomap_simps]: "gget (gset m k v) = (gget m)(k \<mapsto> v)"
  by (rule ext) (simp add: gset_def update_conv)

lemma gget_gdel [simp, gomap_simps]: "gget (gdel m k) = (gget m)(k := None)"
  by (rule ext) (simp add: gdel_def delete_conv)

lemma gwf_Nil [simp]: "gwf []"
  by (simp add: gwf_def)

lemma gwf_gset [simp, intro]: "gwf m \<Longrightarrow> gwf (gset m k v)"
  by (simp add: gwf_def gset_def distinct_update)

lemma gwf_gdel [simp, intro]: "gwf m \<Longrightarrow> gwf (gdel m k)"
  by (simp add: gwf_def gdel_def distinct_delete)

lemma fst_set_gset [gomap_simps]: "fst ` set (gset m k v) = insert k (fst ` set m)"
proof -
  have "dom (gget (gset m k v)) = insert k (dom (gget m))"
    by (simp only: gget_gset dom_fun_upd option.simps if_False)
  then show ?thesis by (simp only: dom_map_of_conv_image_fst)
qed

lemma fst_set_gdel [gomap_simps]: "fst ` set (gdel m k) = fst ` set m - {k}"
proof -
  have "dom (gget (gdel m k)) = dom (gget m) - {k}"
    by (simp only: gget_gdel dom_fun_upd simp_thms if_True)
  then show ?thesis by (simp only: dom_map_of_conv_image_fst)
qed

lemma ghas_iff: "ghas m k \<longleftrightarrow> k \<in> fst ` set m"
  by (simp add: ghas_def map_of_eq_None_iff)

lemma ghas_gset [simp]: "ghas (gset m k v) j \<longleftrightarrow> j = k \<or> ghas m j"
  by (simp add: ghas_def)

lemma ghas_gdel [simp]: "ghas (gdel m k) j \<longleftrightarrow> j \<noteq> k \<and> ghas m j"
  by (simp add: ghas_def)

lemma length_gset_mem: "ghas m k \<Longrightarrow> length (gset m k v) = length m"
  unfolding ghas_iff gset_def
  by (induction m) (auto split: prod.splits)

lemma length_gset_new: "\<not> ghas m k \<Longrightarrow> length (gset m k v) = Suc (length m)"
  unfolding ghas_iff gset_def
  by (induction m) (auto split: prod.splits)

lemma length_gset_le: "length (gset m k v) \<le> Suc (length m)"
  by (cases "ghas m k") (simp_all add: length_gset_mem length_gset_new)

lemma length_gdel_le: "length (gdel m k) \<le> length m"
  by (simp add: gdel_def length_delete_le)

lemma gdel_Cons: "gdel ((a, b) # m) k = (if a = k then gdel m k else (a, b) # gdel m k)"
  by (simp add: gdel_def)

lemma gdel_absent: "\<not> ghas m k \<Longrightarrow> gdel m k = m"
  by (simp add: ghas_iff gdel_def delete_id)

lemma length_gdel_mem: "gwf m \<Longrightarrow> ghas m k \<Longrightarrow> Suc (length (gdel m k)) = length m"
proof (induction m)
  case Nil
  then show ?case by (simp add: ghas_def)
next
  case (Cons p m)
  obtain a b where p: "p = (a, b)" by force
  show ?case
  proof (cases "a = k")
    case True
    with Cons.prems p have "\<not> ghas m k" by (auto simp: gwf_def ghas_iff)
    then show ?thesis using p True by (simp add: gdel_Cons gdel_absent)
  next
    case False
    with Cons p show ?thesis by (simp add: gdel_Cons gwf_def ghas_def)
  qed
qed

text \<open>Deleting several keys one after another, as the \<open>delete\<close> loops of the code do.\<close>

definition gdels :: "('k, 'v) gomap \<Rightarrow> 'k list \<Rightarrow> ('k, 'v) gomap" where [go_eval]:
  "gdels m ks = fold (\<lambda>k m. gdel m k) ks m"

lemma gdels_Nil [simp]: "gdels m [] = m"
  by (simp add: gdels_def)

lemma gdels_Cons [simp]: "gdels m (k # ks) = gdels (gdel m k) ks"
  by (simp add: gdels_def)

lemma gget_gdels [gomap_simps]: "gget (gdels m ks) j = (if j \<in> set ks then None else gget m j)"
  by (induction ks arbitrary: m) auto

lemma gwf_gdels [simp, intro]: "gwf m \<Longrightarrow> gwf (gdels m ks)"
  by (induction ks arbitrary: m) auto

lemma gget_gdels_fun: "gget (gdels m ks) = gget m |` (- set ks)"
  by (rule ext) (simp add: gomap_simps restrict_map_def)

text \<open>Predicates on every binding of a map are kept by its operations.\<close>

lemma set_gset_sub: "set (gset m k v) \<subseteq> insert (k, v) (set m)"
  unfolding gset_def by (induction m) (auto split: prod.splits)

lemma set_gdel_sub: "set (gdel m k) \<subseteq> set m"
proof (induction m)
  case Nil
  show ?case by (simp add: gdel_def)
next
  case (Cons p m)
  then show ?case by (cases p) (auto simp: gdel_Cons)
qed

lemma set_gdels_sub: "set (gdels m ks) \<subseteq> set m"
proof (induction ks arbitrary: m)
  case (Cons k ks)
  have "set (gdels (gdel m k) ks) \<subseteq> set (gdel m k)" by (rule Cons)
  also have "\<dots> \<subseteq> set m" by (rule set_gdel_sub)
  finally show ?case by simp
qed simp

lemma list_all_gset [intro]: "list_all P m \<Longrightarrow> P (k, v) \<Longrightarrow> list_all P (gset m k v)"
  using set_gset_sub [of m k v] by (auto simp: list_all_iff)

lemma list_all_gdels [intro]: "list_all P m \<Longrightarrow> list_all P (gdels m ks)"
  using set_gdels_sub [of m ks] by (auto simp: list_all_iff)

lemma list_all_gget: "list_all P m \<Longrightarrow> gget m k = Some v \<Longrightarrow> P (k, v)"
  by (auto simp: list_all_iff dest: map_of_SomeD)

section \<open>Ranging over a map\<close>

text \<open>
  \<open>for k, v := range m\<close> visits every key once, in an order the language leaves open and
  that may differ from call to call. Every definition that ranges over a map takes that
  order as an argument; \<open>visit_order ord m\<close> says that it is one the runtime may choose.
\<close>

definition visit_order :: "'k list \<Rightarrow> ('k, 'v) gomap \<Rightarrow> bool" where [go_eval]:
  "visit_order ord m \<longleftrightarrow> distinct ord \<and> set ord = fst ` set m"

definition gvisit :: "'k list \<Rightarrow> ('k, 'v) gomap \<Rightarrow> ('k \<times> 'v) list" where [go_eval]:
  "gvisit ord m = List.map_filter (\<lambda>k. map_option (Pair k) (gget m k)) ord"

lemma gvisit_Nil [simp]: "gvisit [] m = []"
  by (simp add: gvisit_def List.map_filter_def)

lemma gvisit_Cons [simp]:
  "gvisit (k # ks) m = (case gget m k of None \<Rightarrow> gvisit ks m | Some v \<Rightarrow> (k, v) # gvisit ks m)"
  by (simp add: gvisit_def List.map_filter_def split: option.split)

lemma set_gvisit_sub: "(k, v) \<in> set (gvisit ord m) \<longleftrightarrow> k \<in> set ord \<and> gget m k = Some v"
  by (induction ord) (auto split: option.split)

lemma gwf_gget: "gwf m \<Longrightarrow> gget m k = Some v \<longleftrightarrow> (k, v) \<in> set m"
  by (simp add: gwf_def)

lemma set_gvisit:
  assumes "gwf m" and "visit_order ord m"
  shows "set (gvisit ord m) = set m"
proof -
  have "(k, v) \<in> set (gvisit ord m) \<longleftrightarrow> (k, v) \<in> set m" for k v
    using assms by (force simp: set_gvisit_sub visit_order_def gwf_gget simp del: map_of_eq_Some_iff)
  then show ?thesis by auto
qed

lemma map_fst_gvisit:
  assumes "visit_order ord m"
  shows "map fst (gvisit ord m) = ord"
proof -
  have "\<forall>k \<in> set ord. gget m k \<noteq> None"
    using assms by (auto simp: visit_order_def map_of_eq_None_iff)
  then show ?thesis
    by (induction ord) auto
qed

lemma distinct_gvisit: "visit_order ord m \<Longrightarrow> distinct (gvisit ord m)"
  by (metis distinct_map map_fst_gvisit visit_order_def)

lemma length_gvisit:
  assumes "gwf m" and "visit_order ord m"
  shows "length (gvisit ord m) = length m"
proof -
  have "length (gvisit ord m) = card (set (gvisit ord m))"
    using distinct_gvisit [OF assms(2)] by (simp add: distinct_card)
  also have "\<dots> = card (set m)"
    by (simp add: set_gvisit assms)
  also have "\<dots> = length m"
    using assms(1) by (simp add: gwf_def distinct_map distinct_card)
  finally show ?thesis .
qed

lemma mset_gvisit:
  assumes "gwf m" and "visit_order ord m"
  shows "mset (gvisit ord m) = mset m"
  using assms distinct_gvisit set_gvisit
  by (metis distinct_map gwf_def set_eq_iff_mset_eq_distinct)

section \<open>Time\<close>

text \<open>
  A \<open>time.Time\<close> is the number of nanoseconds since Go's zero time, 1 January of the year 1,
  so that \<open>t.IsZero()\<close> is \<open>t = 0\<close>; a \<open>time.Duration\<close> is a signed 64-bit number of
  nanoseconds. Each reading of the clock is an argument of the definition that takes it.
\<close>

type_synonym time = int
type_synonym duration = int

abbreviation millisecond :: int where "millisecond \<equiv> 1000000"
abbreviation second :: int where "second \<equiv> 1000000000"
abbreviation minute :: int where "minute \<equiv> 60000000000"
abbreviation hour :: int where "hour \<equiv> 3600000000000"

definition is_zero :: "time \<Rightarrow> bool" where [go_eval]: "is_zero t \<longleftrightarrow> t = 0"

text \<open>\<open>t.Sub(u)\<close> saturates at the bounds of a duration.\<close>

definition time_sub :: "time \<Rightarrow> time \<Rightarrow> duration" where [go_eval]:
  "time_sub t u = clamp64 (t - u)"

definition time_add :: "time \<Rightarrow> duration \<Rightarrow> time" where [go_eval]:
  "time_add t d = t + d"

text \<open>Seconds between Go's zero time and 1 January 1970.\<close>

definition unix_epoch :: int where [go_eval]: "unix_epoch = 62135596800"

definition unix :: "time \<Rightarrow> int" where [go_eval]:
  "unix t = t div second - unix_epoch"

definition of_unix :: "int \<Rightarrow> time" where [go_eval]:
  "of_unix s = (s + unix_epoch) * second"

definition truncate_sec :: "time \<Rightarrow> time" where [go_eval]:
  "truncate_sec t = t - t mod second"

lemma unix_of_unix [simp]: "unix (of_unix s) = s"
  by (simp add: unix_def of_unix_def)

lemma unix_mono: "t \<le> u \<Longrightarrow> unix t \<le> unix u"
  by (simp add: unix_def zdiv_mono1)

lemma unix_truncate [simp]: "unix (truncate_sec t) = unix t"
  by (simp add: unix_def truncate_sec_def minus_mod_eq_div_mult)

lemma truncate_mono: "t \<le> u \<Longrightarrow> truncate_sec t \<le> truncate_sec u"
  by (simp add: truncate_sec_def minus_mod_eq_div_mult zdiv_mono1)

section \<open>Readers\<close>

text \<open>
  An \<open>io.Reader\<close> delivers its bytes and then ends, with \<open>io.EOF\<close> (\<open>None\<close>) or with a
  read error. \<open>read_all_limited n r\<close> is \<open>io.ReadAll(io.LimitReader(r, n))\<close>: at most
  \<open>n\<close> bytes are taken (none when \<open>n\<close> is not positive), and the reader's error is only
  met when it comes before that.
\<close>

record reader =
  rd_data :: string
  rd_err :: "goerr option"

definition limited :: "int \<Rightarrow> string \<Rightarrow> string" where [go_eval]:
  "limited n s = take (nat n) s"

definition read_all_limited :: "int \<Rightarrow> reader \<Rightarrow> goerr + string" where [go_eval]:
  "read_all_limited n r =
     (if n \<le> int (length (rd_data r)) then Inr (limited n (rd_data r))
      else case rd_err r of None \<Rightarrow> Inr (rd_data r) | Some e \<Rightarrow> Inl e)"

lemma read_all_limited_prefix:
  "read_all_limited n r = Inr d \<Longrightarrow> d = limited n (rd_data r)"
  by (auto simp: read_all_limited_def limited_def split: if_splits option.splits)

end
