(* ===== verification/Go_Strings.thy ===== *)
theory Go_Strings
  imports Go_Prelude "HOL-Library.Sublist"
begin

text \<open>
  The functions of Go's \<open>strings\<close>, \<open>strconv\<close>, \<open>unicode\<close> and \<open>path\<close> packages that
  the server calls, on strings of bytes: UTF-8 decoding as \<open>range\<close> does it, trimming,
  splitting, joining, case folding, decimal integers and path cleaning. Of the Unicode
  character database, only the two tables that the code consults beyond Latin-1 are
  parameters, in the record \<open>unicode_tables\<close>.
\<close>

section \<open>UTF-8\<close>

definition bval :: "char \<Rightarrow> nat" where [go_eval]:
  "bval c = of_char c"

definition byte :: "nat \<Rightarrow> char" where [go_eval]:
  "byte n = char_of n"

definition rune_error :: nat where [go_eval]: "rune_error = 65533"

definition cont_byte :: "nat \<Rightarrow> nat \<Rightarrow> char \<Rightarrow> bool" where [go_eval]:
  "cont_byte lo hi c \<longleftrightarrow> lo \<le> bval c \<and> bval c \<le> hi"

text \<open>
  \<open>utf8.DecodeRuneInString\<close>: the rune at the start of the string and its width in bytes;
  an ill-formed sequence is \<open>RuneError\<close> of width 1.
\<close>

definition decode2 :: "nat \<Rightarrow> string \<Rightarrow> nat \<times> nat" where [go_eval]:
  "decode2 b0 cs = (case cs of
       c1 # _ \<Rightarrow> if cont_byte 128 191 c1 then ((b0 - 192) * 64 + (bval c1 - 128), 2)
                else (rune_error, 1)
     | _ \<Rightarrow> (rune_error, 1))"

definition decode3 :: "nat \<Rightarrow> nat \<Rightarrow> nat \<Rightarrow> string \<Rightarrow> nat \<times> nat" where [go_eval]:
  "decode3 lo hi b0 cs = (case cs of
       c1 # c2 # _ \<Rightarrow>
         if cont_byte lo hi c1 \<and> cont_byte 128 191 c2
         then ((b0 - 224) * 4096 + (bval c1 - 128) * 64 + (bval c2 - 128), 3)
         else (rune_error, 1)
     | _ \<Rightarrow> (rune_error, 1))"

definition decode4 :: "nat \<Rightarrow> nat \<Rightarrow> nat \<Rightarrow> string \<Rightarrow> nat \<times> nat" where [go_eval]:
  "decode4 lo hi b0 cs = (case cs of
       c1 # c2 # c3 # _ \<Rightarrow>
         if cont_byte lo hi c1 \<and> cont_byte 128 191 c2 \<and> cont_byte 128 191 c3
         then ((b0 - 240) * 262144 + (bval c1 - 128) * 4096 + (bval c2 - 128) * 64
               + (bval c3 - 128), 4)
         else (rune_error, 1)
     | _ \<Rightarrow> (rune_error, 1))"

definition decode_rune :: "char \<Rightarrow> string \<Rightarrow> nat \<times> nat" where [go_eval]:
  "decode_rune c cs =
     (let b = bval c in
      if b < 128 then (b, 1)
      else if 194 \<le> b \<and> b \<le> 223 then decode2 b cs
      else if b = 224 then decode3 160 191 b cs
      else if b = 237 then decode3 128 159 b cs
      else if 225 \<le> b \<and> b \<le> 239 then decode3 128 191 b cs
      else if b = 240 then decode4 144 191 b cs
      else if b = 244 then decode4 128 143 b cs
      else if 241 \<le> b \<and> b \<le> 243 then decode4 128 191 b cs
      else (rune_error, 1))"

text \<open>The runes of a string, each with the bytes it was decoded from.\<close>

fun chunks :: "string \<Rightarrow> (nat \<times> string) list" where
  "chunks [] = []"
| "chunks (c # cs) =
     (let (r, n) = decode_rune c cs in (r, c # take (n - 1) cs) # chunks (drop (n - 1) cs))"

definition unchunk :: "(nat \<times> string) list \<Rightarrow> string" where [go_eval]:
  "unchunk rs = concat (map snd rs)"

lemma unchunk_simps [simp]:
  "unchunk [] = []" "unchunk (p # ps) = snd p @ unchunk ps" "unchunk (ps @ qs) = unchunk ps @ unchunk qs"
  by (simp_all add: unchunk_def)

lemma unchunk_chunks [simp]: "unchunk (chunks s) = s"
proof (induction s rule: chunks.induct)
  case 1
  show ?case by simp
next
  case (2 c cs)
  obtain r n where d: "decode_rune c cs = (r, n)" by force
  then show ?case using 2 by simp
qed

definition is_ascii :: "string \<Rightarrow> bool" where [go_eval]:
  "is_ascii s \<longleftrightarrow> list_all (\<lambda>c. bval c < 128) s"

lemma chunks_ascii: "is_ascii s \<Longrightarrow> chunks s = map (\<lambda>c. (bval c, [c])) s"
  by (induction s) (auto simp: is_ascii_def decode_rune_def Let_def)

text \<open>\<open>utf8.AppendRune\<close>: surrogates and values beyond U+10FFFF are written as U+FFFD.\<close>

definition encode_rune :: "nat \<Rightarrow> string" where [go_eval]:
  "encode_rune r =
     (if r < 128 then [byte r]
      else if r < 2048 then [byte (192 + r div 64), byte (128 + r mod 64)]
      else if r > 1114111 \<or> (55296 \<le> r \<and> r \<le> 57343) then [byte 239, byte 191, byte 189]
      else if r < 65536
      then [byte (224 + r div 4096), byte (128 + r div 64 mod 64), byte (128 + r mod 64)]
      else [byte (240 + r div 262144), byte (128 + r div 4096 mod 64),
            byte (128 + r div 64 mod 64), byte (128 + r mod 64)])"

section \<open>Character classes\<close>

text \<open>The Unicode tables beyond ASCII (letter case) and beyond Latin-1 (punctuation).\<close>

record unicode_tables =
  uni_lower :: "nat \<Rightarrow> nat"
  uni_punct :: "nat \<Rightarrow> bool"

text \<open>Tables that leave every rune beyond ASCII alone, for evaluating the model.\<close>

definition ascii_tables :: unicode_tables where
  "ascii_tables = \<lparr>uni_lower = (\<lambda>r. r), uni_punct = (\<lambda>_. False)\<rparr>"

definition is_space_rune :: "nat \<Rightarrow> bool" where [go_eval]:
  "is_space_rune r \<longleftrightarrow>
     (9 \<le> r \<and> r \<le> 13) \<or> r = 32 \<or> r = 133 \<or> r = 160 \<or> r = 5760 \<or> (8192 \<le> r \<and> r \<le> 8202)
     \<or> r = 8232 \<or> r = 8233 \<or> r = 8239 \<or> r = 8287 \<or> r = 12288"

definition latin1_punct :: "nat list" where [go_eval]:
  "latin1_punct =
     [33, 34, 35, 37, 38, 39, 40, 41, 42, 44, 45, 46, 47, 58, 59, 63, 64, 91, 92, 93, 95,
      123, 125, 161, 167, 171, 182, 183, 187, 191]"

definition is_punct_rune :: "unicode_tables \<Rightarrow> nat \<Rightarrow> bool" where [go_eval]:
  "is_punct_rune u r = (if r < 256 then r \<in> set latin1_punct else uni_punct u r)"

definition lower_rune :: "unicode_tables \<Rightarrow> nat \<Rightarrow> nat" where [go_eval]:
  "lower_rune u r =
     (if r < 128 then (if 65 \<le> r \<and> r \<le> 90 then r + 32 else r) else uni_lower u r)"

definition in_range :: "char \<Rightarrow> char \<Rightarrow> char \<Rightarrow> bool" where [go_eval]:
  "in_range lo hi c \<longleftrightarrow> bval lo \<le> bval c \<and> bval c \<le> bval hi"

definition is_digit :: "char \<Rightarrow> bool" where [go_eval]:
  "is_digit c = in_range (CHR ''0'') (CHR ''9'') c"

definition is_alpha :: "char \<Rightarrow> bool" where [go_eval]:
  "is_alpha c \<longleftrightarrow> in_range (CHR ''a'') (CHR ''z'') c \<or> in_range (CHR ''A'') (CHR ''Z'') c"

definition is_alnum :: "char \<Rightarrow> bool" where [go_eval]:
  "is_alnum c \<longleftrightarrow> is_alpha c \<or> is_digit c"

section \<open>Prefixes, trimming and case\<close>

definition has_prefix :: "string \<Rightarrow> string \<Rightarrow> bool" where [go_eval]:
  "has_prefix s p \<longleftrightarrow> take (length p) s = p"

definition has_suffix :: "string \<Rightarrow> string \<Rightarrow> bool" where [go_eval]:
  "has_suffix s p \<longleftrightarrow> length p \<le> length s \<and> drop (length s - length p) s = p"

definition trim_prefix :: "string \<Rightarrow> string \<Rightarrow> string" where [go_eval]:
  "trim_prefix s p = (if has_prefix s p then drop (length p) s else s)"

definition trim_suffix :: "string \<Rightarrow> string \<Rightarrow> string" where [go_eval]:
  "trim_suffix s p = (if has_suffix s p then take (length s - length p) s else s)"

lemma has_prefix_iff: "has_prefix s p \<longleftrightarrow> (\<exists>t. s = p @ t)"
  by (metis append_eq_conv_conj append_take_drop_id has_prefix_def)

lemma has_suffix_iff: "has_suffix s p \<longleftrightarrow> (\<exists>t. s = t @ p)"
proof
  assume "has_suffix s p"
  then show "\<exists>t. s = t @ p"
    unfolding has_suffix_def by (metis append_take_drop_id)
qed (auto simp: has_suffix_def)

lemma has_prefix_append [simp]: "has_prefix (p @ t) p"
  by (auto simp: has_prefix_iff)

lemma trim_prefix_append [simp]: "trim_prefix (p @ t) p = t"
  by (simp add: trim_prefix_def)

definition trim_left_func :: "(nat \<Rightarrow> bool) \<Rightarrow> (nat \<times> string) list \<Rightarrow> (nat \<times> string) list" where [go_eval]:
  "trim_left_func f rs = dropWhile (\<lambda>p. f (fst p)) rs"

definition trim_right_func :: "(nat \<Rightarrow> bool) \<Rightarrow> (nat \<times> string) list \<Rightarrow> (nat \<times> string) list" where [go_eval]:
  "trim_right_func f rs = rev (dropWhile (\<lambda>p. f (fst p)) (rev rs))"

definition trim_space :: "string \<Rightarrow> string" where [go_eval]:
  "trim_space s = unchunk (trim_right_func is_space_rune (trim_left_func is_space_rune (chunks s)))"

definition to_lower :: "unicode_tables \<Rightarrow> string \<Rightarrow> string" where [go_eval]:
  "to_lower u s = concat (map (\<lambda>(r, _). encode_rune (lower_rune u r)) (chunks s))"

definition ascii_lower :: "char \<Rightarrow> char" where [go_eval]:
  "ascii_lower c = (if 65 \<le> bval c \<and> bval c \<le> 90 then byte (bval c + 32) else c)"

lemma to_lower_ascii:
  assumes "is_ascii s"
  shows "to_lower u s = map ascii_lower s"
proof -
  have "concat (map (\<lambda>c. encode_rune (lower_rune u (bval c))) s) = map ascii_lower s"
    using assms
    by (induction s)
      (auto simp: is_ascii_def encode_rune_def lower_rune_def ascii_lower_def byte_def bval_def)
  then show ?thesis using assms by (simp add: to_lower_def chunks_ascii comp_def)
qed

section \<open>Searching, splitting and joining\<close>

fun contains :: "string \<Rightarrow> string \<Rightarrow> bool" where
  "contains [] p = (p = [])"
| "contains (c # s) p = (has_prefix (c # s) p \<or> contains s p)"

lemma contains_iff: "contains s p \<longleftrightarrow> (\<exists>a b. s = a @ p @ b)"
proof (induction s)
  case Nil
  show ?case by auto
next
  case (Cons c s)
  have "(\<exists>a b. c # s = a @ p @ b) \<longleftrightarrow> (\<exists>b. c # s = p @ b) \<or> (\<exists>a b. s = a @ p @ b)"
  proof
    assume "\<exists>a b. c # s = a @ p @ b"
    then obtain a b where ab: "c # s = a @ p @ b" by blast
    show "(\<exists>b. c # s = p @ b) \<or> (\<exists>a b. s = a @ p @ b)"
    proof (cases a)
      case Nil
      with ab show ?thesis by auto
    next
      case (Cons x xs)
      with ab show ?thesis by auto
    qed
  qed (metis append_Cons append_Nil)
  then show ?case using Cons by (simp add: has_prefix_iff)
qed

fun split_at :: "char \<Rightarrow> string \<Rightarrow> string list" where
  "split_at c [] = [[]]"
| "split_at c (x # xs) =
     (if x = c then [] # split_at c xs
      else case split_at c xs of [] \<Rightarrow> [[x]] | y # ys \<Rightarrow> (x # y) # ys)"

fun join_with :: "string \<Rightarrow> string list \<Rightarrow> string" where
  "join_with sep [] = []"
| "join_with sep [s] = s"
| "join_with sep (s # t # ts) = s @ sep @ join_with sep (t # ts)"

lemma split_at_nonempty [simp]: "split_at c s \<noteq> []"
  by (cases s) (auto split: list.split)

lemma split_at_absent: "c \<notin> set s \<Longrightarrow> split_at c s = [s]"
  by (induction s) auto

lemma split_at_append: "c \<notin> set p \<Longrightarrow> split_at c (p @ c # s) = p # split_at c s"
  by (induction p) auto

lemma split_at_pieces: "p \<in> set (split_at c s) \<Longrightarrow> c \<notin> set p"
proof (induction s arbitrary: p)
  case Nil
  then show ?case by simp
next
  case (Cons x s)
  show ?case
  proof (cases "split_at c s")
    case Nil
    then show ?thesis by simp
  next
    case (Cons y ys)
    with Cons.prems Cons.IH show ?thesis by (auto split: if_splits)
  qed
qed

lemma join_split: "join_with [c] (split_at c s) = s"
proof (induction s)
  case Nil
  show ?case by simp
next
  case (Cons x s)
  obtain y ys where e: "split_at c s = y # ys"
    by (cases "split_at c s") auto
  then show ?case using Cons by (cases ys) auto
qed

lemma split_join:
  "ps \<noteq> [] \<Longrightarrow> (\<And>p. p \<in> set ps \<Longrightarrow> c \<notin> set p) \<Longrightarrow> split_at c (join_with [c] ps) = ps"
proof (induction "[c]" ps rule: join_with.induct)
  case 1
  then show ?case by simp
next
  case (2 s)
  then show ?case by (simp add: split_at_absent)
next
  case (3 s t ts)
  then show ?case by (simp add: split_at_append)
qed

text \<open>\<open>strings.Cut\<close> at the first occurrence of a separator byte.\<close>

fun cut_at :: "char \<Rightarrow> string \<Rightarrow> string \<times> string \<times> bool" where
  "cut_at c [] = ([], [], False)"
| "cut_at c (x # xs) =
     (if x = c then ([], xs, True) else let (b, a, ok) = cut_at c xs in (x # b, a, ok))"

lemma cut_at_absent: "c \<notin> set s \<Longrightarrow> cut_at c s = (s, [], False)"
  by (induction s) auto

lemma cut_at_append: "c \<notin> set p \<Longrightarrow> cut_at c (p @ c # s) = (p, s, True)"
  by (induction p) auto

lemma cut_at_found: "cut_at c s = (a, b, True) \<Longrightarrow> s = a @ c # b \<and> c \<notin> set a"
  by (induction s arbitrary: a) (auto split: if_splits prod.splits)

text \<open>\<open>strings.Fields\<close>: the maximal runs of runes that are not white space.\<close>

fun fields_of :: "(nat \<times> string) list \<Rightarrow> string \<Rightarrow> string list" where
  "fields_of [] cur = (if cur = [] then [] else [cur])"
| "fields_of ((r, bs) # rs) cur =
     (if is_space_rune r then (if cur = [] then fields_of rs [] else cur # fields_of rs [])
      else fields_of rs (cur @ bs))"

definition fields :: "string \<Rightarrow> string list" where [go_eval]:
  "fields s = fields_of (chunks s) []"

text \<open>\<open>strings.ReplaceAll\<close> of one byte by a string.\<close>

definition replace_byte :: "char \<Rightarrow> string \<Rightarrow> string \<Rightarrow> string" where [go_eval]:
  "replace_byte c r s = concat (map (\<lambda>x. if x = c then r else [x]) s)"

section \<open>Decimal integers\<close>

definition digit_char :: "nat \<Rightarrow> char" where [go_eval]:
  "digit_char n = byte (48 + n)"

definition digit_val :: "char \<Rightarrow> nat" where [go_eval]:
  "digit_val c = bval c - 48"

fun nat_str :: "nat \<Rightarrow> string" where
  "nat_str n = (if n < 10 then [digit_char n] else nat_str (n div 10) @ [digit_char (n mod 10)])"

declare nat_str.simps [simp del, go_eval] char_of_def [go_eval] bit_Suc_0_iff [go_eval]

definition int_str :: "int \<Rightarrow> string" where [go_eval]:
  "int_str i = (if i < 0 then CHR ''-'' # nat_str (nat (- i)) else nat_str (nat i))"

definition digits_val :: "string \<Rightarrow> nat" where [go_eval]:
  "digits_val s = foldl (\<lambda>a c. 10 * a + digit_val c) 0 s"

datatype num_error = ErrSyntax | ErrRange

text \<open>
  \<open>strconv.ParseInt(s, 10, 64)\<close>: an optional sign and decimal digits. A syntax error gives
  0, a value out of range gives the nearest bound, each with its error.
\<close>

definition parse_int :: "string \<Rightarrow> int \<times> num_error option" where [go_eval]:
  "parse_int s =
     (let (neg, ds) = (case s of
            CHR ''-'' # t \<Rightarrow> (True, t) | CHR ''+'' # t \<Rightarrow> (False, t) | _ \<Rightarrow> (False, s));
          v = (if neg then - int (digits_val ds) else int (digits_val ds))
      in if ds = [] \<or> \<not> list_all is_digit ds then (0, Some ErrSyntax)
         else if v < min_int64 then (min_int64, Some ErrRange)
         else if v > max_int64 then (max_int64, Some ErrRange)
         else (v, None))"

lemma bval_byte [simp]: "n < 256 \<Longrightarrow> bval (byte n) = n"
  by (simp add: bval_def byte_def)

lemma byte_bval [simp]: "byte (bval c) = c"
  by (simp add: bval_def byte_def)

lemma bval_less [simp]: "bval c < 256"
  by (simp add: bval_def)

lemma digit_val_char [simp]: "n < 10 \<Longrightarrow> digit_val (digit_char n) = n"
  by (simp add: digit_val_def digit_char_def)

lemma is_digit_char [simp]: "n < 10 \<Longrightarrow> is_digit (digit_char n)"
  by (simp add: is_digit_def in_range_def digit_char_def) (simp add: bval_def)

lemma nat_str_nonempty [simp]: "nat_str n \<noteq> []"
  by (subst nat_str.simps) simp

lemma nat_str_digits [simp]: "list_all is_digit (nat_str n)"
proof (induction n rule: nat_str.induct)
  case (1 n)
  then show ?case by (subst nat_str.simps) simp
qed

lemma digits_val_snoc [simp]: "digits_val (s @ [c]) = 10 * digits_val s + digit_val c"
  by (simp add: digits_val_def)

lemma digits_val_nat_str [simp]: "digits_val (nat_str n) = n"
proof (induction n rule: nat_str.induct)
  case (1 n)
  show ?case
  proof (cases "n < 10")
    case True
    then show ?thesis by (subst nat_str.simps) (simp add: digits_val_def)
  next
    case False
    with 1 show ?thesis by (subst nat_str.simps) simp
  qed
qed

lemma nat_str_inj: "nat_str m = nat_str n \<Longrightarrow> m = n"
  by (metis digits_val_nat_str)

lemma digit_not_sign: "is_digit c \<Longrightarrow> c \<noteq> CHR ''-'' \<and> c \<noteq> CHR ''+''"
  by (auto simp: is_digit_def in_range_def bval_def)

lemma nat_str_hd: "nat_str n = c # s \<Longrightarrow> c \<noteq> CHR ''-'' \<and> c \<noteq> CHR ''+''"
  using nat_str_digits [of n] by (simp add: digit_not_sign)

lemma nat_str_not_in: "\<not> is_digit c \<Longrightarrow> c \<notin> set (nat_str n)"
  using nat_str_digits [of n] by (auto simp: list_all_iff)

lemma int_str_inj: "int_str i = int_str j \<Longrightarrow> i = j"
  unfolding int_str_def
  by (auto split: if_splits dest: nat_str_inj nat_str_hd [OF sym] nat_str_hd)

lemma parse_int_str:
  assumes "in64 i"
  shows "parse_int (int_str i) = (i, None)"
proof (cases "i < 0")
  case True
  then show ?thesis using assms
    by (simp add: parse_int_def int_str_def min_int64_def max_int64_def in64_def)
next
  case False
  obtain c s where cs: "nat_str (nat i) = c # s"
    by (metis neq_Nil_conv nat_str_nonempty)
  have "(case nat_str (nat i) of CHR ''-'' # t \<Rightarrow> (True, t) | CHR ''+'' # t \<Rightarrow> (False, t)
           | _ \<Rightarrow> (False, nat_str (nat i))) = (False, nat_str (nat i))"
    using nat_str_hd [OF cs] cs by (auto split: list.splits char.splits bool.splits)
  then show ?thesis using assms False
    by (simp add: parse_int_def int_str_def min_int64_def max_int64_def in64_def)
qed

lemma parse_int_in64: "parse_int s = (v, e) \<Longrightarrow> in64 v"
  by (auto simp: parse_int_def Let_def min_int64_def max_int64_def in64_def
      split: if_splits prod.splits)

section \<open>Paths\<close>

text \<open>
  \<open>path.Clean\<close> of a rooted path: empty and \<open>.\<close> elements are dropped, \<open>..\<close> removes the
  element before it and is dropped at the root. \<open>path.Base\<close> is the last element.
\<close>

fun clean_parts :: "string list \<Rightarrow> string list \<Rightarrow> string list" where
  "clean_parts acc [] = rev acc"
| "clean_parts acc (p # ps) =
     (if p = [] \<or> p = ''.'' then clean_parts acc ps
      else if p = ''..'' then clean_parts (drop 1 acc) ps
      else clean_parts (p # acc) ps)"

definition clean_rooted :: "string \<Rightarrow> string" where [go_eval]:
  "clean_rooted s = CHR ''/'' # join_with ''/'' (clean_parts [] (split_at (CHR ''/'') s))"

definition path_base :: "string \<Rightarrow> string" where [go_eval]:
  "path_base s =
     (if s = [] then ''.''
      else let t = rev (dropWhile (\<lambda>c. c = CHR ''/'') (rev s))
           in if t = [] then ''/'' else last (split_at (CHR ''/'') t))"

lemma clean_parts_no_dots:
  "p \<in> set (clean_parts acc ps) \<Longrightarrow>
   (\<And>q. q \<in> set acc \<Longrightarrow> q \<noteq> [] \<and> q \<noteq> ''.'' \<and> q \<noteq> ''..'') \<Longrightarrow>
   p \<noteq> [] \<and> p \<noteq> ''.'' \<and> p \<noteq> ''..''"
proof (induction acc ps rule: clean_parts.induct)
  case (1 acc)
  then show ?case by simp
next
  case (2 acc q qs)
  then show ?case
    by (auto split: if_splits dest: in_set_dropD)
qed

section \<open>Texts without outer spaces, and separators\<close>

lemma trim_space_id:
  assumes "is_ascii s" and "s \<noteq> []" and "\<not> is_space_rune (bval (hd s))" and "\<not> is_space_rune (bval (last s))"
  shows "trim_space s = s"
proof -
  note ch = chunks_ascii [OF assms(1)]
  have left: "trim_left_func is_space_rune (chunks s) = chunks s"
    unfolding ch using assms(2,3) by (cases s) (simp_all add: trim_left_func_def)
  have "trim_right_func is_space_rune (chunks s) = chunks s"
    unfolding ch using assms(2,4)
    by (cases s rule: rev_cases) (simp_all add: trim_right_func_def rev_map)
  with left show ?thesis by (simp add: trim_space_def)
qed

lemma digits_ascii: "list_all is_digit s \<Longrightarrow> is_ascii s"
  by (auto simp: is_ascii_def list_all_iff is_digit_def in_range_def) (fastforce simp: bval_def)

lemma is_ascii_append [simp]: "is_ascii (s @ t) \<longleftrightarrow> is_ascii s \<and> is_ascii t"
  by (auto simp: is_ascii_def)

lemma is_ascii_Cons [simp]: "is_ascii (c # s) \<longleftrightarrow> bval c < 128 \<and> is_ascii s"
  by (simp add: is_ascii_def)

lemma is_ascii_Nil [simp]: "is_ascii []"
  by (simp add: is_ascii_def)

lemma is_ascii_nat_str [simp]: "is_ascii (nat_str n)"
  by (rule digits_ascii) simp

lemma is_ascii_int_str [simp]: "is_ascii (int_str i)"
proof (cases "i < 0")
  case True
  then have "is_ascii ([CHR ''-''] @ nat_str (nat (- i)))"
    by (simp only: is_ascii_append is_ascii_nat_str) (simp add: is_ascii_def bval_def)
  with True show ?thesis by (simp add: int_str_def)
qed (simp add: int_str_def)

text \<open>A separator that does not occur in the first part splits a text in one way.\<close>

lemma sep_inj:
  fixes c :: char
  assumes "c \<notin> set a" and "c \<notin> set b"
  shows "a @ c # x = b @ c # y \<longleftrightarrow> a = b \<and> x = y"
proof
  assume "a @ c # x = b @ c # y"
  then have "cut_at c (a @ c # x) = cut_at c (b @ c # y)" by simp
  then show "a = b \<and> x = y" using assms by (simp add: cut_at_append)
qed simp

end
