(* ===== verification/Storage.thy ===== *)
theory Storage
  imports Go_Strings
begin

text \<open>
  \<open>internal/storage/storage.go\<close>: the interface \<open>Backend\<close> that keeps artifacts and catalog
  metadata, and \<open>Memory\<close>, the in-process implementation. The interface is a record of
  operations over the state \<open>'w\<close> they share with the rest of the server; the locale
  \<open>artifact_backend\<close> states what its clients rely on, and \<open>Memory\<close> is proved to provide it.
\<close>

section \<open>The interface\<close>

record object =
  ob_hash :: string
  ob_size :: int
  ob_last_modified :: time

text \<open>
  Contexts only add error outcomes. \<open>be_put\<close> also gives the bytes it took from the
  reader, which the upload handler tees into the inspector; its time argument is the
  clock. \<open>be_list\<close> takes the order in which a map is visited.
\<close>

record 'w backend =
  be_exists :: "string \<Rightarrow> 'w \<Rightarrow> (goerr + bool) \<times> 'w"
  be_put :: "string \<Rightarrow> reader \<Rightarrow> int \<Rightarrow> time \<Rightarrow> 'w \<Rightarrow> goerr option \<times> string \<times> 'w"
  be_get :: "string \<Rightarrow> 'w \<Rightarrow> (goerr + string \<times> int) \<times> 'w"
  be_delete :: "string list \<Rightarrow> 'w \<Rightarrow> goerr option \<times> 'w"
  be_list :: "string list \<Rightarrow> 'w \<Rightarrow> (goerr + object list) \<times> 'w"
  be_ensure_bucket :: "'w \<Rightarrow> goerr option \<times> 'w"
  be_put_meta :: "string \<Rightarrow> string \<Rightarrow> 'w \<Rightarrow> goerr option \<times> 'w"
  be_get_meta :: "string \<Rightarrow> 'w \<Rightarrow> (goerr + string) \<times> 'w"
  be_delete_meta :: "string list \<Rightarrow> 'w \<Rightarrow> goerr option \<times> 'w"

text \<open>
  The contract. \<open>arts\<close> reads the artifacts off the state: the bytes and the modification
  time of every hash that is present; \<open>ord_ok\<close> is the visiting orders \<open>List\<close> may use.
  A failed \<open>Put\<close> may have touched its own hash, unless it failed because the hash exists
  or because the body was incomplete.
\<close>

locale artifact_backend =
  fixes be :: "'w backend"
    and arts :: "'w \<Rightarrow> (string \<rightharpoonup> string \<times> time)"
    and inv :: "'w \<Rightarrow> bool"
    and ord_ok :: "string list \<Rightarrow> 'w \<Rightarrow> bool"
  assumes exists_ok: "inv w \<Longrightarrow> be_exists be h w = (Inr b, w') \<Longrightarrow> b \<longleftrightarrow> h \<in> dom (arts w)"
    and exists_frame: "inv w \<Longrightarrow> be_exists be h w = (x, w') \<Longrightarrow> inv w' \<and> arts w' = arts w"
    and put_ok: "inv w \<Longrightarrow> be_put be h r n now w = (None, c, w') \<Longrightarrow>
      inv w' \<and> h \<notin> dom (arts w) \<and> int (length (limited n (rd_data r))) = n
      \<and> limited n c = limited n (rd_data r)
      \<and> (\<exists>t. arts w' = (arts w)(h \<mapsto> (limited n (rd_data r), t)))"
    and put_exists: "inv w \<Longrightarrow> be_put be h r n now w = (Some ErrExists, c, w') \<Longrightarrow>
      inv w' \<and> arts w' = arts w"
    and put_incomplete: "inv w \<Longrightarrow> be_put be h r n now w = (Some ErrIncomplete, c, w') \<Longrightarrow>
      inv w' \<and> arts w' = arts w"
    and put_error: "inv w \<Longrightarrow> be_put be h r n now w = (Some e, c, w') \<Longrightarrow>
      inv w' \<and> (\<forall>k. k \<noteq> h \<longrightarrow> arts w' k = arts w k)
      \<and> (h \<in> dom (arts w) \<longrightarrow> arts w' h = arts w h)"
    and get_ok: "inv w \<Longrightarrow> be_get be h w = (Inr (body, n), w') \<Longrightarrow>
      (\<exists>t. arts w h = Some (body, t)) \<and> n = int (length body)"
    and get_not_found: "inv w \<Longrightarrow> be_get be h w = (Inl ErrNotFound, w') \<Longrightarrow> arts w h = None"
    and get_frame: "inv w \<Longrightarrow> be_get be h w = (y, w') \<Longrightarrow> inv w' \<and> arts w' = arts w"
    and delete_ok: "inv w \<Longrightarrow> be_delete be hs w = (None, w') \<Longrightarrow>
      inv w' \<and> arts w' = arts w |` (- set hs)"
    and delete_error: "inv w \<Longrightarrow> be_delete be hs w = (Some e, w') \<Longrightarrow>
      inv w' \<and> (\<forall>k. arts w' k = arts w k \<or> k \<in> set hs \<and> arts w' k = None)"
    and list_ok: "inv w \<Longrightarrow> ord_ok ord w \<Longrightarrow> be_list be ord w = (Inr objs, w') \<Longrightarrow>
      distinct (map ob_hash objs)
      \<and> (\<forall>h t. (\<exists>d. arts w h = Some (d, t))
             \<longleftrightarrow> (\<exists>ob \<in> set objs. ob_hash ob = h \<and> ob_last_modified ob = t))"
    and list_frame: "inv w \<Longrightarrow> be_list be ord w = (z, w') \<Longrightarrow> inv w' \<and> arts w' = arts w"
begin

lemma put_keeps_others:
  assumes "inv w" and "be_put be h r n now w = (e, c, w')" and "k \<noteq> h"
  shows "arts w' k = arts w k"
proof (cases e)
  case None
  with assms put_ok [of w h r n now c w'] show ?thesis by auto
next
  case (Some x)
  with assms put_error [of w h r n now x c w'] show ?thesis by simp
qed

lemma put_never_overwrites:
  assumes "inv w" and "be_put be h r n now w = (e, c, w')" and "k \<in> dom (arts w)"
  shows "arts w' k = arts w k"
proof (cases "e = None")
  case True
  with assms put_ok [of w h r n now c w'] have "k \<noteq> h" by blast
  with assms show ?thesis by (intro put_keeps_others)
next
  case False
  then obtain x where "e = Some x" by auto
  with assms put_error [of w h r n now x c w'] show ?thesis by (cases "k = h") auto
qed

lemma put_inv: "inv w \<Longrightarrow> be_put be h r n now w = (e, c, w') \<Longrightarrow> inv w'"
  by (cases e) (use put_ok put_error in blast)+

lemma delete_frame:
  assumes "inv w" and "be_delete be hs w = (e, w')" and "k \<notin> set hs"
  shows "arts w' k = arts w k"
proof (cases e)
  case None
  with assms delete_ok [of w hs w'] show ?thesis by simp
next
  case (Some x)
  with assms delete_error [of w hs x w'] show ?thesis by auto
qed

lemma delete_inv: "inv w \<Longrightarrow> be_delete be hs w = (e, w') \<Longrightarrow> inv w'"
  by (cases e) (use delete_ok delete_error in blast)+

end

text \<open>
  Catalog metadata lives in the same backend, beside the artifacts. A write that reports an
  error may or may not have taken effect.
\<close>

locale meta_backend = artifact_backend be arts inv ord_ok
  for be :: "'w backend" and arts inv ord_ok +
  fixes meta :: "'w \<Rightarrow> (string \<rightharpoonup> string)"
  assumes put_meta_ok: "inv w \<Longrightarrow> be_put_meta be key d w = (None, w') \<Longrightarrow>
      meta w' = (meta w)(key \<mapsto> d)"
    and put_meta_error: "inv w \<Longrightarrow> be_put_meta be key d w = (Some e, w') \<Longrightarrow>
      meta w' = meta w \<or> meta w' = (meta w)(key \<mapsto> d)"
    and put_meta_frame: "inv w \<Longrightarrow> be_put_meta be key d w = (x, w') \<Longrightarrow> inv w' \<and> arts w' = arts w"
    and get_meta_ok: "inv w \<Longrightarrow> be_get_meta be key w = (Inr d, w') \<Longrightarrow> meta w key = Some d"
    and get_meta_not_found: "inv w \<Longrightarrow> be_get_meta be key w = (Inl ErrNotFound, w') \<Longrightarrow>
      meta w key = None"
    and get_meta_frame: "inv w \<Longrightarrow> be_get_meta be key w = (y, w') \<Longrightarrow>
      inv w' \<and> arts w' = arts w \<and> meta w' = meta w"
    and put_meta_keeps: "inv w \<Longrightarrow> be_put be h r n now w = (x, c, w') \<Longrightarrow> meta w' = meta w"
    and delete_meta_keeps: "inv w \<Longrightarrow> be_delete be hs w = (x, w') \<Longrightarrow> meta w' = meta w"
    and exists_meta_keeps: "inv w \<Longrightarrow> be_exists be h w = (b, w') \<Longrightarrow> meta w' = meta w"
    and get_meta_keeps: "inv w \<Longrightarrow> be_get be h w = (g, w') \<Longrightarrow> meta w' = meta w"
    and list_meta_keeps: "inv w \<Longrightarrow> be_list be ord w = (l, w') \<Longrightarrow> meta w' = meta w"
begin

lemma put_meta_other:
  assumes "inv w" and "be_put_meta be key d w = (x, w')" and "k \<noteq> key"
  shows "meta w' k = meta w k"
  using assms put_meta_ok [of w key d w'] put_meta_error [of w key d _ w']
  by (cases x) fastforce+

end

section \<open>The in-memory backend\<close>

record mem_obj =
  mo_data :: string
  mo_modified :: time

text \<open>The field \<open>now\<close> of the code is the system clock until \<open>SetTime\<close> replaces it.\<close>

record memory =
  mem_objects :: "(string, mem_obj) gomap"
  mem_meta :: "(string, string) gomap"
  mem_now :: "time option"

definition new_memory :: memory where [go_eval]:
  "new_memory = \<lparr>mem_objects = [], mem_meta = [], mem_now = None\<rparr>"

definition mem_clock :: "time \<Rightarrow> memory \<Rightarrow> time" where [go_eval]:
  "mem_clock now m = (case mem_now m of None \<Rightarrow> now | Some t \<Rightarrow> t)"

definition mem_exists :: "string \<Rightarrow> memory \<Rightarrow> (goerr + bool) \<times> memory" where [go_eval]:
  "mem_exists h m = (Inr (ghas (mem_objects m) h), m)"

definition mem_put ::
  "string \<Rightarrow> reader \<Rightarrow> int \<Rightarrow> time \<Rightarrow> memory \<Rightarrow> goerr option \<times> string \<times> memory" where [go_eval]:
  "mem_put h r sz now m =
     (let n = wrap64 (sz + 1); c = limited n (rd_data r) in
      case read_all_limited n r of
        Inl e \<Rightarrow> (Some e, c, m)
      | Inr data \<Rightarrow>
          if int (length data) \<noteq> sz then (Some ErrIncomplete, c, m)
          else if ghas (mem_objects m) h then (Some ErrExists, c, m)
          else (None, c, m\<lparr>mem_objects :=
                  gset (mem_objects m) h \<lparr>mo_data = data, mo_modified = mem_clock now m\<rparr>\<rparr>))"

definition mem_get :: "string \<Rightarrow> memory \<Rightarrow> (goerr + string \<times> int) \<times> memory" where [go_eval]:
  "mem_get h m =
     (case gget (mem_objects m) h of
        None \<Rightarrow> (Inl ErrNotFound, m)
      | Some obj \<Rightarrow> (Inr (mo_data obj, int (length (mo_data obj))), m))"

definition mem_delete :: "string list \<Rightarrow> memory \<Rightarrow> goerr option \<times> memory" where [go_eval]:
  "mem_delete hs m = (None, m\<lparr>mem_objects := gdels (mem_objects m) hs\<rparr>)"

definition mem_list :: "string list \<Rightarrow> memory \<Rightarrow> (goerr + object list) \<times> memory" where [go_eval]:
  "mem_list ord m =
     (Inr (map (\<lambda>(h, obj). \<lparr>ob_hash = h, ob_size = int (length (mo_data obj)),
                            ob_last_modified = mo_modified obj\<rparr>)
               (gvisit ord (mem_objects m))), m)"

definition mem_ensure_bucket :: "memory \<Rightarrow> goerr option \<times> memory" where [go_eval]:
  "mem_ensure_bucket m = (None, m)"

definition mem_put_meta :: "string \<Rightarrow> string \<Rightarrow> memory \<Rightarrow> goerr option \<times> memory" where [go_eval]:
  "mem_put_meta key data m = (None, m\<lparr>mem_meta := gset (mem_meta m) key data\<rparr>)"

definition mem_get_meta :: "string \<Rightarrow> memory \<Rightarrow> (goerr + string) \<times> memory" where [go_eval]:
  "mem_get_meta key m =
     (case gget (mem_meta m) key of None \<Rightarrow> (Inl ErrNotFound, m) | Some d \<Rightarrow> (Inr d, m))"

definition mem_delete_meta :: "string list \<Rightarrow> memory \<Rightarrow> goerr option \<times> memory" where [go_eval]:
  "mem_delete_meta ks m = (None, m\<lparr>mem_meta := gdels (mem_meta m) ks\<rparr>)"

definition mem_set_time :: "time \<Rightarrow> memory \<Rightarrow> memory" where [go_eval]:
  "mem_set_time t m = m\<lparr>mem_now := Some t\<rparr>"

definition memory_backend :: "memory backend" where [go_eval]:
  "memory_backend =
     \<lparr>be_exists = mem_exists, be_put = mem_put, be_get = mem_get, be_delete = mem_delete,
      be_list = mem_list, be_ensure_bucket = mem_ensure_bucket, be_put_meta = mem_put_meta,
      be_get_meta = mem_get_meta, be_delete_meta = mem_delete_meta\<rparr>"

text \<open>The artifacts of a memory backend; distinct keys are its only invariant.\<close>

definition mem_arts :: "memory \<Rightarrow> (string \<rightharpoonup> string \<times> time)" where
  "mem_arts m = (\<lambda>h. map_option (\<lambda>obj. (mo_data obj, mo_modified obj)) (gget (mem_objects m) h))"

definition mem_inv :: "memory \<Rightarrow> bool" where
  "mem_inv m \<longleftrightarrow> gwf (mem_objects m) \<and> gwf (mem_meta m)"

lemma dom_mem_arts: "h \<in> dom (mem_arts m) \<longleftrightarrow> ghas (mem_objects m) h"
  by (simp add: mem_arts_def ghas_def dom_def)

lemma limited_trans: "n \<le> k \<Longrightarrow> limited n (limited k s) = limited n s"
  by (simp add: limited_def min_def nat_le_eq_zle)

text \<open>What a successful upload has read: exactly \<open>sz\<close> bytes, the whole body.\<close>

lemma mem_put_data:
  assumes rd: "read_all_limited (wrap64 (sz + 1)) r = Inr data" and len: "int (length data) = sz"
  shows "in64 (sz + 1)" and "data = rd_data r"
proof -
  let ?n = "wrap64 (sz + 1)"
  have d: "data = limited ?n (rd_data r)"
    using rd by (rule read_all_limited_prefix)
  then have l: "length data = min (length (rd_data r)) (nat ?n)"
    by (simp add: limited_def)
  have bound: "?n < 2 ^ 63" using in64_wrap64 [of "sz + 1"] by (simp add: in64_def)
  show in64: "in64 (sz + 1)"
  proof (rule ccontr)
    assume out: "\<not> in64 (sz + 1)"
    with len have "2 ^ 63 \<le> sz + 1" by (simp add: in64_def)
    moreover have "length data \<le> nat ?n" using l by linarith
    with len bound have "sz < 2 ^ 63" by simp
    ultimately have "sz + 1 = 2 ^ 63" by linarith
    then have "?n = - (2 ^ 63)" by (simp add: wrap64_def)
    with l len \<open>sz + 1 = 2 ^ 63\<close> show False by simp
  qed
  then have "nat ?n = Suc (length data)" using len by (simp add: wrap64_id)
  moreover have "\<And>a b c :: nat. a = min b c \<Longrightarrow> c = Suc a \<Longrightarrow> b \<le> c" by linarith
  ultimately have "length (rd_data r) \<le> nat ?n" using l by blast
  then show "data = rd_data r" using d by (simp only: limited_def take_all)
qed

lemma mem_put_result:
  assumes "mem_put h r sz now m = (e, c, m')"
  shows "e = None \<Longrightarrow> \<not> ghas (mem_objects m) h \<and> int (length (rd_data r)) = sz \<and> c = rd_data r
           \<and> m' = m\<lparr>mem_objects := gset (mem_objects m) h
                     \<lparr>mo_data = rd_data r, mo_modified = mem_clock now m\<rparr>\<rparr>"
    and "e \<noteq> None \<Longrightarrow> m' = m"
proof -
  show "e \<noteq> None \<Longrightarrow> m' = m"
    using assms by (auto simp: mem_put_def Let_def split: sum.splits if_splits)
  assume "e = None"
  with assms obtain data where d: "read_all_limited (wrap64 (sz + 1)) r = Inr data"
      "int (length data) = sz" "\<not> ghas (mem_objects m) h"
    and m': "m' = m\<lparr>mem_objects := gset (mem_objects m) h
                     \<lparr>mo_data = data, mo_modified = mem_clock now m\<rparr>\<rparr>"
    and c: "c = limited (wrap64 (sz + 1)) (rd_data r)"
    by (auto simp: mem_put_def Let_def split: sum.splits if_splits)
  from mem_put_data [OF d(1,2)] read_all_limited_prefix [OF d(1)] d m' c
  show "\<not> ghas (mem_objects m) h \<and> int (length (rd_data r)) = sz \<and> c = rd_data r
           \<and> m' = m\<lparr>mem_objects := gset (mem_objects m) h
                     \<lparr>mo_data = rd_data r, mo_modified = mem_clock now m\<rparr>\<rparr>"
    by auto
qed

lemma limited_whole: "int (length s) = n \<Longrightarrow> limited n s = s"
  by (auto simp: limited_def)

lemma mem_arts_put: "mem_arts (m\<lparr>mem_objects := gset (mem_objects m) h ob\<rparr>)
    = (mem_arts m)(h \<mapsto> (mo_data ob, mo_modified ob))"
  by (rule ext) (simp add: mem_arts_def)

lemma mem_arts_delete: "mem_arts (m\<lparr>mem_objects := gdels (mem_objects m) hs\<rparr>)
    = mem_arts m |` (- set hs)"
  by (rule ext) (simp add: mem_arts_def gomap_simps restrict_map_def)

lemma mem_list_spec:
  assumes "mem_inv m" and "visit_order ord (mem_objects m)" and "mem_list ord m = (Inr objs, m')"
  shows "distinct (map ob_hash objs)"
    and "(\<exists>d. mem_arts m h = Some (d, t))
         \<longleftrightarrow> (\<exists>ob \<in> set objs. ob_hash ob = h \<and> ob_last_modified ob = t)"
proof -
  let ?f = "\<lambda>(h, obj). \<lparr>ob_hash = h, ob_size = int (length (mo_data obj)),
                            ob_last_modified = mo_modified obj\<rparr>"
  have objs: "objs = map ?f (gvisit ord (mem_objects m))"
    using assms(3) by (auto simp: mem_list_def)
  have "map ob_hash objs = map fst (gvisit ord (mem_objects m))"
    unfolding objs by (simp add: case_prod_beta)
  also have "\<dots> = ord" by (rule map_fst_gvisit [OF assms(2)])
  finally show "distinct (map ob_hash objs)" using assms(2) by (simp add: visit_order_def)
  have "set (gvisit ord (mem_objects m)) = set (mem_objects m)"
    using assms by (intro set_gvisit) (auto simp: mem_inv_def)
  moreover have "gwf (mem_objects m)" using assms by (simp add: mem_inv_def)
  ultimately show "(\<exists>d. mem_arts m h = Some (d, t))
         \<longleftrightarrow> (\<exists>ob \<in> set objs. ob_hash ob = h \<and> ob_last_modified ob = t)"
    unfolding objs by (force simp: mem_arts_def gwf_gget simp del: map_of_eq_Some_iff)
qed

text \<open>\<open>Memory\<close> provides the interface.\<close>

interpretation mem: artifact_backend memory_backend mem_arts mem_inv
  "\<lambda>ord m. visit_order ord (mem_objects m)"
proof (unfold_locales, goal_cases)
  case (1 w h b w')
  then show ?case by (auto simp: memory_backend_def mem_exists_def dom_mem_arts)
next
  case (3 w h r n now c w')
  then have "mem_put h r n now w = (None, c, w')" by (simp add: memory_backend_def)
  note * = mem_put_result(1) [OF this refl]
  with 3 show ?case
    by (auto simp: dom_mem_arts mem_arts_put limited_whole mem_inv_def)
next
  case (6 w h r n now e c w')
  then have "w' = w" using mem_put_result(2) [of h r n now w "Some e" c w']
    by (simp add: memory_backend_def)
  with 6 show ?case by simp
next
  case (10 w hs w')
  then show ?case
    by (auto simp: memory_backend_def mem_delete_def mem_arts_delete mem_inv_def)
next
  case (12 w ord objs w')
  then have "mem_list ord w = (Inr objs, w')" by (simp add: memory_backend_def)
  with mem_list_spec [of w ord objs w'] 12 show ?case by simp
qed (auto simp: memory_backend_def mem_exists_def mem_get_def mem_delete_def mem_list_def
    mem_arts_delete mem_arts_def mem_inv_def dest: mem_put_result(2) split: option.splits)


definition mem_metas :: "memory \<Rightarrow> (string \<rightharpoonup> string)" where
  "mem_metas m = gget (mem_meta m)"

interpretation mem: meta_backend memory_backend mem_arts mem_inv
  "\<lambda>ord m. visit_order ord (mem_objects m)" mem_metas
proof (unfold_locales, goal_cases)
  case (7 w h r n now x c w')
  then have "mem_put h r n now w = (x, c, w')" by (simp add: memory_backend_def)
  from mem_put_result [OF this] show ?case by (cases x) (auto simp: mem_metas_def)
qed (auto simp: memory_backend_def mem_put_meta_def mem_get_meta_def mem_exists_def mem_get_def
    mem_delete_def mem_list_def mem_metas_def mem_inv_def mem_arts_def split: option.splits)

end
