(* ===== verification/Catalog.thy ===== *)
theory Catalog
  imports Go_Strings
begin

text \<open>
  \<open>internal/store/store.go\<close>: the data of the artifact catalog (\<open>TaskInfo\<close>, \<open>Entry\<close>,
  \<open>DayStat\<close>, \<open>Stats\<close>), the helpers its implementations share, and the interface
  \<open>Store\<close> with the contract its clients rely on.
\<close>

section \<open>Catalog data\<close>

record task_info =
  ti_project :: string
  ti_target :: string
  ti_config :: string
  ti_kind :: string

definition empty_task :: task_info where [go_eval]:
  "empty_task = \<lparr>ti_project = [], ti_target = [], ti_config = [], ti_kind = []\<rparr>"

definition task_empty :: "task_info \<Rightarrow> bool" where [go_eval]:
  "task_empty t \<longleftrightarrow> ti_project t = [] \<and> ti_target t = [] \<and> ti_kind t = []"

definition task_label :: "task_info \<Rightarrow> string" where [go_eval]:
  "task_label t =
     (if ti_project t \<noteq> [] \<and> ti_target t \<noteq> [] \<and> ti_config t \<noteq> []
      then ti_project t @ '':'' @ ti_target t @ '':'' @ ti_config t
      else if ti_project t \<noteq> [] \<and> ti_target t \<noteq> [] then ti_project t @ '':'' @ ti_target t
      else if ti_target t \<noteq> [] then ti_target t
      else if ti_project t \<noteq> [] then ti_project t
      else [])"

record entry =
  en_hash :: string
  en_size :: int
  en_created :: time
  en_accessed :: time
  en_hits :: int
  en_task :: task_info

text \<open>The zero \<open>Entry\<close>, which reading an absent key of the map gives.\<close>

definition zero_entry :: entry where [go_eval]:
  "zero_entry = \<lparr>en_hash = [], en_size = 0, en_created = 0, en_accessed = 0, en_hits = 0,
                 en_task = empty_task\<rparr>"

record kind_count =
  kc_kind :: string
  kc_count :: int

record day_stat =
  ds_day :: string
  ds_hits :: int
  ds_misses :: int
  ds_stores :: int

record stats =
  sa_entries :: int
  sa_total_size :: int
  sa_hits :: int
  sa_misses :: int
  sa_stores :: int
  sa_days :: "day_stat list"
  sa_by_kind :: "kind_count list"

text \<open>
  The non-empty fields of \<open>info\<close> replace those of an entry; an empty field keeps the old
  value.
\<close>

definition overlay :: "task_info \<Rightarrow> task_info \<Rightarrow> task_info" where [go_eval]:
  "overlay info t =
     \<lparr>ti_project = (if ti_project info \<noteq> [] then ti_project info else ti_project t),
      ti_target = (if ti_target info \<noteq> [] then ti_target info else ti_target t),
      ti_config = (if ti_config info \<noteq> [] then ti_config info else ti_config t),
      ti_kind = (if ti_kind info \<noteq> [] then ti_kind info else ti_kind t)\<rparr>"

lemma overlay_empty [simp]: "overlay empty_task t = t"
  by (simp add: overlay_def empty_task_def)

lemma overlay_idem [simp]: "overlay i (overlay i t) = overlay i t"
  by (simp add: overlay_def)

definition matches_query :: "unicode_tables \<Rightarrow> entry \<Rightarrow> string \<Rightarrow> bool" where [go_eval]:
  "matches_query u e query =
     (let q = to_lower u (trim_space query) in
      if q = [] then True
      else contains (to_lower u (en_hash e)) q
         \<or> contains (to_lower u (ti_project (en_task e))) q
         \<or> contains (to_lower u (ti_target (en_task e))) q
         \<or> contains (to_lower u (ti_kind (en_task e))) q
         \<or> contains (to_lower u (task_label (en_task e))) q)"

section \<open>Counts by kind\<close>

text \<open>\<open>counts[kind] += n\<close> and \<open>counts[kind]\<close> on a map that reads 0 for an absent key.\<close>

definition count_of :: "(string, int) gomap \<Rightarrow> string \<Rightarrow> int" where [go_eval]:
  "count_of m k = (case gget m k of None \<Rightarrow> 0 | Some n \<Rightarrow> n)"

definition add_count :: "string \<Rightarrow> int \<Rightarrow> (string, int) gomap \<Rightarrow> (string, int) gomap" where [go_eval]:
  "add_count k n m = gset m k (wrap64 (count_of m k + n))"

definition kind_order :: "string list" where [go_eval]:
  "kind_order = [''build'', ''test'', ''lint'', ''e2e'', ''typecheck'']"

definition kind_counts_from_map :: "string list \<Rightarrow> (string, int) gomap \<Rightarrow> kind_count list" where [go_eval]:
  "kind_counts_from_map ord counts =
     (let out = map (\<lambda>k. \<lparr>kc_kind = k, kc_count = count_of counts k\<rparr>)
                    (filter (\<lambda>k. count_of counts k > 0) kind_order);
          seen = map kc_kind out;
          extra = map (\<lambda>(k, n). \<lparr>kc_kind = k, kc_count = n\<rparr>)
                      (filter (\<lambda>(k, n). \<not> (k \<in> set seen \<or> n = 0)) (gvisit ord counts))
      in out @ sort_key kc_kind extra)"

definition kind_or_unknown :: "string \<Rightarrow> string" where [go_eval]:
  "kind_or_unknown k = (if k = [] then ''unknown'' else k)"

section \<open>LIKE patterns\<close>

text \<open>
  \<open>strings.NewReplacer\<close> replaces backslash, percent and underscore by their escaped forms
  in one pass; the pattern is then enclosed in percent signs.
\<close>

definition backslash :: char where [go_eval]: "backslash = byte 92"

definition escape_like_char :: "char \<Rightarrow> string" where [go_eval]:
  "escape_like_char c =
     (if c = backslash \<or> c = CHR ''%'' \<or> c = CHR ''_'' then [backslash, c] else [c])"

definition like_contains :: "string \<Rightarrow> string" where [go_eval]:
  "like_contains q = ''%'' @ concat (map escape_like_char q) @ ''%''"

section \<open>The interface\<close>

text \<open>The orders in which \<open>Stats\<close> visits the entries, the kinds and the days.\<close>

record visits =
  vs_entries :: "string list"
  vs_kinds :: "string list"
  vs_days :: "string list"

record 'w store =
  st_upsert :: "string \<Rightarrow> int \<Rightarrow> time \<Rightarrow> task_info \<Rightarrow> 'w \<Rightarrow> goerr option \<times> 'w"
  st_record_hit :: "string \<Rightarrow> time \<Rightarrow> 'w \<Rightarrow> goerr option \<times> 'w"
  st_record_miss :: "time \<Rightarrow> 'w \<Rightarrow> goerr option \<times> 'w"
  st_list :: "string list \<Rightarrow> string \<Rightarrow> int \<Rightarrow> int \<Rightarrow> 'w \<Rightarrow> (entry list \<times> int) outcome"
  st_list_older :: "string list \<Rightarrow> time \<Rightarrow> 'w \<Rightarrow> goerr + entry list"
  st_delete :: "string list \<Rightarrow> 'w \<Rightarrow> goerr option \<times> 'w"
  st_stats :: "visits \<Rightarrow> time \<Rightarrow> 'w \<Rightarrow> goerr + stats"
  st_ensure :: "string \<Rightarrow> int \<Rightarrow> time \<Rightarrow> 'w \<Rightarrow> goerr option \<times> 'w"
  st_update_task :: "string \<Rightarrow> task_info \<Rightarrow> 'w \<Rightarrow> goerr option \<times> 'w"
  st_seed :: "entry \<Rightarrow> 'w \<Rightarrow> goerr option \<times> 'w"
  st_close :: "'w \<Rightarrow> goerr option \<times> 'w"

text \<open>
  The contract of a catalog. \<open>ents\<close> reads the entries off the state; \<open>expired\<close> says
  which entries \<open>ListOlderThan\<close> selects for a cutoff. An operation on one hash leaves the
  entries of all others alone, whether it succeeds or fails.
\<close>

locale artifact_catalog =
  fixes st :: "'w store"
    and ents :: "'w \<Rightarrow> (string \<rightharpoonup> entry)"
    and inv :: "'w \<Rightarrow> bool"
    and cord_ok :: "string list \<Rightarrow> 'w \<Rightarrow> bool"
    and expired :: "time \<Rightarrow> entry \<Rightarrow> bool"
  assumes ents_hash: "inv w \<Longrightarrow> ents w h = Some e \<Longrightarrow> en_hash e = h"
    and upsert_inv: "inv w \<Longrightarrow> h \<noteq> [] \<Longrightarrow> in64 n \<Longrightarrow> st_upsert st h n at info w = (x, w') \<Longrightarrow> inv w'"
    and upsert_ok: "inv w \<Longrightarrow> h \<noteq> [] \<Longrightarrow> in64 n \<Longrightarrow> st_upsert st h n at info w = (None, w') \<Longrightarrow>
      (\<exists>e. ents w' h = Some e \<and> en_size e = n
         \<and> en_task e = overlay info (case ents w h of None \<Rightarrow> empty_task | Some e0 \<Rightarrow> en_task e0))"
    and upsert_frame: "inv w \<Longrightarrow> h \<noteq> [] \<Longrightarrow> in64 n \<Longrightarrow> st_upsert st h n at info w = (x, w') \<Longrightarrow>
      k \<noteq> h \<Longrightarrow> ents w' k = ents w k"
    and hit_inv: "inv w \<Longrightarrow> h \<noteq> [] \<Longrightarrow> st_record_hit st h at w = (x, w') \<Longrightarrow> inv w'"
    and hit_ok: "inv w \<Longrightarrow> h \<noteq> [] \<Longrightarrow> st_record_hit st h at w = (None, w') \<Longrightarrow>
      ents w h = Some e \<Longrightarrow>
      \<exists>e'. ents w' h = Some e' \<and> en_hits e' = wrap64 (en_hits e + 1) \<and> en_created e' = en_created e
         \<and> en_size e' = en_size e \<and> en_task e' = en_task e"
    and hit_frame: "inv w \<Longrightarrow> h \<noteq> [] \<Longrightarrow> st_record_hit st h at w = (x, w') \<Longrightarrow> k \<noteq> h \<Longrightarrow>
      ents w' k = ents w k"
    and miss_frame: "inv w \<Longrightarrow> st_record_miss st at w = (x, w') \<Longrightarrow> inv w' \<and> ents w' = ents w"
    and older_ok: "inv w \<Longrightarrow> cord_ok ord w \<Longrightarrow> st_list_older st ord cutoff w = Inr es \<Longrightarrow>
      set es = {e. \<exists>h. ents w h = Some e \<and> expired cutoff e}"
    and del_ok: "inv w \<Longrightarrow> st_delete st hs w = (None, w') \<Longrightarrow>
      inv w' \<and> ents w' = ents w |` (- set hs)"
    and del_error: "inv w \<Longrightarrow> st_delete st hs w = (Some ee, w') \<Longrightarrow> inv w' \<and> ents w' = ents w"
    and ensure_inv: "inv w \<Longrightarrow> h \<noteq> [] \<Longrightarrow> in64 n \<Longrightarrow> st_ensure st h n at w = (x, w') \<Longrightarrow> inv w'"
    and ensure_ok: "inv w \<Longrightarrow> h \<noteq> [] \<Longrightarrow> in64 n \<Longrightarrow> st_ensure st h n at w = (None, w') \<Longrightarrow>
      h \<in> dom (ents w')"
    and ensure_keeps: "inv w \<Longrightarrow> h \<noteq> [] \<Longrightarrow> in64 n \<Longrightarrow> st_ensure st h n at w = (x, w') \<Longrightarrow>
      k \<noteq> h \<or> (\<exists>e. ents w k = Some e \<and> en_size e \<noteq> 0) \<Longrightarrow> ents w' k = ents w k"
begin

lemma deleted_gone: "inv w \<Longrightarrow> st_delete st hs w = (None, w') \<Longrightarrow> h \<in> set hs \<Longrightarrow> ents w' h = None"
  using del_ok [of w hs w'] by simp

lemma upsert_dom:
  "inv w \<Longrightarrow> h \<noteq> [] \<Longrightarrow> in64 n \<Longrightarrow> st_upsert st h n at info w = (None, w') \<Longrightarrow>
   dom (ents w') = insert h (dom (ents w))"
  using upsert_ok [of w h n at info w'] upsert_frame [of w h n at info None w']
  by (auto simp: dom_def) (metis option.distinct(1))+

lemma older_hashes:
  assumes "inv w" and "cord_ok ord w" and "st_list_older st ord cutoff w = Inr es"
  shows "h \<in> en_hash ` set es \<longleftrightarrow> (\<exists>e. ents w h = Some e \<and> expired cutoff e)"
  using older_ok [OF assms] ents_hash [OF assms(1)] by force

end

section \<open>Lemmas on counts by kind\<close>

lemma count_of_add: "count_of (add_count k n m) j = (if j = k then wrap64 (count_of m k + n) else count_of m j)"
  by (simp add: add_count_def count_of_def)

lemma gwf_add_count [simp]: "gwf m \<Longrightarrow> gwf (add_count k n m)"
  by (simp add: add_count_def)

lemma keys_add_count: "fst ` set (add_count k n m) = insert k (fst ` set m)"
  by (simp only: add_count_def fst_set_gset)

text \<open>Counting the elements of a list one by one.\<close>

definition tally :: "('a \<Rightarrow> string) \<Rightarrow> 'a list \<Rightarrow> (string, int) gomap" where [go_eval]:
  "tally f es = foldl (\<lambda>m e. add_count (f e) 1 m) [] es"

lemma tally_snoc: "tally f (es @ [e]) = add_count (f e) 1 (tally f es)"
  by (simp add: tally_def)

lemma gwf_tally: "gwf (tally f es)"
  by (induction es rule: rev_induct) (simp_all add: tally_snoc, simp add: tally_def)

lemma keys_tally: "fst ` set (tally f es) = f ` set es"
  by (induction es rule: rev_induct) (simp_all add: tally_snoc keys_add_count, simp add: tally_def)

lemma count_tally:
  "int (length es) < 2 ^ 63 \<Longrightarrow> count_of (tally f es) k = int (length (filter (\<lambda>e. f e = k) es))"
proof (induction es rule: rev_induct)
  case Nil
  show ?case by (simp add: tally_def count_of_def)
next
  case (snoc e es)
  have "length (filter (\<lambda>e. f e = k) es) \<le> length es" by (rule length_filter_le)
  moreover have "int (length es) + 1 < 2 ^ 63" using snoc.prems by simp
  ultimately have "in64 (int (length (filter (\<lambda>e. f e = k) es)) + 1)"
    unfolding in64_def by linarith
  then show ?case using snoc by (auto simp: tally_snoc count_of_add wrap64_id)
qed

lemma count_of_gget: "gget m k = Some n \<Longrightarrow> count_of m k = n"
  by (simp add: count_of_def)

lemma kind_order_distinct: "distinct kind_order"
  by (simp add: kind_order_def)

lemma distinct_visit: "visit_order ord m \<Longrightarrow> distinct (map fst (filter P (gvisit ord m)))"
  by (metis distinct_map_filter map_fst_gvisit visit_order_def)

lemma distinct_map_sort: "distinct (map f (sort_key g xs)) \<longleftrightarrow> distinct (map f xs)"
  by (rule mset_eq_imp_distinct_iff) simp

text \<open>
  The report of the counts: every kind with a non-zero count, once, with its count; the
  known kinds come first, the others follow in alphabetical order.
\<close>

lemma kind_counts_spec:
  assumes "gwf m" and "visit_order ord m" and nn: "\<And>k. 0 \<le> count_of m k"
  shows "distinct (map kc_kind (kind_counts_from_map ord m))"
    and "set (kind_counts_from_map ord m)
       = {kc. count_of m (kc_kind kc) \<noteq> 0 \<and> kc_count kc = count_of m (kc_kind kc)}"
proof -
  let ?out = "map (\<lambda>k. \<lparr>kc_kind = k, kc_count = count_of m k\<rparr>) (filter (\<lambda>k. count_of m k > 0) kind_order)"
  let ?seen = "set (map kc_kind ?out)"
  let ?sel = "filter (\<lambda>(k, n). \<not> (k \<in> ?seen \<or> n = 0)) (gvisit ord m)"
  let ?extra = "map (\<lambda>(k, n). \<lparr>kc_kind = k, kc_count = n\<rparr>) ?sel"
  have eq: "kind_counts_from_map ord m = ?out @ sort_key kc_kind ?extra"
    unfolding kind_counts_from_map_def Let_def by (rule refl)
  have out: "map kc_kind ?out = filter (\<lambda>k. count_of m k > 0) kind_order" by (simp add: comp_def)
  have extra: "map kc_kind ?extra = map fst ?sel" by (simp add: case_prod_beta)
  have kinds: "kc_kind ` set ?extra = set (map fst ?sel)"
    using arg_cong [OF extra, of set] by (simp only: set_map)
  have "distinct (map fst ?sel)" by (rule distinct_visit [OF assms(2)])
  then have "distinct (map kc_kind ?extra)" by (simp only: extra)
  then have "distinct (map kc_kind (sort_key kc_kind ?extra))"
    by (simp only: distinct_map_sort)
  moreover have "distinct (map kc_kind ?out)"
    unfolding out using kind_order_distinct by simp
  moreover have "set (map fst ?sel) \<inter> ?seen = {}" by auto
  ultimately show "distinct (map kc_kind (kind_counts_from_map ord m))"
    unfolding eq using kinds by (auto simp del: map_map)
  have mem: "(k, n) \<in> set (gvisit ord m) \<longleftrightarrow> gget m k = Some n" for k n
    using assms(1) by (simp add: set_gvisit [OF assms(1,2)] gwf_gget del: map_of_eq_Some_iff)
  have seen: "k \<in> ?seen \<longleftrightarrow> k \<in> set kind_order \<and> 0 < count_of m k" for k
    unfolding out by auto
  have "kc \<in> set ?out \<union> set ?extra \<longleftrightarrow> count_of m (kc_kind kc) \<noteq> 0 \<and> kc_count kc = count_of m (kc_kind kc)"
    for kc :: kind_count
  proof (cases kc)
    case (fields k n)
    have "kc \<in> set ?out \<longleftrightarrow> k \<in> ?seen \<and> n = count_of m k" unfolding seen fields by auto
    moreover have "kc \<in> set ?extra \<longleftrightarrow> gget m k = Some n \<and> k \<notin> ?seen \<and> n \<noteq> 0"
      unfolding fields by (auto simp: mem image_iff)
    moreover have "gget m k = Some n \<and> n \<noteq> 0 \<longleftrightarrow> count_of m k = n \<and> n \<noteq> 0"
      by (auto simp: count_of_def split: option.splits)
    moreover have "k \<in> ?seen \<Longrightarrow> 0 < count_of m k" unfolding seen by simp
    ultimately show ?thesis unfolding fields by auto
  qed
  then show "set (kind_counts_from_map ord m)
       = {kc. count_of m (kc_kind kc) \<noteq> 0 \<and> kc_count kc = count_of m (kc_kind kc)}"
    unfolding eq set_append set_sort by (intro set_eqI) (simp only: mem_Collect_eq)
qed

end
