(* ===== verification/Go_Time.thy ===== *)
theory Go_Time
  imports Go_Strings
begin

text \<open>
  Calendar dates of Go's \<open>time\<close> package in UTC: the date of a time in the proleptic
  Gregorian calendar and the layout \<open>2006-01-02\<close> that names the days of the statistics.
  The main result is that these names compare, byte by byte, as the days do.
\<close>

section \<open>Civil dates\<close>

text \<open>Days since 1 January of the year 1, and the first day of the year \<open>y + 1\<close>.\<close>

definition day_number :: "time \<Rightarrow> int" where [go_eval]:
  "day_number t = t div (24 * hour)"

definition year_start :: "int \<Rightarrow> int" where [go_eval]:
  "year_start y = 365 * y + y div 4 - y div 100 + y div 400"

definition leap_after :: "int \<Rightarrow> bool" where [go_eval]:
  "leap_after y \<longleftrightarrow> (y + 1) mod 4 = 0 \<and> ((y + 1) mod 100 \<noteq> 0 \<or> (y + 1) mod 400 = 0)"

definition year_length :: "int \<Rightarrow> int" where [go_eval]:
  "year_length y = (if leap_after y then 366 else 365)"

text \<open>
  The year (counted from 0) and the day in it: 400-year cycles, then centuries, then
  4-year cycles, then years, the last century and the last year of a cycle being longer.
\<close>

definition year_and_day :: "int \<Rightarrow> int \<times> int" where [go_eval]:
  "year_and_day n =
     (let n400 = n div 146097; r = n mod 146097;
          n100 = min 3 (r div 36524); r2 = r - 36524 * n100;
          n4 = r2 div 1461; r3 = r2 mod 1461;
          n1 = min 3 (r3 div 365)
      in (400 * n400 + 100 * n100 + 4 * n4 + n1, r3 - 365 * n1))"

fun month_and_day :: "int list \<Rightarrow> int \<Rightarrow> int \<Rightarrow> int \<times> int" where
  "month_and_day [] m d = (m, d + 1)"
| "month_and_day (l # ls) m d = (if d < l then (m, d + 1) else month_and_day ls (m + 1) (d - l))"

definition month_lengths :: "bool \<Rightarrow> int list" where [go_eval]:
  "month_lengths leap = [31, if leap then 29 else 28, 31, 30, 31, 30, 31, 31, 30, 31, 30, 31]"

definition civil :: "int \<Rightarrow> int \<times> int \<times> int" where [go_eval]:
  "civil n =
     (let (y, yd) = year_and_day n; (m, d) = month_and_day (month_lengths (leap_after y)) 1 yd
      in (y + 1, m, d))"

definition pad_zero :: "nat \<Rightarrow> nat \<Rightarrow> string" where [go_eval]:
  "pad_zero w n = replicate (w - length (nat_str n)) (CHR ''0'') @ nat_str n"

definition pad_int :: "nat \<Rightarrow> int \<Rightarrow> string" where [go_eval]:
  "pad_int w i = (if i < 0 then CHR ''-'' # pad_zero w (nat (- i)) else pad_zero w (nat i))"

text \<open>\<open>t.UTC().Format("2006-01-02")\<close>\<close>

definition format_day :: "time \<Rightarrow> string" where [go_eval]:
  "format_day t =
     (let (y, m, d) = civil (day_number t) in pad_int 4 y @ ''-'' @ pad_int 2 m @ ''-'' @ pad_int 2 d)"

section \<open>Correctness of the calendar\<close>

lemma year_start_parts:
  assumes "0 \<le> a" "0 \<le> b" "b \<le> 3" "0 \<le> c" "c \<le> 24" "0 \<le> d" "d \<le> (3 :: int)"
  shows "year_start (400 * a + 100 * b + 4 * c + d) = 146097 * a + 36524 * b + 1461 * c + 365 * d"
proof -
  have "(400 * a + 100 * b + 4 * c + d) div 4 = 100 * a + 25 * b + c" using assms by linarith
  moreover have "(400 * a + 100 * b + 4 * c + d) div 100 = 4 * a + b" using assms by linarith
  moreover have "(400 * a + 100 * b + 4 * c + d) div 400 = a" using assms by linarith
  ultimately show ?thesis by (simp add: year_start_def)
qed

lemma div_succ:
  fixes y k :: int
  assumes "0 < k"
  shows "(y + 1) div k = y div k + (if (y + 1) mod k = 0 then 1 else 0)"
proof -
  let ?q = "(y + 1) div k" and ?r = "(y + 1) mod k"
  have eq: "y + 1 = k * ?q + ?r" by simp
  have r: "0 \<le> ?r" "?r < k" using assms by simp_all
  show ?thesis
  proof (cases "?r = 0")
    case True
    with eq have "y = k * (?q - 1) + (k - 1)" by (simp add: right_diff_distrib)
    then have "y div k = ?q - 1" using assms int_div_pos_eq [of y k "?q - 1" "k - 1"] by linarith
    with True show ?thesis by simp
  next
    case False
    from eq have "y = k * ?q + (?r - 1)" by linarith
    then have "y div k = ?q" using r False int_div_pos_eq [of y k ?q "?r - 1"] by linarith
    with False show ?thesis by simp
  qed
qed

lemma year_start_Suc: "year_start (y + 1) = year_start y + year_length y"
proof -
  define p4 p100 p400 where "p4 \<longleftrightarrow> (y + 1) mod 4 = 0" and "p100 \<longleftrightarrow> (y + 1) mod 100 = 0"
    and "p400 \<longleftrightarrow> (y + 1) mod 400 = 0"
  have "p100 \<longrightarrow> p4" unfolding p100_def p4_def by presburger
  moreover have "p400 \<longrightarrow> p100" unfolding p400_def p100_def by presburger
  moreover have "(y + 1) div 4 = y div 4 + (if p4 then 1 else 0)"
    and "(y + 1) div 100 = y div 100 + (if p100 then 1 else 0)"
    and "(y + 1) div 400 = y div 400 + (if p400 then 1 else 0)"
    unfolding p4_def p100_def p400_def by (rule div_succ, simp)+
  moreover have "year_length y = (if p4 \<and> (\<not> p100 \<or> p400) then 366 else 365)"
    by (simp only: year_length_def leap_after_def p4_def p100_def p400_def)
  moreover have "365 * (y + 1) + a' - b' + c' = 365 * y + a - b + c + l"
    if "p100 \<longrightarrow> p4" "p400 \<longrightarrow> p100" "a' = a + (if p4 then 1 else 0)"
      "b' = b + (if p100 then 1 else 0)" "c' = c + (if p400 then 1 else 0)"
      "l = (if p4 \<and> (\<not> p100 \<or> p400) then 366 else 365)" for a a' b b' c c' l :: int
    using that by (cases p4; cases p100; cases p400) simp_all
  ultimately show ?thesis
    unfolding year_start_def by blast
qed

lemma year_start_mono: "y \<le> z \<Longrightarrow> year_start y \<le> year_start z"
proof -
  have "year_start y \<le> year_start (y + int k)" for k
  proof (induction k)
    case (Suc k)
    have "year_start (y + int (Suc k)) = year_start (y + int k) + year_length (y + int k)"
      using year_start_Suc [of "y + int k"] by (simp add: algebra_simps)
    with Suc show ?case by (simp add: year_length_def split: if_splits)
  qed simp
  from this [of "nat (z - y)"] show "y \<le> z \<Longrightarrow> year_start y \<le> year_start z" by simp
qed

lemma year_and_day_spec:
  assumes "0 \<le> n" and "year_and_day n = (y, yd)"
  shows "n = year_start y + yd" and "0 \<le> yd" and "yd < year_length y" and "0 \<le> y"
proof -
  define a where "a = n div 146097"
  define r where "r = n mod 146097"
  define b where "b = min 3 (r div 36524)"
  define r2 where "r2 = r - 36524 * b"
  define c where "c = r2 div 1461"
  define r3 where "r3 = r2 mod 1461"
  define d where "d = min 3 (r3 div 365)"
  have "year_and_day n = (400 * a + 100 * b + 4 * c + d, r3 - 365 * d)"
    unfolding year_and_day_def Let_def d_def r3_def c_def r2_def b_def r_def a_def by (rule refl)
  with assms(2) have y: "y = 400 * a + 100 * b + 4 * c + d" and yd: "yd = r3 - 365 * d"
    by simp_all
  have n: "n = 146097 * a + r" "0 \<le> a" using assms(1) by (simp_all add: a_def r_def)
  have r: "0 \<le> r" "r < 146097" by (simp_all add: r_def)
  have b: "0 \<le> b" "b \<le> 3" "36524 * b \<le> r" using r by (simp_all add: b_def min_def) linarith+
  have r2: "0 \<le> r2" "r2 < 36524 \<or> b = 3 \<and> r2 \<le> 36524"
  proof -
    show "0 \<le> r2" using b by (simp add: r2_def)
    have t: "r < 36524 * (r div 36524) + 36524" by linarith
    show "r2 < 36524 \<or> b = 3 \<and> r2 \<le> 36524"
    proof (cases "r div 36524 \<le> 3")
      case True
      then have "b = r div 36524" by (simp add: b_def)
      with t show ?thesis unfolding r2_def by linarith
    next
      case False
      then have "b = 3" by (simp add: b_def)
      with r show ?thesis unfolding r2_def by linarith
    qed
  qed
  have r2c: "r2 = 1461 * c + r3" "0 \<le> r3" "r3 < 1461" by (simp_all add: c_def r3_def)
  then have c: "0 \<le> c" "c \<le> 24" using r2 by linarith+
  have d: "0 \<le> d" "d \<le> 3" "365 * d \<le> r3" using r2c by (simp_all add: d_def min_def) linarith+
  have r3: "r3 - 365 * d < 365 \<or> d = 3 \<and> r3 = 1460"
  proof (cases "r3 div 365 \<le> 3")
    case True
    then have "d = r3 div 365" by (simp add: d_def)
    then show ?thesis by linarith
  next
    case False
    then have "d = 3" by (simp add: d_def)
    with r2c(3) False show ?thesis by linarith
  qed
  have ys: "year_start y = 146097 * a + 36524 * b + 1461 * c + 365 * d"
    unfolding y using n b c d by (intro year_start_parts) auto
  show "n = year_start y + yd"
    using ys n r2c by (simp add: yd r2_def)
  show "0 \<le> yd" using d by (simp add: yd)
  show "0 \<le> y" unfolding y using n b c d by simp
  show "yd < year_length y"
  proof (cases "r3 - 365 * d < 365")
    case True
    then show ?thesis by (simp add: yd year_length_def)
  next
    case False
    with r3 have d3: "d = 3" and r3: "r3 = 1460" by auto
    have "leap_after y"
    proof -
      have "c < 24 \<or> b = 3" using r2 r2c r3 c by linarith
      moreover have y1: "y + 1 = 4 * (100 * a + 25 * b + (c + 1))" using y d3 by simp
      moreover have "(y + 1) mod 100 = 4 * (c + 1)" if "c < 24"
      proof -
        have "y + 1 = 4 * (c + 1) + 100 * (4 * a + b)" using y1 by simp
        then have "(y + 1) mod 100 = 4 * (c + 1) mod 100" by (simp only: mod_mult_self2)
        also have "\<dots> = 4 * (c + 1)" using c that by (intro mod_pos_pos_trivial) simp_all
        finally show ?thesis .
      qed
      moreover have "(y + 1) mod 400 = 0" if "\<not> c < 24" "b = 3"
      proof -
        have "y + 1 = 400 * (a + 1)" using y1 c that by simp
        then show ?thesis by (simp only: mod_mult_self1_is_0)
      qed
      moreover have "(y + 1) mod 4 = 0" using y1 by (simp only: mod_mult_self1_is_0)
      ultimately show ?thesis unfolding leap_after_def using c by (cases "c < 24") simp_all
    qed
    then show ?thesis by (simp add: yd year_length_def d3 r3)
  qed
qed

lemma year_day_order:
  assumes "0 \<le> n" and "n < n'" and "year_and_day n = (y, yd)" and "year_and_day n' = (y', yd')"
  shows "y < y' \<or> y = y' \<and> yd < yd'"
proof (rule ccontr)
  assume neg: "\<not> ?thesis"
  note s = year_and_day_spec [OF assms(1,3)]
  have "0 \<le> n'" using assms by simp
  note s' = year_and_day_spec [OF this assms(4)]
  show False
  proof (cases "y = y'")
    case True
    with neg s(1) s'(1) assms(2) show False by simp
  next
    case False
    with neg have "y' + 1 \<le> y" by simp
    then have "year_start y' + year_length y' \<le> year_start y"
      using year_start_mono [of "y' + 1" y] by (simp add: year_start_Suc)
    with s s' assms(2) show False by simp
  qed
qed

lemma month_and_day_bounds:
  "month_and_day ls m d = (m', d') \<Longrightarrow> 0 \<le> d \<Longrightarrow> d < sum_list ls \<Longrightarrow> (\<And>l. l \<in> set ls \<Longrightarrow> l \<le> 31) \<Longrightarrow>
   m \<le> m' \<and> m' < m + int (length ls) \<and> 1 \<le> d' \<and> d' \<le> 31"
proof (induction ls m d rule: month_and_day.induct)
  case (2 l ls m d)
  show ?case
  proof (cases "d < l")
    case True
    with 2 show ?thesis by fastforce
  next
    case False
    with 2 have "m + 1 \<le> m' \<and> m' < m + 1 + int (length ls) \<and> 1 \<le> d' \<and> d' \<le> 31" by auto
    then show ?thesis by auto
  qed
qed simp

lemma month_and_day_start: "month_and_day ls m d = (m', d') \<Longrightarrow> m \<le> m'"
  by (induction ls m d rule: month_and_day.induct) (auto split: if_splits)

lemma month_and_day_order:
  "month_and_day ls m d = (m1, d1) \<Longrightarrow> month_and_day ls m e = (m2, d2) \<Longrightarrow> d < e \<Longrightarrow>
   m1 < m2 \<or> m1 = m2 \<and> d1 < d2"
proof (induction ls m d arbitrary: e rule: month_and_day.induct)
  case (2 l ls m d)
  then show ?case
    by (fastforce split: if_splits dest: month_and_day_start)
qed auto

lemma month_lengths_sum: "sum_list (month_lengths b) = (if b then 366 else 365)"
  by (simp add: month_lengths_def)

lemma month_lengths_le: "l \<in> set (month_lengths b) \<Longrightarrow> l \<le> 31"
  by (auto simp: month_lengths_def split: if_splits)

lemma length_month_lengths: "length (month_lengths b) = 12"
  by (simp add: month_lengths_def)

lemma civil_bounds:
  assumes "0 \<le> n" and "civil n = (y, m, d)"
  shows "1 \<le> y \<and> 1 \<le> m \<and> m \<le> 12 \<and> 1 \<le> d \<and> d \<le> 31"
proof -
  obtain y0 yd where yd: "year_and_day n = (y0, yd)" by force
  note s = year_and_day_spec [OF assms(1) yd]
  have md: "month_and_day (month_lengths (leap_after y0)) 1 yd = (m, d)" and y: "y = y0 + 1"
    using assms(2) yd by (auto simp: civil_def split: prod.splits)
  have "yd < sum_list (month_lengths (leap_after y0))"
    using s(3) by (simp add: month_lengths_sum year_length_def)
  have "1 \<le> m \<and> m < 1 + int (length (month_lengths (leap_after y0))) \<and> 1 \<le> d \<and> d \<le> 31"
    by (rule month_and_day_bounds [OF md s(2)]) (fact, rule month_lengths_le)
  with s(4) y show ?thesis by (simp add: length_month_lengths)
qed

lemma civil_order:
  assumes "0 \<le> n" and "n < n'" and "civil n = (y, m, d)" and "civil n' = (y', m', d')"
  shows "y < y' \<or> y = y' \<and> (m < m' \<or> m = m' \<and> d < d')"
proof -
  obtain z zd z' zd' where yd: "year_and_day n = (z, zd)" "year_and_day n' = (z', zd')" by force
  have m: "month_and_day (month_lengths (leap_after z)) 1 zd = (m, d)" "y = z + 1"
      "month_and_day (month_lengths (leap_after z')) 1 zd' = (m', d')" "y' = z' + 1"
    using assms(3,4) yd by (auto simp: civil_def split: prod.splits)
  from year_day_order [OF assms(1,2) yd] m month_and_day_order show ?thesis
    by (metis add_less_cancel_right)
qed

section \<open>Day names compare as days\<close>

lemma digits_val_Cons: "digits_val (c # s) = digit_val c * 10 ^ length s + digits_val s"
proof -
  have "foldl (\<lambda>a c. 10 * a + digit_val c) a s = a * 10 ^ length s + digits_val s" for a
  proof (induction s arbitrary: a)
    case Nil
    show ?case by (simp add: digits_val_def)
  next
    case (Cons d s)
    have "foldl (\<lambda>a c. 10 * a + digit_val c) a (d # s)
        = (10 * a + digit_val d) * 10 ^ length s + digits_val s"
      by (simp add: Cons)
    moreover have "digits_val (d # s) = digit_val d * 10 ^ length s + digits_val s"
      using Cons [of "digit_val d"] by (simp add: digits_val_def)
    ultimately show ?case by (simp add: add_mult_distrib)
  qed
  from this [of "digit_val c"] show ?thesis by (simp add: digits_val_def)
qed

lemma digit_val_less: "is_digit c \<Longrightarrow> digit_val c < 10"
  by (simp add: is_digit_def in_range_def digit_val_def bval_def) linarith

lemma digits_val_bound: "list_all is_digit s \<Longrightarrow> digits_val s < 10 ^ length s"
proof (induction s)
  case (Cons c s)
  then have "digit_val c \<le> 9" using digit_val_less [of c] by simp
  then have "digit_val c * 10 ^ length s \<le> 9 * 10 ^ length s" by (rule mult_le_mono1)
  moreover have "digits_val s < 10 ^ length s" using Cons by simp
  ultimately have "digit_val c * 10 ^ length s + digits_val s < 9 * 10 ^ length s + 10 ^ length s"
    by (rule add_le_less_mono)
  then show ?case by (simp add: digits_val_Cons)
qed (simp add: digits_val_def)

lemma digit_less_iff: "is_digit c \<Longrightarrow> is_digit d \<Longrightarrow> c < d \<longleftrightarrow> digit_val c < digit_val d"
  by (auto simp: is_digit_def in_range_def digit_val_def bval_def less_char_def)

lemma digits_less_iff:
  "list_all is_digit s \<Longrightarrow> list_all is_digit t \<Longrightarrow> length s = length t \<Longrightarrow>
   s < t \<longleftrightarrow> digits_val s < digits_val t"
proof (induction s arbitrary: t)
  case (Cons c s)
  then obtain d t' where t: "t = d # t'" by (cases t) auto
  with Cons have IH: "s < t' \<longleftrightarrow> digits_val s < digits_val t'" by simp
  have b: "digits_val s < 10 ^ length s" "digits_val t' < 10 ^ length s"
    using Cons.prems t digits_val_bound [of s] digits_val_bound [of t'] by simp_all
  have step: "x * 10 ^ length s + 10 ^ length s \<le> y * 10 ^ length s" if "x < y" for x y :: nat
    using mult_le_mono1 [of "Suc x" y "10 ^ length s"] that by simp
  have cd: "c < d \<longleftrightarrow> digit_val c < digit_val d" "d < c \<longleftrightarrow> digit_val d < digit_val c"
    using Cons.prems t by (simp_all add: digit_less_iff)
  consider "c < d" | "c = d" | "d < c" by (rule linorder_cases)
  then show ?case
  proof cases
    case 1
    with cd step [of "digit_val c" "digit_val d"] b t Cons.prems(3) show ?thesis
      by (simp add: digits_val_Cons)
  next
    case 2
    with IH t Cons.prems(3) show ?thesis by (simp add: digits_val_Cons)
  next
    case 3
    with cd step [of "digit_val d" "digit_val c"] b t Cons.prems(3) show ?thesis
      by (auto simp: digits_val_Cons)
  qed
qed simp

lemma append_less_iff:
  fixes p q s t :: string
  shows "length p = length q \<Longrightarrow> p @ s < q @ t \<longleftrightarrow> p < q \<or> p = q \<and> s < t"
proof (induction p arbitrary: q)
  case (Cons c p)
  then show ?case by (cases q) auto
qed simp

lemma length_nat_str: "n < 10 ^ w \<Longrightarrow> 0 < w \<Longrightarrow> length (nat_str n) \<le> w"
proof (induction n arbitrary: w rule: nat_str.induct)
  case (1 n)
  show ?case
  proof (cases "n < 10")
    case True
    with 1 show ?thesis by (subst nat_str.simps) simp
  next
    case False
    with 1 obtain v where v: "w = Suc v" "0 < v" by (cases w) (auto, cases "w - 1", auto)
    with 1 have "n div 10 < 10 ^ v" by (simp add: div_less_iff_less_mult mult.commute)
    with 1 False v have "length (nat_str (n div 10)) \<le> v" by simp
    with False v show ?thesis by (subst nat_str.simps) simp
  qed
qed

lemma digits_val_zeros: "digits_val (replicate k (CHR ''0'') @ s) = digits_val s"
  by (induction k) (simp_all add: digits_val_Cons digit_val_def bval_def)

lemma pad_zero_spec:
  assumes "n < 10 ^ w" and "0 < w"
  shows "length (pad_zero w n) = w" and "list_all is_digit (pad_zero w n)"
    and "digits_val (pad_zero w n) = n"
  using length_nat_str [OF assms]
  by (simp_all add: pad_zero_def digits_val_zeros list_all_append)
    (simp add: list_all_iff is_digit_def in_range_def bval_def)

lemma pad_zero_less:
  assumes "m < 10 ^ w" and "n < 10 ^ w" and "0 < w"
  shows "pad_zero w m < pad_zero w n \<longleftrightarrow> m < n"
  using pad_zero_spec [OF assms(1,3)] pad_zero_spec [OF assms(2,3)]
    digits_less_iff [of "pad_zero w m" "pad_zero w n"] by simp

text \<open>The days of the years 1 to 9999.\<close>

definition days_to_10000 :: int where [go_eval]:
  "days_to_10000 = 3652059"

lemma civil_year_bound:
  assumes "0 \<le> n" and "n < days_to_10000" and "civil n = (y, m, d)"
  shows "y \<le> 9999"
proof (rule ccontr)
  assume big: "\<not> y \<le> 9999"
  obtain y0 yd where yd: "year_and_day n = (y0, yd)" by force
  with assms(3) have "y = y0 + 1" by (auto simp: civil_def split: prod.splits)
  with big have "year_start 9999 \<le> year_start y0" by (intro year_start_mono) simp
  moreover have "year_start 9999 = days_to_10000" by (simp add: year_start_def days_to_10000_def)
  ultimately show False using year_and_day_spec(1,2) [OF assms(1) yd] assms(2) by simp
qed

lemma format_day_less:
  assumes "0 \<le> day_number t" and "day_number t < day_number u" and "day_number u < days_to_10000"
  shows "format_day t < format_day u"
proof -
  obtain y m d y' m' d' where c: "civil (day_number t) = (y, m, d)" "civil (day_number u) = (y', m', d')"
    by (metis prod_cases3)
  have nn: "0 \<le> day_number u" "day_number t < days_to_10000" using assms by simp_all
  note b = civil_bounds [OF assms(1) c(1)] civil_bounds [OF nn(1) c(2)]
  have y: "y \<le> 9999" "y' \<le> 9999"
    using civil_year_bound assms c nn by blast+
  have small: "nat y < 10 ^ 4" "nat y' < 10 ^ 4" "nat m < 10 ^ 2" "nat m' < 10 ^ 2"
      "nat d < 10 ^ 2" "nat d' < 10 ^ 2" using b y by (simp_all add: nat_less_iff)
  note lens = small [THEN pad_zero_spec(1)]
  have f: "format_day t = pad_zero 4 (nat y) @ ''-'' @ pad_zero 2 (nat m) @ ''-'' @ pad_zero 2 (nat d)"
    "format_day u = pad_zero 4 (nat y') @ ''-'' @ pad_zero 2 (nat m') @ ''-'' @ pad_zero 2 (nat d')"
    using b c by (simp_all add: format_day_def pad_int_def)
  from civil_order [OF assms(1,2) c]
  have "nat y < nat y' \<or> nat y = nat y' \<and> (nat m < nat m' \<or> nat m = nat m' \<and> nat d < nat d')"
    using b by auto
  then show ?thesis
    unfolding f using small by (auto simp: append_less_iff lens pad_zero_less)
qed

lemma format_day_eq: "day_number t = day_number u \<Longrightarrow> format_day t = format_day u"
  by (simp add: format_day_def)

lemma format_day_le_iff:
  assumes "0 \<le> day_number t" "day_number t < days_to_10000"
    and "0 \<le> day_number u" "day_number u < days_to_10000"
  shows "format_day t \<le> format_day u \<longleftrightarrow> day_number t \<le> day_number u"
  using format_day_less [of t u] format_day_less [of u t] format_day_eq [of t u] assms
  by (cases "day_number t" "day_number u" rule: linorder_cases) auto

end
