(* ===== verification/Object_Store.thy ===== *)
theory Object_Store
  imports Catalog Go_Time
begin

text \<open>
  \<open>internal/store/object.go\<close>: the catalog kept in memory. Its state is the map of entries,
  the counters (totals and per day), and the flags \<open>dirty\<close> and \<open>loadFailed\<close> that guard the
  snapshot. Every method runs under the mutex, so each is one function on the state; the
  snapshot protocol itself is in the theory \<open>Snapshot\<close>.
\<close>

section \<open>State\<close>

text \<open>A day is a pointer in the code: \<open>None\<close> is a nil pointer, which a snapshot may hold.\<close>

record object_stats =
  os_hits :: int
  os_misses :: int
  os_stores :: int
  os_days :: "(string, day_stat option) gomap"

record objcat =
  oc_entries :: "(string, entry) gomap"
  oc_stats :: object_stats
  oc_dirty :: bool
  oc_load_failed :: bool

definition new_object :: objcat where [go_eval]:
  "new_object = \<lparr>oc_entries = [],
                 oc_stats = \<lparr>os_hits = 0, os_misses = 0, os_stores = 0, os_days = []\<rparr>,
                 oc_dirty = False, oc_load_failed = False\<rparr>"

definition mark_dirty :: "objcat \<Rightarrow> objcat" where [go_eval]:
  "mark_dirty o' = o'\<lparr>oc_dirty := True\<rparr>"

section \<open>Counters\<close>

definition bump_total :: "string \<Rightarrow> object_stats \<Rightarrow> object_stats" where [go_eval]:
  "bump_total key s =
     (if key = ''hits'' then s\<lparr>os_hits := wrap64 (os_hits s + 1)\<rparr>
      else if key = ''misses'' then s\<lparr>os_misses := wrap64 (os_misses s + 1)\<rparr>
      else if key = ''stores'' then s\<lparr>os_stores := wrap64 (os_stores s + 1)\<rparr>
      else s)"

definition bump_day :: "string \<Rightarrow> day_stat \<Rightarrow> day_stat" where [go_eval]:
  "bump_day key d =
     (if key = ''hits'' then d\<lparr>ds_hits := wrap64 (ds_hits d + 1)\<rparr>
      else if key = ''misses'' then d\<lparr>ds_misses := wrap64 (ds_misses d + 1)\<rparr>
      else if key = ''stores'' then d\<lparr>ds_stores := wrap64 (ds_stores d + 1)\<rparr>
      else d)"

definition new_day :: "string \<Rightarrow> day_stat" where [go_eval]:
  "new_day day = \<lparr>ds_day = day, ds_hits = 0, ds_misses = 0, ds_stores = 0\<rparr>"

definition day_or_new :: "(string, day_stat option) gomap \<Rightarrow> string \<Rightarrow> day_stat" where [go_eval]:
  "day_or_new days day =
     (case gget days day of Some (Some d) \<Rightarrow> d | _ \<Rightarrow> new_day day)"

definition bump_locked :: "string \<Rightarrow> time \<Rightarrow> object_stats \<Rightarrow> object_stats" where [go_eval]:
  "bump_locked key at s =
     (let s' = bump_total key s; day = format_day at
      in s'\<lparr>os_days := gset (os_days s') day (Some (bump_day key (day_or_new (os_days s') day)))\<rparr>)"

section \<open>Operations\<close>

definition entry_at :: "objcat \<Rightarrow> string \<Rightarrow> entry" where [go_eval]:
  "entry_at o' h = (case gget (oc_entries o') h of None \<Rightarrow> zero_entry | Some e \<Rightarrow> e)"

text \<open>The entry \<open>UpsertEntry\<close> stores, from the one it read from the map.\<close>

definition upsert_entry :: "string \<Rightarrow> int \<Rightarrow> time \<Rightarrow> task_info \<Rightarrow> entry \<Rightarrow> entry" where [go_eval]:
  "upsert_entry h n at info e =
     (let e1 = (if en_hash e = []
                then zero_entry\<lparr>en_hash := h, en_created := at, en_accessed := at\<rparr> else e);
          e2 = e1\<lparr>en_size := n\<rparr>;
          e3 = (if is_zero (en_created e2) then e2\<lparr>en_created := at\<rparr> else e2)
      in e3\<lparr>en_task := overlay info (en_task e3)\<rparr>)"

definition obj_upsert ::
  "string \<Rightarrow> int \<Rightarrow> time \<Rightarrow> task_info \<Rightarrow> objcat \<Rightarrow> goerr option \<times> objcat" where [go_eval]:
  "obj_upsert h n at info o' =
     (None, o'\<lparr>oc_entries := gset (oc_entries o') h (upsert_entry h n at info (entry_at o' h)),
              oc_stats := bump_locked ''stores'' at (oc_stats o'),
              oc_dirty := True\<rparr>)"

definition hit_entry :: "string \<Rightarrow> time \<Rightarrow> entry \<Rightarrow> entry" where [go_eval]:
  "hit_entry h at e =
     (let e1 = (if en_hash e = [] then zero_entry\<lparr>en_hash := h, en_created := at\<rparr> else e)
      in e1\<lparr>en_hits := wrap64 (en_hits e1 + 1), en_accessed := at\<rparr>)"

definition obj_record_hit :: "string \<Rightarrow> time \<Rightarrow> objcat \<Rightarrow> goerr option \<times> objcat" where [go_eval]:
  "obj_record_hit h at o' =
     (None, o'\<lparr>oc_entries := gset (oc_entries o') h (hit_entry h at (entry_at o' h)),
              oc_stats := bump_locked ''hits'' at (oc_stats o'),
              oc_dirty := True\<rparr>)"

definition obj_record_miss :: "time \<Rightarrow> objcat \<Rightarrow> goerr option \<times> objcat" where [go_eval]:
  "obj_record_miss at o' =
     (None, o'\<lparr>oc_stats := bump_locked ''misses'' at (oc_stats o'), oc_dirty := True\<rparr>)"

text \<open>
  Newest first. \<open>sort.Slice\<close> is not stable, but the order of equal elements is already
  left open by the visiting order, so a stable sort of every visiting order gives every
  result the code can give.
\<close>

definition all_entries :: "string list \<Rightarrow> objcat \<Rightarrow> entry list" where [go_eval]:
  "all_entries ord o' = sort_key (\<lambda>e. - en_created e) (map snd (gvisit ord (oc_entries o')))"

text \<open>
  \<open>entries[offset:end]\<close> panics unless \<open>0 \<le> offset \<le> end\<close> (\<open>end\<close> is at most the length).
\<close>

definition obj_list ::
  "unicode_tables \<Rightarrow> string list \<Rightarrow> string \<Rightarrow> int \<Rightarrow> int \<Rightarrow> objcat \<Rightarrow> (entry list \<times> int) outcome"
where [go_eval]:
  "obj_list u ord query limit offset o' =
     (let q = to_lower u (trim_space query);
          es = all_entries ord o';
          es' = (if q \<noteq> [] then filter (\<lambda>e. matches_query u e q) es else es);
          total = int (length es');
          lim = (if limit \<le> 0 then 25 else limit);
          off = (if offset > total then total else offset);
          end0 = wrap64 (off + lim);
          end1 = (if end0 > total then total else end0)
      in if 0 \<le> off \<and> off \<le> end1
         then Ret (take (nat (end1 - off)) (drop (nat off) es'), total)
         else Panic)"

definition obj_list_older :: "string list \<Rightarrow> time \<Rightarrow> objcat \<Rightarrow> goerr + entry list" where [go_eval]:
  "obj_list_older ord cutoff o' = Inr (filter (\<lambda>e. en_created e < cutoff) (all_entries ord o'))"

definition obj_delete :: "string list \<Rightarrow> objcat \<Rightarrow> goerr option \<times> objcat" where [go_eval]:
  "obj_delete hs o' =
     (if hs = [] then (None, o')
      else (None, o'\<lparr>oc_entries := gdels (oc_entries o') hs, oc_dirty := True\<rparr>))"

definition stats_since :: "time \<Rightarrow> string" where [go_eval]:
  "stats_since now = format_day (time_add now (- 6 * (24 * hour)))"

definition obj_stats :: "visits \<Rightarrow> time \<Rightarrow> objcat \<Rightarrow> goerr + stats" where [go_eval]:
  "obj_stats vs now o' =
     (let es = all_entries (vs_entries vs) o'; s = oc_stats o';
          total = foldl (\<lambda>a e. wrap64 (a + en_size e)) 0 es;
          counts = foldl (\<lambda>m e. add_count (kind_or_unknown (ti_kind (en_task e))) 1 m) [] es;
          since = stats_since now;
          days = List.map_filter (\<lambda>(day, st). case st of
                     None \<Rightarrow> None
                   | Some d \<Rightarrow> if since \<le> day
                       then Some \<lparr>ds_day = day, ds_hits = ds_hits d, ds_misses = ds_misses d,
                                  ds_stores = ds_stores d\<rparr>
                       else None) (gvisit (vs_days vs) (os_days s))
      in Inr \<lparr>sa_entries = int (length es), sa_total_size = total, sa_hits = os_hits s,
              sa_misses = os_misses s, sa_stores = os_stores s,
              sa_days = sort_key ds_day days,
              sa_by_kind = kind_counts_from_map (vs_kinds vs) counts\<rparr>)"

definition obj_ensure :: "string \<Rightarrow> int \<Rightarrow> time \<Rightarrow> objcat \<Rightarrow> goerr option \<times> objcat" where [go_eval]:
  "obj_ensure h n at o' =
     (case gget (oc_entries o') h of
        Some e \<Rightarrow>
          (if en_size e = 0 \<and> n > 0
           then (None, o'\<lparr>oc_entries := gset (oc_entries o') h (e\<lparr>en_size := n\<rparr>), oc_dirty := True\<rparr>)
           else (None, o'))
      | None \<Rightarrow>
          (None, o'\<lparr>oc_entries := gset (oc_entries o') h
                       (zero_entry\<lparr>en_hash := h, en_size := n, en_created := at, en_accessed := at\<rparr>),
                    oc_dirty := True\<rparr>))"

definition obj_update_task :: "string \<Rightarrow> task_info \<Rightarrow> objcat \<Rightarrow> goerr option \<times> objcat" where [go_eval]:
  "obj_update_task h info o' =
     (case gget (oc_entries o') h of
        None \<Rightarrow> (None, o')
      | Some e \<Rightarrow>
          (None, o'\<lparr>oc_entries := gset (oc_entries o') h (e\<lparr>en_task := overlay info (en_task e)\<rparr>),
                    oc_dirty := True\<rparr>))"

definition obj_seed :: "entry \<Rightarrow> objcat \<Rightarrow> goerr option \<times> objcat" where [go_eval]:
  "obj_seed e o' = (None, o'\<lparr>oc_entries := gset (oc_entries o') (en_hash e) e, oc_dirty := True\<rparr>)"

section \<open>Well-formedness\<close>

text \<open>
  Distinct keys, every entry under its own non-empty hash, every counter an \<open>int64\<close>,
  and every total the (wrapped) sum of the days.
\<close>

definition entry_ok :: "string \<Rightarrow> entry \<Rightarrow> bool" where [go_eval]:
  "entry_ok h e \<longleftrightarrow> en_hash e = h \<and> h \<noteq> [] \<and> in64 (en_size e) \<and> in64 (en_hits e)"

definition day_sum :: "(day_stat \<Rightarrow> int) \<Rightarrow> (string, day_stat option) gomap \<Rightarrow> int" where [go_eval]:
  "day_sum f days = sum_list (map (\<lambda>(_, d). case d of None \<Rightarrow> 0 | Some x \<Rightarrow> f x) days)"

definition stats_ok :: "object_stats \<Rightarrow> bool" where [go_eval]:
  "stats_ok s \<longleftrightarrow> gwf (os_days s)
     \<and> os_hits s = wrap64 (day_sum ds_hits (os_days s))
     \<and> os_misses s = wrap64 (day_sum ds_misses (os_days s))
     \<and> os_stores s = wrap64 (day_sum ds_stores (os_days s))
     \<and> list_all (\<lambda>(day, d). case d of None \<Rightarrow> True | Some x \<Rightarrow> ds_day x = day) (os_days s)"

definition obj_inv :: "objcat \<Rightarrow> bool" where [go_eval]:
  "obj_inv o' \<longleftrightarrow> gwf (oc_entries o') \<and> list_all (\<lambda>(h, e). entry_ok h e) (oc_entries o')
     \<and> stats_ok (oc_stats o')"

section \<open>Entries\<close>

definition obj_ents :: "objcat \<Rightarrow> (string \<rightharpoonup> entry)" where
  "obj_ents o' = gget (oc_entries o')"

lemma obj_ents_ok: "obj_inv o' \<Longrightarrow> obj_ents o' h = Some e \<Longrightarrow> entry_ok h e"
  by (auto simp: obj_inv_def obj_ents_def dest: list_all_gget)

lemma day_sum_Cons [simp]:
  "day_sum f ((k, d) # m) = (case d of None \<Rightarrow> 0 | Some x \<Rightarrow> f x) + day_sum f m"
  by (simp add: day_sum_def)

lemma day_sum_Nil [simp]: "day_sum f [] = 0"
  by (simp add: day_sum_def)

lemma day_sum_gset:
  "gwf m \<Longrightarrow> day_sum f (gset m k (Some x))
     = day_sum f m + f x - (case gget m k of Some (Some d) \<Rightarrow> f d | _ \<Rightarrow> 0)"
proof (induction m)
  case Nil
  show ?case by (simp add: gset_def)
next
  case (Cons p m)
  obtain a b where p: "p = (a, b)" by force
  with Cons.prems have "gwf m" by (simp add: gwf_def)
  with Cons.IH p show ?case
    by (auto simp: gset_def split: option.splits)
qed

lemma day_sum_bump:
  assumes "gwf days" and "f (new_day day) = 0"
  shows "day_sum f (gset days day (Some x)) = day_sum f days + f x - f (day_or_new days day)"
  using assms by (auto simp: day_sum_gset day_or_new_def split: option.splits)

lemma wrap64_move: "wrap64 (wrap64 s + 1) = wrap64 (s + wrap64 (d + 1) - d)"
proof -
  have "wrap64 (s + wrap64 (d + 1) - d) = wrap64 ((s - d) + wrap64 (d + 1))"
    by (simp add: algebra_simps)
  also have "\<dots> = wrap64 (s + 1)" by (simp only: wrap64_add_right) (simp add: algebra_simps)
  finally show ?thesis by (simp add: wrap64_add_left)
qed

lemma bump_day_fields:
  "ds_hits (bump_day key d) = (if key = ''hits'' then wrap64 (ds_hits d + 1) else ds_hits d)"
  "ds_misses (bump_day key d) = (if key = ''misses'' then wrap64 (ds_misses d + 1) else ds_misses d)"
  "ds_stores (bump_day key d) = (if key = ''stores'' then wrap64 (ds_stores d + 1) else ds_stores d)"
  "ds_day (bump_day key d) = ds_day d"
  by (auto simp: bump_day_def)

lemma bump_locked_fields:
  "os_hits (bump_locked key at s) = (if key = ''hits'' then wrap64 (os_hits s + 1) else os_hits s)"
  "os_misses (bump_locked key at s) = (if key = ''misses'' then wrap64 (os_misses s + 1) else os_misses s)"
  "os_stores (bump_locked key at s) = (if key = ''stores'' then wrap64 (os_stores s + 1) else os_stores s)"
  "os_days (bump_locked key at s)
     = gset (os_days s) (format_day at) (Some (bump_day key (day_or_new (os_days s) (format_day at))))"
  by (auto simp: bump_locked_def bump_total_def Let_def)

lemma day_or_new_name:
  "list_all (\<lambda>(day, d). case d of None \<Rightarrow> True | Some x \<Rightarrow> ds_day x = day) days \<Longrightarrow>
   ds_day (day_or_new days day) = day"
  by (auto simp: day_or_new_def new_day_def dest!: list_all_gget split: option.splits)

lemma bump_locked_ok:
  assumes ok: "stats_ok s"
  shows "stats_ok (bump_locked key at s)"
proof -
  let ?d = "day_or_new (os_days s) (format_day at)"
  have wf: "gwf (os_days s)" and names: "ds_day ?d = format_day at"
    using ok by (simp_all add: stats_ok_def day_or_new_name)
  have sum: "f (new_day (format_day at)) = 0 \<Longrightarrow> day_sum f (os_days (bump_locked key at s))
      = day_sum f (os_days s) + f (bump_day key ?d) - f ?d" for f
    by (simp only: bump_locked_fields day_sum_bump [OF wf])
  have "os_hits (bump_locked key at s) = wrap64 (day_sum ds_hits (os_days (bump_locked key at s)))"
    using ok by (simp add: sum new_day_def bump_day_fields bump_locked_fields(1) stats_ok_def wrap64_move)
  moreover have "os_misses (bump_locked key at s) = wrap64 (day_sum ds_misses (os_days (bump_locked key at s)))"
    using ok by (simp add: sum new_day_def bump_day_fields bump_locked_fields(2) stats_ok_def wrap64_move)
  moreover have "os_stores (bump_locked key at s) = wrap64 (day_sum ds_stores (os_days (bump_locked key at s)))"
    using ok by (simp add: sum new_day_def bump_day_fields bump_locked_fields(3) stats_ok_def wrap64_move)
  moreover have "list_all (\<lambda>(day, d). case d of None \<Rightarrow> True | Some x \<Rightarrow> ds_day x = day)
      (os_days (bump_locked key at s))"
    unfolding bump_locked_fields using ok names
    by (intro list_all_gset) (simp_all add: stats_ok_def bump_day_fields)
  moreover have "gwf (os_days (bump_locked key at s))"
    unfolding bump_locked_fields using wf by simp
  ultimately show ?thesis by (simp only: stats_ok_def)
qed

text \<open>Storing one entry and counting one event keeps the catalog well formed.\<close>

lemma obj_inv_entry:
  assumes "obj_inv o'" and "entry_ok h e"
  shows "obj_inv (o'\<lparr>oc_entries := gset (oc_entries o') h e, oc_dirty := d\<rparr>)"
  using assms by (auto simp: obj_inv_def intro!: list_all_gset)

lemma entry_at_ents: "obj_ents o' h = Some e \<Longrightarrow> entry_at o' h = e"
  by (simp add: entry_at_def obj_ents_def)

lemma entry_at_none: "obj_ents o' h = None \<Longrightarrow> entry_at o' h = zero_entry"
  by (simp add: entry_at_def obj_ents_def)

lemma zero_entry_fields [simp]:
  "en_hash zero_entry = []" "en_size zero_entry = 0" "en_created zero_entry = 0"
  "en_hits zero_entry = 0" "en_accessed zero_entry = 0" "en_task zero_entry = empty_task"
  by (simp_all add: zero_entry_def)

lemma in64_0 [simp]: "in64 0"
  by (simp add: in64_def)

text \<open>What the two operations on one entry write.\<close>

lemma entry_at_cases:
  assumes "obj_inv o'"
  shows "obj_ents o' h = None \<and> entry_at o' h = zero_entry
       \<or> obj_ents o' h = Some (entry_at o' h) \<and> entry_ok h (entry_at o' h)"
  using obj_ents_ok [OF assms, of h] entry_at_ents [of o' h] entry_at_none [of o' h]
  by (cases "obj_ents o' h") auto

lemma upsert_entry_fields:
  "en_size (upsert_entry h n at info e) = n"
  "en_task (upsert_entry h n at info e) = overlay info (if en_hash e = [] then empty_task else en_task e)"
  "en_hits (upsert_entry h n at info e) = (if en_hash e = [] then 0 else en_hits e)"
  "en_accessed (upsert_entry h n at info e) = (if en_hash e = [] then at else en_accessed e)"
  "en_created (upsert_entry h n at info e)
     = (if en_hash e = [] \<or> en_created e = 0 then at else en_created e)"
  "en_hash (upsert_entry h n at info e) = (if en_hash e = [] then h else en_hash e)"
  by (simp_all add: upsert_entry_def Let_def is_zero_def)

lemma hit_entry_fields:
  "en_size (hit_entry h at e) = (if en_hash e = [] then 0 else en_size e)"
  "en_task (hit_entry h at e) = (if en_hash e = [] then empty_task else en_task e)"
  "en_hits (hit_entry h at e) = (if en_hash e = [] then 1 else wrap64 (en_hits e + 1))"
  "en_accessed (hit_entry h at e) = at"
  "en_created (hit_entry h at e) = (if en_hash e = [] then at else en_created e)"
  "en_hash (hit_entry h at e) = (if en_hash e = [] then h else en_hash e)"
  by (simp_all add: hit_entry_def Let_def wrap64_def)

lemma in64_small [simp]: "in64 1"
  by (simp add: in64_def)

lemma upsert_entry_ok:
  "obj_inv o' \<Longrightarrow> h \<noteq> [] \<Longrightarrow> in64 n \<Longrightarrow> entry_ok h (upsert_entry h n at info (entry_at o' h))"
  using entry_at_cases [of o' h] by (auto simp: entry_ok_def upsert_entry_fields)

lemma hit_entry_ok: "obj_inv o' \<Longrightarrow> h \<noteq> [] \<Longrightarrow> entry_ok h (hit_entry h at (entry_at o' h))"
  using entry_at_cases [of o' h] by (auto simp: entry_ok_def hit_entry_fields)

lemma obj_upsert_inv:
  "obj_inv o' \<Longrightarrow> h \<noteq> [] \<Longrightarrow> in64 n \<Longrightarrow> obj_upsert h n at info o' = (x, o1) \<Longrightarrow> obj_inv o1"
  using upsert_entry_ok [of o' h n at info]
  by (auto simp: obj_upsert_def obj_inv_def intro!: list_all_gset bump_locked_ok)

lemma obj_record_hit_inv:
  "obj_inv o' \<Longrightarrow> h \<noteq> [] \<Longrightarrow> obj_record_hit h at o' = (x, o1) \<Longrightarrow> obj_inv o1"
  using hit_entry_ok [of o' h at]
  by (auto simp: obj_record_hit_def obj_inv_def intro!: list_all_gset bump_locked_ok)

lemma obj_upsert_ents:
  "obj_upsert h n at info o' = (x, o1) \<Longrightarrow>
   obj_ents o1 = (obj_ents o')(h \<mapsto> upsert_entry h n at info (entry_at o' h))"
  by (auto simp: obj_upsert_def obj_ents_def)

lemma obj_record_hit_ents:
  "obj_record_hit h at o' = (x, o1) \<Longrightarrow>
   obj_ents o1 = (obj_ents o')(h \<mapsto> hit_entry h at (entry_at o' h))"
  by (auto simp: obj_record_hit_def obj_ents_def)

lemma set_all_entries:
  assumes "obj_inv o'" and "visit_order ord (oc_entries o')"
  shows "set (all_entries ord o') = {e. \<exists>h. obj_ents o' h = Some e}"
proof -
  have wf: "gwf (oc_entries o')" using assms(1) by (simp add: obj_inv_def)
  have "set (all_entries ord o') = snd ` set (oc_entries o')"
    by (simp add: all_entries_def set_gvisit [OF wf assms(2)])
  also have "\<dots> = {e. \<exists>h. obj_ents o' h = Some e}"
    by (force simp: obj_ents_def gwf_gget [OF wf] simp del: map_of_eq_Some_iff)
  finally show ?thesis .
qed

lemma obj_ensure_cases:
  assumes "obj_inv o'" and "h \<noteq> []" and "in64 n"
  shows "\<exists>o1. obj_ensure h n at o' = (None, o1) \<and> obj_inv o1 \<and> h \<in> dom (obj_ents o1)
     \<and> (\<forall>k. k \<noteq> h \<or> (\<exists>e. obj_ents o' k = Some e \<and> en_size e \<noteq> 0) \<longrightarrow> obj_ents o1 k = obj_ents o' k)"
proof (cases "obj_ents o' h")
  case None
  with assms show ?thesis
    by (auto simp: obj_ensure_def obj_ents_def entry_ok_def intro!: obj_inv_entry)
next
  case (Some e)
  with assms have "entry_ok h e" by (simp add: obj_ents_ok)
  with Some assms show ?thesis
    by (auto simp: obj_ensure_def obj_ents_def entry_ok_def intro!: obj_inv_entry)
qed

section \<open>The catalog provides the interface\<close>

text \<open>
  \<open>Close\<close> flushes through the backend, so it is a parameter here; the server supplies it.
\<close>

definition object_store ::
  "unicode_tables \<Rightarrow> (objcat \<Rightarrow> goerr option \<times> objcat) \<Rightarrow> objcat store" where [go_eval]:
  "object_store u close =
     \<lparr>st_upsert = obj_upsert, st_record_hit = obj_record_hit, st_record_miss = obj_record_miss,
      st_list = obj_list u, st_list_older = obj_list_older, st_delete = obj_delete,
      st_stats = obj_stats, st_ensure = obj_ensure, st_update_task = obj_update_task,
      st_seed = obj_seed, st_close = close\<rparr>"

lemma object_store_sel [simp]:
  "st_upsert (object_store u c) = obj_upsert" "st_record_hit (object_store u c) = obj_record_hit"
  "st_record_miss (object_store u c) = obj_record_miss" "st_list (object_store u c) = obj_list u"
  "st_list_older (object_store u c) = obj_list_older" "st_delete (object_store u c) = obj_delete"
  "st_stats (object_store u c) = obj_stats" "st_ensure (object_store u c) = obj_ensure"
  "st_update_task (object_store u c) = obj_update_task" "st_seed (object_store u c) = obj_seed"
  "st_close (object_store u c) = c"
  by (simp_all add: object_store_def)

interpretation obj: artifact_catalog "object_store u close" obj_ents obj_inv
  "\<lambda>ord o'. visit_order ord (oc_entries o')" "\<lambda>cutoff e. en_created e < cutoff" for u close
proof (unfold_locales, goal_cases)
  case (1 w h e)
  then show ?case using obj_ents_ok [of w h e] by (simp add: entry_ok_def)
next
  case (2 w h n at info x w')
  then show ?case using obj_upsert_inv [of w h n at info x w'] by simp
next
  case (3 w h n at info w')
  then show ?case
    using obj_upsert_ents [of h n at info w None w'] entry_at_cases [of w h]
    by (auto simp: upsert_entry_fields entry_ok_def)
next
  case (4 w h n at info x w' k)
  then show ?case using obj_upsert_ents [of h n at info w x w'] by simp
next
  case (5 w h at x w')
  then show ?case using obj_record_hit_inv [of w h at x w'] by simp
next
  case (6 w h at w' e)
  then show ?case
    using obj_record_hit_ents [of h at w None w'] entry_at_cases [of w h]
    by (auto simp: hit_entry_fields entry_ok_def)
next
  case (7 w h at x w' k)
  then show ?case using obj_record_hit_ents [of h at w x w'] by simp
next
  case (8 w at x w')
  then show ?case
    by (auto simp: obj_record_miss_def obj_inv_def obj_ents_def intro: bump_locked_ok)
next
  case (9 w ord cutoff es)
  then show ?case using set_all_entries [of w ord] by (auto simp: obj_list_older_def)
next
  case (10 w hs w')
  then show ?case
    by (auto simp: obj_delete_def obj_inv_def obj_ents_def gget_gdels_fun split: if_splits
        intro!: list_all_gdels)
next
  case (11 w hs ee w')
  then show ?case by (simp add: obj_delete_def split: if_splits)
next
  case (12 w h n at x w')
  then show ?case using obj_ensure_cases [of w h n at] by auto
next
  case (13 w h n at w')
  then show ?case using obj_ensure_cases [of w h n at] by auto
next
  case (14 w h n at x w' k)
  then show ?case using obj_ensure_cases [of w h n at] by auto
qed

section \<open>Listing\<close>

text \<open>What a query selects, newest first.\<close>

definition listing :: "unicode_tables \<Rightarrow> string list \<Rightarrow> string \<Rightarrow> objcat \<Rightarrow> entry list" where [go_eval]:
  "listing u ord query o' =
     (let q = to_lower u (trim_space query)
      in if q \<noteq> [] then filter (\<lambda>e. matches_query u e q) (all_entries ord o') else all_entries ord o')"

lemma length_all_entries:
  "obj_inv o' \<Longrightarrow> visit_order ord (oc_entries o') \<Longrightarrow> length (all_entries ord o') = length (oc_entries o')"
  by (simp add: all_entries_def length_gvisit obj_inv_def)

lemma length_listing:
  "obj_inv o' \<Longrightarrow> visit_order ord (oc_entries o') \<Longrightarrow> length (listing u ord q o') \<le> length (oc_entries o')"
  using length_all_entries [of o' ord] length_filter_le [of _ "all_entries ord o'"]
  by (auto simp: listing_def Let_def)

lemma sorted_all_entries: "sorted_wrt (\<lambda>a b. en_created b \<le> en_created a) (all_entries ord o')"
proof -
  have "sorted (map (\<lambda>e. - en_created e) (all_entries ord o'))"
    by (simp add: all_entries_def)
  then show ?thesis by (simp add: sorted_map)
qed

lemma sorted_listing: "sorted_wrt (\<lambda>a b. en_created b \<le> en_created a) (listing u ord q o')"
  using sorted_all_entries [of ord o'] by (simp add: listing_def Let_def sorted_wrt_filter)

lemma set_listing:
  "obj_inv o' \<Longrightarrow> visit_order ord (oc_entries o') \<Longrightarrow>
   set (listing u ord q o') = {e. (\<exists>h. obj_ents o' h = Some e)
     \<and> (let t = to_lower u (trim_space q) in t = [] \<or> matches_query u e t)}"
  by (auto simp: listing_def Let_def set_all_entries)

lemma distinct_all_entries:
  assumes "obj_inv o'" and "visit_order ord (oc_entries o')"
  shows "distinct (all_entries ord o')"
proof -
  have wf: "gwf (oc_entries o')" and ok: "list_all (\<lambda>(h, e). entry_ok h e) (oc_entries o')"
    using assms by (simp_all add: obj_inv_def)
  have "en_hash (snd p) = fst p" if "p \<in> set (gvisit ord (oc_entries o'))" for p
    using that ok by (auto simp: set_gvisit [OF wf assms(2)] list_all_iff entry_ok_def)
  then have "map en_hash (map snd (gvisit ord (oc_entries o'))) = map fst (gvisit ord (oc_entries o'))"
    by simp
  also have "\<dots> = ord" by (rule map_fst_gvisit [OF assms(2)])
  finally have "distinct (map en_hash (map snd (gvisit ord (oc_entries o'))))"
    using assms(2) by (simp only: visit_order_def)
  then have "distinct (map snd (gvisit ord (oc_entries o')))" by (simp only: distinct_map)
  then show ?thesis by (simp add: all_entries_def)
qed

lemma distinct_listing:
  "obj_inv o' \<Longrightarrow> visit_order ord (oc_entries o') \<Longrightarrow> distinct (listing u ord q o')"
  by (simp add: listing_def Let_def distinct_all_entries)

lemma obj_list_listing:
  "obj_list u ord q limit offset o' =
     (let es = listing u ord q o'; total = int (length es);
          lim = (if limit \<le> 0 then 25 else limit);
          off = (if offset > total then total else offset);
          end0 = wrap64 (off + lim);
          end1 = (if end0 > total then total else end0)
      in if 0 \<le> off \<and> off \<le> end1
         then Ret (take (nat (end1 - off)) (drop (nat off) es), total)
         else Panic)"
  by (simp add: obj_list_def listing_def Let_def)

lemma obj_list_Ret:
  assumes "0 \<le> offset" and "0 < limit" and "int (length (listing u ord q o')) + limit < 2 ^ 63"
  shows "obj_list u ord q limit offset o'
       = Ret (take (nat limit) (drop (nat offset) (listing u ord q o')), int (length (listing u ord q o')))"
proof (cases "int (length (listing u ord q o')) < offset")
  case True
  have "wrap64 (int (length (listing u ord q o')) + limit) = int (length (listing u ord q o')) + limit"
    using assms by (intro wrap64_id) (simp add: in64_def)
  with True assms show ?thesis by (simp add: obj_list_listing Let_def)
next
  case False
  have "wrap64 (offset + limit) = offset + limit"
    using assms False by (intro wrap64_id) (simp add: in64_def)
  with False assms show ?thesis
    by (auto simp: obj_list_listing Let_def nat_diff_distrib nat_add_distrib)
qed

lemma concat_pages:
  "length xs \<le> n * l \<Longrightarrow> concat (map (\<lambda>k. take l (drop (k * l) xs)) [0..<n]) = xs"
proof -
  have "concat (map (\<lambda>k. take l (drop (k * l) xs)) [0..<n]) = take (n * l) xs"
  proof (induction n)
    case (Suc n)
    have "take (Suc n * l) xs = take (n * l) xs @ take l (drop (n * l) xs)"
      by (metis add.commute mult_Suc take_add)
    with Suc show ?case by simp
  qed simp
  then show "length xs \<le> n * l \<Longrightarrow> ?thesis" by simp
qed


text \<open>
  \<open>List\<close> panics exactly for a negative offset: every non-negative offset, however large,
  is clamped to the total, but a negative one reaches the slice expression.
\<close>

theorem list_panics_iff:
  assumes "obj_inv o'" and "visit_order ord (oc_entries o')" and "0 < limit"
    and "int (length (oc_entries o')) + limit < 2 ^ 63"
  shows "obj_list u ord q limit offset o' = Panic \<longleftrightarrow> offset < 0"
proof
  assume "obj_list u ord q limit offset o' = Panic"
  then show "offset < 0"
    using assms length_listing [OF assms(1,2), of u q] obj_list_Ret [of offset limit u ord q o']
    by (cases "0 \<le> offset") auto
next
  assume "offset < 0"
  then show "obj_list u ord q limit offset o' = Panic"
    unfolding obj_list_listing Let_def by auto
qed

section \<open>Statistics\<close>

definition entry_kind :: "entry \<Rightarrow> string" where [go_eval]:
  "entry_kind e = kind_or_unknown (ti_kind (en_task e))"

lemma foldl_wrap_sum: "foldl (\<lambda>a e. wrap64 (a + f e)) (wrap64 a) es = wrap64 (a + sum_list (map f es))"
proof (induction es arbitrary: a)
  case (Cons e es)
  have "wrap64 (wrap64 a + f e) = wrap64 (a + f e)" by (rule wrap64_add_left)
  then show ?case using Cons [of "a + f e"] by (simp add: add.assoc)
qed simp

lemma obj_stats_fields:
  assumes "obj_stats vs now o' = Inr s"
  shows "sa_entries s = int (length (all_entries (vs_entries vs) o'))"
    and "sa_total_size s = wrap64 (sum_list (map en_size (all_entries (vs_entries vs) o')))"
    and "sa_by_kind s = kind_counts_from_map (vs_kinds vs) (tally entry_kind (all_entries (vs_entries vs) o'))"
    and "sa_hits s = os_hits (oc_stats o')" "sa_misses s = os_misses (oc_stats o')"
      "sa_stores s = os_stores (oc_stats o')"
  using assms foldl_wrap_sum [of en_size 0 "all_entries (vs_entries vs) o'"]
  by (auto simp: obj_stats_def Let_def tally_def entry_kind_def wrap64_def)

lemma sum_list_all_entries:
  fixes f :: "entry \<Rightarrow> int"
  assumes "obj_inv o'" and "visit_order ord (oc_entries o')"
  shows "sum_list (map f (all_entries ord o')) = sum_list (map (\<lambda>(_, e). f e) (oc_entries o'))"
proof -
  have m: "mset (gvisit ord (oc_entries o')) = mset (oc_entries o')"
    using assms by (intro mset_gvisit) (simp_all add: obj_inv_def)
  have "sum_list (map f (all_entries ord o')) = sum_mset (image_mset f (mset (all_entries ord o')))"
    by (simp flip: sum_mset_sum_list)
  also have "mset (all_entries ord o') = image_mset snd (mset (oc_entries o'))"
    by (simp add: all_entries_def m)
  also have "sum_mset (image_mset f (image_mset snd (mset (oc_entries o'))))
      = sum_list (map (\<lambda>(_, e). f e) (oc_entries o'))"
  proof -
    have "sum_mset (image_mset f (image_mset snd (mset m))) = sum_list (map (\<lambda>(_, e). f e) m)"
      for m :: "(string \<times> entry) list"
      by (induction m) auto
    then show ?thesis .
  qed
  finally show ?thesis .
qed

lemma stats_total_facts:
  assumes "obj_inv o'" and "visit_order (vs_entries vs) (oc_entries o')"
    and "visit_order (vs_kinds vs) (tally entry_kind (all_entries (vs_entries vs) o'))"
    and "int (length (oc_entries o')) < 2 ^ 63" and "obj_stats vs now o' = Inr s"
  shows "sa_entries s = int (length (oc_entries o'))"
    and "sa_total_size s = wrap64 (sum_list (map (\<lambda>(_, e). en_size e) (oc_entries o')))"
    and "distinct (map kc_kind (sa_by_kind s))"
    and "set (sa_by_kind s) = {kc. \<exists>h e. obj_ents o' h = Some e \<and> kc_kind kc = entry_kind e
           \<and> kc_count kc = int (card {k. \<exists>e'. obj_ents o' k = Some e' \<and> entry_kind e' = kc_kind kc})}"
proof -
  let ?es = "all_entries (vs_entries vs) o'"
  have len: "length ?es = length (oc_entries o')" by (rule length_all_entries [OF assms(1,2)])
  show "sa_entries s = int (length (oc_entries o'))"
    by (simp add: obj_stats_fields [OF assms(5)] len)
  show "sa_total_size s = wrap64 (sum_list (map (\<lambda>(_, e). en_size e) (oc_entries o')))"
    by (simp add: obj_stats_fields [OF assms(5)] sum_list_all_entries [OF assms(1,2)])
  have cnt: "count_of (tally entry_kind ?es) k = int (length (filter (\<lambda>e. entry_kind e = k) ?es))" for k
    using assms(4) by (intro count_tally) (simp add: len)
  note spec = kind_counts_spec [OF gwf_tally assms(3)]
  show "distinct (map kc_kind (sa_by_kind s))"
    unfolding obj_stats_fields(3) [OF assms(5)] by (rule spec) (simp add: cnt)
  have inj: "e = e'" if "e \<in> set ?es" "e' \<in> set ?es" "en_hash e = en_hash e'" for e e'
    using that obj_ents_ok [OF assms(1)] by (auto simp: set_all_entries [OF assms(1,2)] entry_ok_def)
  have card: "length (filter (\<lambda>e. entry_kind e = k) ?es)
      = card {h. \<exists>e. obj_ents o' h = Some e \<and> entry_kind e = k}" for k
  proof -
    have "length (filter (\<lambda>e. entry_kind e = k) ?es) = card (set (filter (\<lambda>e. entry_kind e = k) ?es))"
      using distinct_all_entries [OF assms(1,2)] by (simp only: distinct_card distinct_filter)
    also have "\<dots> = card (en_hash ` set (filter (\<lambda>e. entry_kind e = k) ?es))"
      by (rule card_image [symmetric]) (auto simp: inj_on_def intro: inj)
    also have "en_hash ` set (filter (\<lambda>e. entry_kind e = k) ?es)
        = {h. \<exists>e. obj_ents o' h = Some e \<and> entry_kind e = k}"
      using obj_ents_ok [OF assms(1)]
      by (force simp: set_all_entries [OF assms(1,2)] entry_ok_def image_iff)
    finally show ?thesis .
  qed
  have pos: "card {h. \<exists>e. obj_ents o' h = Some e \<and> entry_kind e = k} \<noteq> 0
      \<longleftrightarrow> (\<exists>h e. obj_ents o' h = Some e \<and> k = entry_kind e)" for k
    unfolding card [symmetric] using set_all_entries [OF assms(1,2)]
    by (auto simp: filter_empty_conv)
  show "set (sa_by_kind s) = {kc. \<exists>h e. obj_ents o' h = Some e \<and> kc_kind kc = entry_kind e
           \<and> kc_count kc = int (card {k. \<exists>e'. obj_ents o' k = Some e' \<and> entry_kind e' = kc_kind kc})}"
  proof -
    have "set (sa_by_kind s) = {kc. count_of (tally entry_kind ?es) (kc_kind kc) \<noteq> 0
        \<and> kc_count kc = count_of (tally entry_kind ?es) (kc_kind kc)}"
      unfolding obj_stats_fields(3) [OF assms(5)] by (rule spec) (simp add: cnt)
    also have "\<dots> = {kc. (\<exists>h e. obj_ents o' h = Some e \<and> kc_kind kc = entry_kind e)
        \<and> kc_count kc = int (card {k. \<exists>e'. obj_ents o' k = Some e' \<and> entry_kind e' = kc_kind kc})}"
      unfolding cnt card by (simp only: of_nat_eq_0_iff pos)
    finally show ?thesis by auto
  qed
qed

text \<open>
  The dashboard totals. For any visiting orders the runtime picks, \<open>Stats\<close> reports the
  number of entries, the sum of their sizes (modulo 64 bits) and, for every kind present,
  exactly once, the number of entries of that kind; entries without a kind are counted as
  \<open>unknown\<close>.
\<close>

theorem stats_totals:
  assumes "obj_inv o'" and "visit_order (vs_entries vs) (oc_entries o')"
    and "visit_order (vs_kinds vs) (tally entry_kind (all_entries (vs_entries vs) o'))"
    and "int (length (oc_entries o')) < 2 ^ 63" and "obj_stats vs now o' = Inr s"
  shows "sa_entries s = int (length (oc_entries o'))
    \<and> sa_total_size s = wrap64 (sum_list (map (\<lambda>(_, e). en_size e) (oc_entries o')))
    \<and> distinct (map kc_kind (sa_by_kind s))
    \<and> set (sa_by_kind s) = {kc. \<exists>h e. obj_ents o' h = Some e \<and> kc_kind kc = entry_kind e
           \<and> kc_count kc = int (card {k. \<exists>e'. obj_ents o' k = Some e' \<and> entry_kind e' = kc_kind kc})}"
  using stats_total_facts [OF assms] by blast

section \<open>The window of days\<close>

definition window :: "string \<Rightarrow> (string \<times> day_stat option) list \<Rightarrow> day_stat list" where [go_eval]:
  "window since ds = List.map_filter (\<lambda>(day, st). case st of
     None \<Rightarrow> None
   | Some d \<Rightarrow> if since \<le> day
       then Some \<lparr>ds_day = day, ds_hits = ds_hits d, ds_misses = ds_misses d, ds_stores = ds_stores d\<rparr>
       else None) ds"

lemma window_simps:
  "window since [] = []"
  "window since ((day, None) # ds) = window since ds"
  "window since ((day, Some d) # ds) = (if since \<le> day then [d\<lparr>ds_day := day\<rparr>] else []) @ window since ds"
  by (simp_all add: window_def List.map_filter_def)

lemma window_mem: "(\<exists>st. (day, Some st) \<in> set ds \<and> since \<le> day \<and> d = st\<lparr>ds_day := day\<rparr>)
   \<longleftrightarrow> d \<in> set (window since ds) \<and> ds_day d = day"
proof (induction ds)
  case (Cons p ds)
  then show ?case by (cases p; cases "snd p") (auto simp: window_simps)
qed (simp add: window_simps)

lemma window_names: "distinct (map fst ds) \<Longrightarrow> distinct (map ds_day (window since ds))"
proof (induction ds)
  case (Cons p ds)
  have "a \<notin> ds_day ` set (window since ds)" if "a \<notin> fst ` set ds" for a
    using that window_mem [of a ds since] by (force simp: image_iff)
  with Cons show ?case by (cases p; cases "snd p") (auto simp: window_simps)
qed (simp add: window_simps)

lemma stats_days_window:
  "obj_stats vs now o' = Inr s \<Longrightarrow>
   sa_days s = sort_key ds_day (window (stats_since now) (gvisit (vs_days vs) (os_days (oc_stats o'))))"
  by (auto simp: obj_stats_def Let_def window_def)

lemma sorted_stats_days: "obj_stats vs now o' = Inr s \<Longrightarrow> sorted (map ds_day (sa_days s))"
  by (simp add: stats_days_window)

lemma distinct_stats_days:
  assumes "obj_inv o'" and "visit_order (vs_days vs) (os_days (oc_stats o'))"
    and "obj_stats vs now o' = Inr s"
  shows "distinct (map ds_day (sa_days s))"
  unfolding stats_days_window [OF assms(3)] distinct_map_sort
  using map_fst_gvisit [OF assms(2)] assms(2) by (intro window_names) (simp add: visit_order_def)

lemma recorded_day_name:
  "obj_inv o' \<Longrightarrow> gget (os_days (oc_stats o')) day = Some (Some x) \<Longrightarrow> ds_day x = day"
  by (auto simp: obj_inv_def stats_ok_def dest!: list_all_gget)

lemma stats_days_iff:
  assumes "obj_inv o'" and "visit_order (vs_days vs) (os_days (oc_stats o'))"
    and "obj_stats vs now o' = Inr s"
  shows "d \<in> set (sa_days s)
     \<longleftrightarrow> gget (os_days (oc_stats o')) (ds_day d) = Some (Some d) \<and> stats_since now \<le> ds_day d"
proof -
  let ?days = "os_days (oc_stats o')"
  have wf: "gwf ?days" using assms(1) by (simp add: obj_inv_def stats_ok_def)
  have mem: "(day, st) \<in> set (gvisit (vs_days vs) ?days) \<longleftrightarrow> gget ?days day = Some st" for day st
    by (simp add: set_gvisit [OF wf assms(2)] gwf_gget [OF wf] del: map_of_eq_Some_iff)
  have "d \<in> set (sa_days s) \<longleftrightarrow> d \<in> set (window (stats_since now) (gvisit (vs_days vs) ?days)) \<and> ds_day d = ds_day d"
    by (simp add: stats_days_window [OF assms(3)])
  also have "\<dots> \<longleftrightarrow> (\<exists>st. gget ?days (ds_day d) = Some (Some st) \<and> stats_since now \<le> ds_day d
      \<and> d = st\<lparr>ds_day := ds_day d\<rparr>)"
    by (simp only: window_mem [symmetric] mem)
  also have "\<dots> \<longleftrightarrow> gget ?days (ds_day d) = Some (Some d) \<and> stats_since now \<le> ds_day d"
  proof -
    have "st = d" if "gget ?days (ds_day d) = Some (Some st)" "d = st\<lparr>ds_day := ds_day d\<rparr>" for st
      using recorded_day_name [OF assms(1) that(1)] that(2) by (cases st; cases d) simp
    moreover have "d = d\<lparr>ds_day := ds_day d\<rparr>" by simp
    ultimately show ?thesis by auto
  qed
  finally show ?thesis .
qed

lemma stats_window_facts:
  assumes "obj_inv o'" and "visit_order (vs_days vs) (os_days (oc_stats o'))"
    and "obj_stats vs now o' = Inr s"
    and "6 \<le> day_number now" and "day_number now < days_to_10000"
  shows "sorted_wrt (<) (map ds_day (sa_days s))"
    and "0 \<le> day_number t \<Longrightarrow> day_number t < days_to_10000 \<Longrightarrow>
         d \<in> set (sa_days s) \<and> ds_day d = format_day t
         \<longleftrightarrow> gget (os_days (oc_stats o')) (format_day t) = Some (Some d)
             \<and> day_number now - 6 \<le> day_number t"
proof -
  show "sorted_wrt (<) (map ds_day (sa_days s))"
    using distinct_stats_days [OF assms(1-3)] sorted_stats_days [OF assms(3)]
    by (simp only: strict_sorted_iff)
  assume t: "0 \<le> day_number t" "day_number t < days_to_10000"
  have "day_number (time_add now (- 6 * (24 * hour))) = day_number now - 6"
    by (simp add: day_number_def time_add_def)
  then have "stats_since now \<le> format_day t \<longleftrightarrow> day_number now - 6 \<le> day_number t"
    using assms(4,5) t unfolding stats_since_def by (subst format_day_le_iff) auto
  then show "d \<in> set (sa_days s) \<and> ds_day d = format_day t
         \<longleftrightarrow> gget (os_days (oc_stats o')) (format_day t) = Some (Some d)
             \<and> day_number now - 6 \<le> day_number t"
    unfolding stats_days_iff [OF assms(1-3)]
    using recorded_day_name [OF assms(1), of "format_day t" d] by auto
qed

text \<open>
  The seven-day window. The days \<open>Stats\<close> reports are sorted and distinct; the day of an
  instant is reported, with exactly the counters stored for it, if and only if it is recorded
  and lies no more than six calendar days before the current one (the comparison the code
  makes on the formatted dates is the order of the days, for the years 1 to 9999).
\<close>

theorem stats_window:
  assumes "obj_inv o'" and "visit_order (vs_days vs) (os_days (oc_stats o'))"
    and "obj_stats vs now o' = Inr s"
    and "6 \<le> day_number now" and "day_number now < days_to_10000"
  shows "sorted_wrt (<) (map ds_day (sa_days s))
    \<and> (\<forall>d t. 0 \<le> day_number t \<and> day_number t < days_to_10000 \<longrightarrow>
         (d \<in> set (sa_days s) \<and> ds_day d = format_day t
          \<longleftrightarrow> gget (os_days (oc_stats o')) (format_day t) = Some (Some d)
              \<and> day_number now - 6 \<le> day_number t))"
  using stats_window_facts [OF assms] by blast

section \<open>Concrete instances\<close>

text \<open>One artifact stored and read once on 4 March 2025, and a miss three days later.\<close>

definition march_4 :: time where [go_eval]: "march_4 = of_unix 1741082400"

definition example_task :: task_info where [go_eval]:
  "example_task = \<lparr>ti_project = ''web'', ti_target = ''build'', ti_config = [], ti_kind = ''build''\<rparr>"

definition example_catalog :: objcat where [go_eval]:
  "example_catalog =
     snd (obj_record_miss (march_4 + 72 * hour)
       (snd (obj_record_hit ''a1'' (march_4 + second)
         (snd (obj_upsert ''a1'' 10 march_4 example_task new_object)))))"

definition example_visits :: visits where [go_eval]:
  "example_visits = \<lparr>vs_entries = [''a1''], vs_kinds = [''build''], vs_days = [''2025-03-07'', ''2025-03-04'']\<rparr>"

lemma example_entries:
  "oc_entries example_catalog
     = [(''a1'', \<lparr>en_hash = ''a1'', en_size = 10, en_created = march_4, en_accessed = march_4 + second,
                en_hits = 1, en_task = example_task\<rparr>)]"
  by (simp add: go_eval)

lemma example_stats:
  "oc_stats example_catalog
     = \<lparr>os_hits = 1, os_misses = 1, os_stores = 1,
        os_days = [(''2025-03-04'', Some \<lparr>ds_day = ''2025-03-04'', ds_hits = 1, ds_misses = 0, ds_stores = 1\<rparr>),
                   (''2025-03-07'', Some \<lparr>ds_day = ''2025-03-07'', ds_hits = 0, ds_misses = 1, ds_stores = 0\<rparr>)]\<rparr>"
  by (simp add: go_eval)

lemma example_inv: "obj_inv example_catalog"
  by (simp add: obj_inv_def example_entries example_stats) (simp add: go_eval)

lemma example_order: "visit_order [''a1''] (oc_entries example_catalog)"
  by (simp add: example_entries visit_order_def)

lemma example_day_order:
  "visit_order [''2025-03-07'', ''2025-03-04''] (os_days (oc_stats example_catalog))"
  by (simp add: example_stats visit_order_def insert_commute)

lemma example_tally: "tally entry_kind (all_entries [''a1''] example_catalog) = [(''build'', 1)]"
  by (simp add: all_entries_def example_entries) (simp add: go_eval)


theorem list_panics_iff_witness: "obj_list ascii_tables [''a1''] [] 25 (- 25) example_catalog = Panic"
  using list_panics_iff [OF example_inv example_order, of 25 ascii_tables "[]" "- 25"]
  by (simp add: example_entries)

definition example_report :: stats where [go_eval]:
  "example_report =
     (case obj_stats example_visits (march_4 + 96 * hour) example_catalog of Inr s \<Rightarrow> s)"

lemma example_report: "obj_stats example_visits (march_4 + 96 * hour) example_catalog = Inr example_report"
  by (simp add: example_report_def obj_stats_def Let_def)

theorem stats_totals_witness:
  "sa_entries example_report = 1 \<and> sa_total_size example_report = 10
   \<and> (\<exists>n. set (sa_by_kind example_report) = {\<lparr>kc_kind = ''build'', kc_count = n\<rparr>})"
proof -
  have os: "visit_order (vs_entries example_visits) (oc_entries example_catalog)"
    "visit_order (vs_kinds example_visits)
       (tally entry_kind (all_entries (vs_entries example_visits) example_catalog))"
    using example_order example_tally by (simp_all add: example_visits_def visit_order_def)
  have small: "int (length (oc_entries example_catalog)) < 2 ^ 63" by (simp add: example_entries)
  have st: "sa_entries example_report = int (length (oc_entries example_catalog))
    \<and> sa_total_size example_report = wrap64 (sum_list (map (\<lambda>(_, e). en_size e) (oc_entries example_catalog)))
    \<and> set (sa_by_kind example_report) = {kc. \<exists>h e. obj_ents example_catalog h = Some e
      \<and> kc_kind kc = entry_kind e
      \<and> kc_count kc = int (card {k. \<exists>e'. obj_ents example_catalog k = Some e' \<and> entry_kind e' = kc_kind kc})}"
    using stats_totals [OF example_inv os small example_report] by blast
  from st have sts: "set (sa_by_kind example_report) = {kc. \<exists>h e. obj_ents example_catalog h = Some e
      \<and> kc_kind kc = entry_kind e
      \<and> kc_count kc = int (card {k. \<exists>e'. obj_ents example_catalog k = Some e' \<and> entry_kind e' = kc_kind kc})}"
    by simp
  have kind: "obj_ents example_catalog k = Some e \<longleftrightarrow> k = ''a1'' \<and> e = snd (hd (oc_entries example_catalog))"
    for k e by (auto simp: obj_ents_def example_entries)
  have "set (sa_by_kind example_report) = {\<lparr>kc_kind = ''build'', kc_count = int (card {''a1''})\<rparr>}"
    unfolding sts kind by (auto simp: example_entries entry_kind_def kind_or_unknown_def example_task_def intro!: arg_cong [of _ _ card])
  then show ?thesis using st by (simp add: example_entries wrap64_def)
qed

theorem stats_window_witness:
  "\<exists>d. d \<in> set (sa_days example_report) \<and> ds_day d = ''2025-03-04'' \<and> ds_hits d = 1"
proof -
  have o': "visit_order (vs_days example_visits) (os_days (oc_stats example_catalog))"
    using example_day_order by (simp add: example_visits_def)
  have days: "day_number march_4 = 739313" "day_number (march_4 + 345600000000000) = 739317"
    "format_day march_4 = ''2025-03-04''"
    by (simp_all add: go_eval)
  let ?d = "\<lparr>ds_day = ''2025-03-04'', ds_hits = 1, ds_misses = 0, ds_stores = 1\<rparr>"
  have "?d \<in> set (sa_days example_report) \<and> ds_day ?d = format_day march_4"
    using stats_window [OF example_inv o' example_report, THEN conjunct2, THEN spec [of _ ?d], THEN spec [of _ march_4]]
    by (simp add: days days_to_10000_def example_stats)
  then show ?thesis using days by (intro exI [of _ ?d]) simp
qed

end
