(* ===== verification/Snapshot.thy ===== *)
theory Snapshot
  imports Object_Store Storage
begin

text \<open>
  \<open>internal/store/object.go\<close>, the snapshot protocol: \<open>Load\<close> at start-up, \<open>Flush\<close> on a
  ticker and on \<open>Close\<close>. \<open>Flush\<close> holds \<open>flushMu\<close> throughout but the mutex of the catalog
  only while it copies it, so catalog operations and artifact traffic may run between its
  three critical sections: a step relation interleaves them. JSON is a parameter.
\<close>

section \<open>Snapshots\<close>

text \<open>A nil map of the decoded snapshot is \<open>None\<close>.\<close>

record snapshot =
  sn_hits :: int
  sn_misses :: int
  sn_stores :: int
  sn_days :: "(string, day_stat option) gomap option"
  sn_entries :: "(string, entry) gomap option"

record codec =
  js_marshal :: "snapshot \<Rightarrow> goerr + string"
  js_unmarshal :: "string \<Rightarrow> goerr + snapshot"

definition catalog_meta_key :: string where [go_eval]: "catalog_meta_key = ''catalog.json''"

definition clone_locked :: "objcat \<Rightarrow> snapshot" where [go_eval]:
  "clone_locked o' =
     \<lparr>sn_hits = os_hits (oc_stats o'), sn_misses = os_misses (oc_stats o'),
      sn_stores = os_stores (oc_stats o'),
      sn_days = Some (filter (\<lambda>(k, v). v \<noteq> None) (os_days (oc_stats o'))),
      sn_entries = Some (oc_entries o')\<rparr>"

text \<open>What \<open>Load\<close> does with a decoded snapshot.\<close>

definition restore :: "snapshot \<Rightarrow> objcat \<Rightarrow> objcat" where [go_eval]:
  "restore snap o' =
     \<lparr>oc_entries = (case sn_entries snap of None \<Rightarrow> oc_entries o' | Some m \<Rightarrow> m),
      oc_stats = \<lparr>os_hits = sn_hits snap, os_misses = sn_misses snap, os_stores = sn_stores snap,
                  os_days = (case sn_days snap of None \<Rightarrow> [] | Some m \<Rightarrow> m)\<rparr>,
      oc_dirty = False, oc_load_failed = False\<rparr>"

definition obj_load ::
  "'w backend \<Rightarrow> codec \<Rightarrow> objcat \<Rightarrow> 'w \<Rightarrow> goerr option \<times> objcat \<times> 'w" where [go_eval]:
  "obj_load be js o' w =
     (case be_get_meta be catalog_meta_key w of
        (Inl e, w') \<Rightarrow>
          if e = ErrNotFound then (None, o'\<lparr>oc_load_failed := False\<rparr>, w')
          else (Some e, o'\<lparr>oc_load_failed := True\<rparr>, w')
      | (Inr data, w') \<Rightarrow>
          (case js_unmarshal js data of
             Inl e \<Rightarrow> (Some e, o'\<lparr>oc_load_failed := True\<rparr>, w')
           | Inr snap \<Rightarrow> (None, restore snap o', w')))"

text \<open>The critical sections of \<open>Flush\<close>: copying, writing without the lock, and the outcome.\<close>

definition flush_begin :: "objcat \<Rightarrow> (goerr option + snapshot) \<times> objcat" where [go_eval]:
  "flush_begin o' =
     (if oc_load_failed o' then (Inl (Some ErrCatalogLoadFailed), o')
      else if \<not> oc_dirty o' then (Inl None, o')
      else (Inr (clone_locked o'), o'\<lparr>oc_dirty := False\<rparr>))"

definition flush_write ::
  "'w backend \<Rightarrow> codec \<Rightarrow> snapshot \<Rightarrow> 'w \<Rightarrow> goerr option \<times> 'w" where [go_eval]:
  "flush_write be js snap w =
     (case js_marshal js snap of
        Inl e \<Rightarrow> (Some e, w)
      | Inr data \<Rightarrow> be_put_meta be catalog_meta_key data w)"

definition flush_end :: "goerr option \<Rightarrow> objcat \<Rightarrow> objcat" where [go_eval]:
  "flush_end err o' = (if err = None then o' else mark_dirty o')"

text \<open>\<open>Flush\<close> with nothing in between, as \<open>Close\<close> runs it.\<close>

definition obj_flush ::
  "'w backend \<Rightarrow> codec \<Rightarrow> objcat \<Rightarrow> 'w \<Rightarrow> goerr option \<times> objcat \<times> 'w" where [go_eval]:
  "obj_flush be js o' w =
     (case flush_begin o' of
        (Inl err, o1) \<Rightarrow> (err, o1, w)
      | (Inr snap, o1) \<Rightarrow>
          (case flush_write be js snap w of (err, w') \<Rightarrow> (err, flush_end err o1, w')))"

definition obj_close ::
  "'w backend \<Rightarrow> codec \<Rightarrow> objcat \<Rightarrow> 'w \<Rightarrow> goerr option \<times> objcat \<times> 'w" where [go_eval]:
  "obj_close be js o' w = obj_flush be js o' w"

text \<open>The ticker only exists for a positive interval.\<close>

definition flusher_runs :: "duration \<Rightarrow> bool" where [go_eval]:
  "flusher_runs every \<longleftrightarrow> \<not> every \<le> 0"

section \<open>The catalog among concurrent requests\<close>

datatype cat_op =
    Op_Upsert string int time task_info
  | Op_Hit string time
  | Op_Miss time
  | Op_Delete "string list"
  | Op_Ensure string int time
  | Op_Update string task_info
  | Op_Seed entry

fun obj_op :: "cat_op \<Rightarrow> objcat \<Rightarrow> goerr option \<times> objcat" where
  "obj_op (Op_Upsert h n at info) o' = obj_upsert h n at info o'"
| "obj_op (Op_Hit h at) o' = obj_record_hit h at o'"
| "obj_op (Op_Miss at) o' = obj_record_miss at o'"
| "obj_op (Op_Delete hs) o' = obj_delete hs o'"
| "obj_op (Op_Ensure h n at) o' = obj_ensure h n at o'"
| "obj_op (Op_Update h info) o' = obj_update_task h info o'"
| "obj_op (Op_Seed e) o' = obj_seed e o'"

datatype flush_phase = Idle | Writing snapshot | Written "goerr option"

record 'w catalog_sys =
  cs_cat :: objcat
  cs_world :: 'w
  cs_flush :: flush_phase

inductive cat_step :: "'w backend \<Rightarrow> codec \<Rightarrow> 'w catalog_sys \<Rightarrow> 'w catalog_sys \<Rightarrow> bool"
  for be :: "'w backend" and js :: codec
where
  operate: "obj_op op (cs_cat s) = (x, o1) \<Longrightarrow> cat_step be js s (s\<lparr>cs_cat := o1\<rparr>)"
| upload: "be_put be h r n now (cs_world s) = (x, c, w1) \<Longrightarrow> cat_step be js s (s\<lparr>cs_world := w1\<rparr>)"
| remove: "be_delete be hs (cs_world s) = (x, w1) \<Longrightarrow> cat_step be js s (s\<lparr>cs_world := w1\<rparr>)"
| begins: "cs_flush s = Idle \<Longrightarrow> flush_begin (cs_cat s) = (Inr snap, o1) \<Longrightarrow>
    cat_step be js s (s\<lparr>cs_cat := o1, cs_flush := Writing snap\<rparr>)"
| writes: "cs_flush s = Writing snap \<Longrightarrow> flush_write be js snap (cs_world s) = (err, w1) \<Longrightarrow>
    cat_step be js s (s\<lparr>cs_world := w1, cs_flush := Written err\<rparr>)"
| ends: "cs_flush s = Written err \<Longrightarrow>
    cat_step be js s (s\<lparr>cs_cat := flush_end err (cs_cat s), cs_flush := Idle\<rparr>)"

inductive_cases cat_stepE: "cat_step be js s s'"

lemma obj_flush_steps:
  assumes "obj_flush be js o' w = (err, o1, w1)"
  shows "rtranclp (cat_step be js) \<lparr>cs_cat = o', cs_world = w, cs_flush = Idle\<rparr>
           \<lparr>cs_cat = o1, cs_world = w1, cs_flush = Idle\<rparr>"
proof (cases "flush_begin o'")
  case (Pair b o2)
  show ?thesis
  proof (cases b)
    case (Inl e)
    with Pair assms show ?thesis by (auto simp: obj_flush_def flush_begin_def split: if_splits)
  next
    case (Inr snap)
    with Pair assms have w: "flush_write be js snap w = (err, w1)" and o1: "o1 = flush_end err o2"
      by (auto simp: obj_flush_def split: prod.splits)
    let ?s = "\<lparr>cs_cat = o', cs_world = w, cs_flush = Idle\<rparr>"
    have "cat_step be js ?s (?s\<lparr>cs_cat := o2, cs_flush := Writing snap\<rparr>)" (is "cat_step be js ?s ?s1")
      using Pair Inr by (intro begins) simp_all
    moreover have "cat_step be js ?s1 (?s1\<lparr>cs_world := w1, cs_flush := Written err\<rparr>)"
        (is "cat_step be js ?s1 ?s2")
      using w by (intro writes) simp_all
    moreover have "cat_step be js ?s2 (?s2\<lparr>cs_cat := flush_end err (cs_cat ?s2), cs_flush := Idle\<rparr>)"
      by (intro ends) simp
    ultimately show ?thesis using o1
      by (auto intro: converse_rtranclp_into_rtranclp)
  qed
qed

section \<open>What the snapshot stands for\<close>

text \<open>Two snapshots are the same when their maps are, in whatever order they are written.\<close>

definition snap_view :: "snapshot \<Rightarrow> _" where
  "snap_view s = (sn_hits s, sn_misses s, sn_stores s, map_option map_of (sn_days s),
                  map_option map_of (sn_entries s))"

definition snap_wf :: "snapshot \<Rightarrow> bool" where [go_eval]:
  "snap_wf s \<longleftrightarrow> (case sn_days s of None \<Rightarrow> True | Some m \<Rightarrow> gwf m)
     \<and> (case sn_entries s of None \<Rightarrow> True | Some m \<Rightarrow> gwf m)"

definition valid_utf8 :: "string \<Rightarrow> bool" where [go_eval]:
  "valid_utf8 s \<longleftrightarrow> list_all (\<lambda>(r, b). \<not> (r = rune_error \<and> length b = 1)) (chunks s)"

text \<open>The texts of a snapshot; JSON replaces the bytes that are not valid UTF-8.\<close>

definition entry_texts :: "entry \<Rightarrow> string list" where [go_eval]:
  "entry_texts e = [en_hash e, ti_project (en_task e), ti_target (en_task e), ti_config (en_task e),
                    ti_kind (en_task e)]"

definition snap_texts_ok :: "snapshot \<Rightarrow> bool" where [go_eval]:
  "snap_texts_ok s \<longleftrightarrow> (case sn_entries s of None \<Rightarrow> True
     | Some m \<Rightarrow> list_all (\<lambda>(k, e). valid_utf8 k \<and> list_all valid_utf8 (entry_texts e)) m)"

text \<open>
  What the code relies on: decoding gives Go maps, and what was encoded from valid texts is
  read back.
\<close>

definition codec_ok :: "codec \<Rightarrow> bool" where
  "codec_ok js \<longleftrightarrow> (\<forall>d s. js_unmarshal js d = Inr s \<longrightarrow> snap_wf s)
     \<and> (\<forall>s d. snap_wf s \<longrightarrow> snap_texts_ok s \<longrightarrow> js_marshal js s = Inr d \<longrightarrow>
           (\<exists>s'. js_unmarshal js d = Inr s' \<and> snap_view s' = snap_view s))"

text \<open>
  The backend holds a snapshot when every fresh catalog that loads without error has it.
\<close>

definition durable :: "'w backend \<Rightarrow> codec \<Rightarrow> 'w \<Rightarrow> snapshot \<Rightarrow> bool" where
  "durable be js w s \<longleftrightarrow> (\<forall>o1 w1. obj_load be js new_object w = (None, o1, w1) \<longrightarrow>
     snap_view (clone_locked o1) = snap_view s)"

lemma clone_wf: "gwf (os_days (oc_stats o')) \<Longrightarrow> gwf (oc_entries o') \<Longrightarrow> snap_wf (clone_locked o')"
  by (simp add: snap_wf_def clone_locked_def gwf_def distinct_map_filter)

lemma map_of_filter_some:
  "gwf m \<Longrightarrow> map_of (filter (\<lambda>(k, v). v \<noteq> None) m) k = (case map_of m k of Some None \<Rightarrow> None | x \<Rightarrow> x)"
proof (induction m)
  case (Cons p m)
  then show ?case by (cases p) (auto simp: gwf_def map_of_eq_None_iff split: option.splits)
qed simp

text \<open>Restoring a snapshot that was taken from a catalog gives a catalog with that snapshot.\<close>

lemma clone_restore:
  assumes "snap_wf s'" and "snap_view s' = snap_view (clone_locked o')" and "gwf (os_days (oc_stats o'))"
  shows "snap_view (clone_locked (restore s' o2)) = snap_view (clone_locked o')"
proof -
  obtain d e where s': "sn_days s' = Some d" "sn_entries s' = Some e"
    using assms(2) by (auto simp: snap_view_def clone_locked_def)
  have d: "map_of d = map_of (filter (\<lambda>(k, v). v \<noteq> None) (os_days (oc_stats o')))" and wf: "gwf d"
    using assms(1,2) s' by (auto simp: snap_view_def clone_locked_def snap_wf_def)
  have "map_of (filter (\<lambda>(k, v). v \<noteq> None) d) = map_of d"
  proof
    fix k
    show "map_of (filter (\<lambda>(k, v). v \<noteq> None) d) k = map_of d k"
      unfolding map_of_filter_some [OF wf] unfolding d map_of_filter_some [OF assms(3)]
      by (auto split: option.splits)
  qed
  then show ?thesis using assms(2) s'
    by (simp add: snap_view_def clone_locked_def restore_def)
qed


section \<open>Catalog operations and the dirty flag\<close>

definition cat_wf :: "objcat \<Rightarrow> bool" where [go_eval]:
  "cat_wf o' \<longleftrightarrow> gwf (os_days (oc_stats o')) \<and> gwf (oc_entries o')"

lemma obj_op_dirty:
  "obj_op op o' = (x, o1) \<Longrightarrow> oc_load_failed o1 = oc_load_failed o' \<and> (oc_dirty o1 \<or> o1 = o')"
  by (cases op) (auto simp: obj_upsert_def obj_record_hit_def obj_record_miss_def obj_delete_def
      obj_ensure_def obj_update_task_def obj_seed_def split: if_splits option.splits)

lemma obj_op_wf: "obj_op op o' = (x, o1) \<Longrightarrow> cat_wf o' \<Longrightarrow> cat_wf o1"
  by (cases op) (auto simp: cat_wf_def obj_upsert_def obj_record_hit_def obj_record_miss_def
      obj_delete_def obj_ensure_def obj_update_task_def obj_seed_def bump_locked_fields
      split: if_splits option.splits)

lemma clone_dirty [simp]: "clone_locked (o'\<lparr>oc_dirty := b\<rparr>) = clone_locked o'"
  by (simp add: clone_locked_def)

lemma mark_dirty_simps [simp]:
  "oc_dirty (mark_dirty o')" "oc_load_failed (mark_dirty o') = oc_load_failed o'"
  "cat_wf (mark_dirty o') = cat_wf o'"
  by (simp_all add: mark_dirty_def cat_wf_def)

lemma flush_begin_cases:
  "flush_begin o' = (Inr snap, o1) \<Longrightarrow> \<not> oc_load_failed o' \<and> oc_dirty o' \<and> snap = clone_locked o'
     \<and> o1 = o'\<lparr>oc_dirty := False\<rparr>"
  by (auto simp: flush_begin_def split: if_splits)

text \<open>The snapshot the backend holds, read off its metadata.\<close>

definition held :: "codec \<Rightarrow> string option \<Rightarrow> snapshot \<Rightarrow> bool" where
  "held js m s \<longleftrightarrow> (case m of
       None \<Rightarrow> snap_view (clone_locked new_object) = snap_view s
     | Some d \<Rightarrow> \<exists>s'. js_unmarshal js d = Inr s'
                   \<and> snap_view (clone_locked (restore s' new_object)) = snap_view s)"

context meta_backend
begin

lemma held_durable: "inv w \<Longrightarrow> held js (meta w catalog_meta_key) s \<Longrightarrow> durable be js w s"
  unfolding durable_def
proof (intro allI impI, goal_cases)
  case (1 o1 w1)
  then consider w' where "be_get_meta be catalog_meta_key w = (Inl ErrNotFound, w')"
      "o1 = new_object\<lparr>oc_load_failed := False\<rparr>"
    | w' d s' where "be_get_meta be catalog_meta_key w = (Inr d, w')" "js_unmarshal js d = Inr s'"
      "o1 = restore s' new_object"
    by (auto simp: obj_load_def split: prod.splits sum.splits if_splits)
  then show ?case
  proof cases
    case 1
    then show ?thesis
      using get_meta_not_found [OF \<open>inv w\<close>, of catalog_meta_key w'] \<open>held js _ s\<close>
      by (simp add: held_def clone_locked_def)
  next
    case 2
    then show ?thesis
      using get_meta_ok [OF \<open>inv w\<close>, of catalog_meta_key d w'] \<open>held js _ s\<close>
      by (simp add: held_def)
  qed
qed

lemma written_held:
  assumes "codec_ok js" and "inv w" and "flush_write be js snap w = (None, w1)"
    and "snap = clone_locked o'" and "cat_wf o'" and "snap_texts_ok snap"
  shows "held js (meta w1 catalog_meta_key) snap"
proof -
  obtain d where d: "js_marshal js snap = Inr d" "be_put_meta be catalog_meta_key d w = (None, w1)"
    using assms(3) by (auto simp: flush_write_def split: sum.splits)
  have "snap_wf snap" using assms(4,5) by (simp add: cat_wf_def clone_wf)
  with assms(1,6) d(1) obtain s' where s': "js_unmarshal js d = Inr s'" "snap_view s' = snap_view snap"
      "snap_wf s'"
    unfolding codec_ok_def by blast
  have "snap_view (clone_locked (restore s' new_object)) = snap_view snap"
    using clone_restore [OF s'(3), of o' new_object] s'(2) assms(4,5) by (simp add: cat_wf_def)
  with s'(1) put_meta_ok [OF assms(2) d(2)] show ?thesis
    by (auto simp: held_def)
qed

lemma flush_write_frame: "inv w \<Longrightarrow> flush_write be js snap w = (e, w1) \<Longrightarrow> inv w1 \<and> arts w1 = arts w"
  by (auto simp: flush_write_def split: sum.splits dest: put_meta_frame)

text \<open>
  The invariant of the protocol: while the catalog is not dirty, what it holds is in the
  backend, or is being written.
\<close>

definition flush_inv :: "codec \<Rightarrow> 'w catalog_sys \<Rightarrow> bool" where
  "flush_inv js s \<longleftrightarrow> inv (cs_world s) \<and> cat_wf (cs_cat s) \<and> \<not> oc_load_failed (cs_cat s)
     \<and> (let m = meta (cs_world s) catalog_meta_key; c = clone_locked (cs_cat s);
            safe = oc_dirty (cs_cat s) \<or> (snap_texts_ok c \<longrightarrow> held js m c)
        in case cs_flush s of
             Idle \<Rightarrow> safe
           | Writing snap \<Rightarrow> (\<exists>o'. snap = clone_locked o' \<and> cat_wf o')
                            \<and> (oc_dirty (cs_cat s) \<or> c = snap)
           | Written err \<Rightarrow> err \<noteq> None \<or> safe)"

lemma flush_inv_step:
  assumes "codec_ok js" and "cat_step be js s s'" and "flush_inv js s"
  shows "flush_inv js s'"
  using assms(2)
proof cases
  case (operate op x o1)
  then show ?thesis
    using assms(3) obj_op_dirty [of op "cs_cat s" x o1] obj_op_wf [of op "cs_cat s" x o1]
    by (auto simp: flush_inv_def Let_def split: flush_phase.splits)
next
  case (upload h r n now x c w1)
  then show ?thesis
    using assms(3) put_meta_keeps [of "cs_world s" h r n now x c w1]
      put_inv [of "cs_world s" h r n now x c w1]
    by (auto simp: flush_inv_def Let_def split: flush_phase.splits)
next
  case (remove hs x w1)
  then show ?thesis
    using assms(3) delete_meta_keeps [of "cs_world s" hs x w1] delete_inv [of "cs_world s" hs x w1]
    by (auto simp: flush_inv_def Let_def split: flush_phase.splits)
next
  case (begins snap o1)
  then show ?thesis
    using assms(3) flush_begin_cases [of "cs_cat s" snap o1]
    by (auto simp: flush_inv_def Let_def cat_wf_def)
next
  case (writes snap err w1)
  then show ?thesis
    using assms(3) flush_write_frame [of "cs_world s" js snap err w1]
      written_held [OF assms(1), of "cs_world s" snap w1]
    by (auto simp: flush_inv_def Let_def)
next
  case (ends err)
  then show ?thesis
    using assms(3) by (auto simp: flush_inv_def Let_def flush_end_def)
qed

lemma flush_inv_steps:
  assumes "codec_ok js" and "rtranclp (cat_step be js) s s'" and "flush_inv js s"
  shows "flush_inv js s'"
  using assms(2,3) by (induction rule: rtranclp_induct) (auto intro: flush_inv_step [OF assms(1)])

lemma flush_inv_load:
  assumes "codec_ok js" and "inv w" and "obj_load be js new_object w = (None, o1, w1)"
  shows "flush_inv js \<lparr>cs_cat = o1, cs_world = w1, cs_flush = Idle\<rparr>"
proof -
  obtain b w' where g: "be_get_meta be catalog_meta_key w = (b, w')" by force
  note frame = get_meta_frame [OF assms(2) g]
  show ?thesis
  proof (cases b)
    case (Inl e)
    with g assms(3) have "e = ErrNotFound" "w1 = w'" "o1 = new_object\<lparr>oc_load_failed := False\<rparr>"
      by (auto simp: obj_load_def split: if_splits)
    with g Inl get_meta_not_found [OF assms(2)] frame show ?thesis
      by (auto simp: flush_inv_def held_def new_object_def cat_wf_def clone_locked_def)
  next
    case (Inr d)
    with g assms(3) obtain snap where s: "js_unmarshal js d = Inr snap" "w1 = w'" "o1 = restore snap new_object"
      by (auto simp: obj_load_def split: sum.splits)
    then have "snap_wf snap" using assms(1) by (auto simp: codec_ok_def)
    then have "cat_wf o1"
      by (auto simp: s(3) restore_def cat_wf_def snap_wf_def new_object_def split: option.splits)
    moreover have "\<not> oc_load_failed o1" by (simp add: s(3) restore_def)
    moreover have "held js (meta w' catalog_meta_key) (clone_locked o1)"
      using g Inr get_meta_ok [OF assms(2)] frame s by (auto simp: held_def)
    ultimately show ?thesis using frame s(2) by (simp add: flush_inv_def)
  qed
qed

lemma clean_is_durable:
  assumes "codec_ok js" and "inv w" and "obj_load be js new_object w = (None, o1, w1)"
    and "rtranclp (cat_step be js) \<lparr>cs_cat = o1, cs_world = w1, cs_flush = Idle\<rparr> s"
    and "cs_flush s = Idle" and "\<not> oc_dirty (cs_cat s)" and "snap_texts_ok (clone_locked (cs_cat s))"
  shows "durable be js (cs_world s) (clone_locked (cs_cat s))"
proof -
  have "flush_inv js s"
    by (rule flush_inv_steps [OF assms(1,4) flush_inv_load [OF assms(1-3)]])
  with assms(5-7) show ?thesis
    by (auto simp: flush_inv_def Let_def intro: held_durable)
qed

text \<open>After a failed load the metadata is never written.\<close>

lemma failed_load_steps:
  assumes "rtranclp (cat_step be js) s s'" and "oc_load_failed (cs_cat s)" and "cs_flush s = Idle"
    and "inv (cs_world s)"
  shows "oc_load_failed (cs_cat s') \<and> cs_flush s' = Idle \<and> inv (cs_world s')
    \<and> meta (cs_world s') = meta (cs_world s)"
  using assms
proof (induction rule: rtranclp_induct)
  case base
  then show ?case by simp
next
  case (step s1 s2)
  then have IH: "oc_load_failed (cs_cat s1)" "cs_flush s1 = Idle" "inv (cs_world s1)"
    "meta (cs_world s1) = meta (cs_world s)" by simp_all
  from step(2) show ?case
  proof cases
    case (operate op x o1)
    with IH obj_op_dirty [of op "cs_cat s1" x o1] show ?thesis by simp
  next
    case (upload h r n now x c w1)
    with IH put_meta_keeps [of "cs_world s1" h r n now x c w1] put_inv [of "cs_world s1" h r n now x c w1]
    show ?thesis by simp
  next
    case (remove hs x w1)
    with IH delete_meta_keeps [of "cs_world s1" hs x w1] delete_inv [of "cs_world s1" hs x w1]
    show ?thesis by simp
  qed (use IH in \<open>auto dest: flush_begin_cases\<close>)
qed

end


section \<open>The snapshot protocol\<close>

text \<open>
  C8: no update is lost. Start from any backend, load the catalog without error, and let
  catalog operations, uploads, deletions and the three sections of \<open>Flush\<close> interleave in
  any way. Whenever no flush is in progress and the catalog is not dirty, a restarted server
  that loads successfully gets exactly the entries, counters and days of this one (for
  texts that are valid UTF-8).
\<close>

theorem clean_catalog_is_durable:
  assumes "meta_backend be arts ok ord_ok meta" and "codec_ok js" and "ok w"
    and "obj_load be js new_object w = (None, o1, w1)"
    and "rtranclp (cat_step be js) \<lparr>cs_cat = o1, cs_world = w1, cs_flush = Idle\<rparr> s"
    and "cs_flush s = Idle" and "\<not> oc_dirty (cs_cat s)" and "snap_texts_ok (clone_locked (cs_cat s))"
  shows "durable be js (cs_world s) (clone_locked (cs_cat s))"
  by (rule meta_backend.clean_is_durable [OF assms])

text \<open>
  C18: a failed load is never overwritten. After \<open>Load\<close> reports an error, no interleaving of
  catalog operations, artifact traffic and flushes changes the metadata of the backend, and
  every \<open>Flush\<close> is refused with \<open>ErrCatalogLoadFailed\<close>.
\<close>

theorem failed_load_never_overwrites:
  assumes "meta_backend be arts ok ord_ok meta" and "ok w"
    and "obj_load be js o' w = (Some e, o1, w1)"
    and "rtranclp (cat_step be js) \<lparr>cs_cat = o1, cs_world = w1, cs_flush = Idle\<rparr> s"
  shows "meta (cs_world s) = meta w
    \<and> obj_flush be js (cs_cat s) (cs_world s) = (Some ErrCatalogLoadFailed, cs_cat s, cs_world s)"
proof -
  obtain b where g: "be_get_meta be catalog_meta_key w = (b, w1)" and f: "oc_load_failed o1"
    using assms(3) by (auto simp: obj_load_def split: prod.splits sum.splits if_splits)
  note frame = meta_backend.get_meta_frame [OF assms(1,2) g]
  have "oc_load_failed (cs_cat s) \<and> cs_flush s = Idle \<and> ok (cs_world s) \<and> meta (cs_world s) = meta w1"
    using meta_backend.failed_load_steps [OF assms(1,4)] f frame by simp
  then show ?thesis using frame by (simp add: obj_flush_def flush_begin_def)
qed

text \<open>
  C21: the outcomes of \<open>Flush\<close>. It never changes entries or counters; it is refused after a
  failed load; otherwise the catalog is dirty afterwards exactly when an error is reported,
  so that a failed write is retried, and success on a dirty catalog means that its snapshot
  was encoded and written.
\<close>

theorem flush_outcome:
  assumes "obj_flush be js o' w = (err, o1, w1)"
  shows "oc_entries o1 = oc_entries o' \<and> oc_stats o1 = oc_stats o' \<and> oc_load_failed o1 = oc_load_failed o'
    \<and> (oc_load_failed o' \<longrightarrow> err = Some ErrCatalogLoadFailed \<and> o1 = o' \<and> w1 = w)
    \<and> (\<not> oc_load_failed o' \<longrightarrow> (oc_dirty o1 \<longleftrightarrow> err \<noteq> None))
    \<and> (\<not> oc_load_failed o' \<and> oc_dirty o' \<and> err = None \<longrightarrow>
         (\<exists>d. js_marshal js (clone_locked o') = Inr d
            \<and> be_put_meta be catalog_meta_key d w = (None, w1)))"
  using assms
  by (auto simp: obj_flush_def flush_begin_def flush_write_def flush_end_def mark_dirty_def
      split: if_splits prod.splits sum.splits)

section \<open>Concrete instances\<close>

text \<open>A codec that knows one document, the snapshot of the example catalog.\<close>

definition example_codec :: codec where [go_eval]:
  "example_codec =
     \<lparr>js_marshal = (\<lambda>s. if s = clone_locked example_catalog then Inr ''{}'' else Inl (OtherErr ''json'')),
      js_unmarshal = (\<lambda>d. if d = ''{}'' then Inr (clone_locked example_catalog) else Inl (OtherErr ''json''))\<rparr>"

lemma example_cat_wf: "cat_wf example_catalog"
  using example_inv by (simp add: obj_inv_def stats_ok_def cat_wf_def)

lemma example_codec_ok: "codec_ok example_codec"
  using example_cat_wf
  by (auto simp: codec_ok_def example_codec_def cat_wf_def intro: clone_wf)

lemma example_not_failed: "oc_dirty example_catalog" "\<not> oc_load_failed example_catalog"
  by (simp_all add: go_eval)

lemma example_load:
  "obj_load memory_backend example_codec new_object new_memory = (None, new_object, new_memory)"
  by (simp add: obj_load_def memory_backend_def mem_get_meta_def new_memory_def new_object_def)

lemma mem_meta_backend:
  "meta_backend memory_backend mem_arts mem_inv (\<lambda>ord m. visit_order ord (mem_objects m)) mem_metas"
  by unfold_locales

lemma new_memory_inv: "mem_inv new_memory"
  by (simp add: new_memory_def mem_inv_def)

text \<open>The memory after the example catalog was flushed.\<close>

definition flushed_memory :: memory where
  "flushed_memory = new_memory\<lparr>mem_meta := gset [] catalog_meta_key ''{}''\<rparr>"

lemma example_flush:
  "obj_flush memory_backend example_codec example_catalog new_memory
     = (None, example_catalog\<lparr>oc_dirty := False\<rparr>, flushed_memory)"
  using example_not_failed
  by (simp add: obj_flush_def flush_begin_def flush_write_def flush_end_def example_codec_def
      memory_backend_def mem_put_meta_def flushed_memory_def new_memory_def)

lemma example_run:
  "rtranclp (cat_step memory_backend example_codec)
     \<lparr>cs_cat = new_object, cs_world = new_memory, cs_flush = Idle\<rparr>
     \<lparr>cs_cat = example_catalog\<lparr>oc_dirty := False\<rparr>, cs_world = flushed_memory, cs_flush = Idle\<rparr>"
proof -
  let ?s = "\<lambda>c. \<lparr>cs_cat = c, cs_world = new_memory, cs_flush = Idle\<rparr>"
  have step: "cat_step memory_backend example_codec (?s c) (?s (snd (obj_op op c)))" for op c
    using operate [of op "?s c" "fst (obj_op op c)" "snd (obj_op op c)"] by simp
  have eq: "example_catalog = snd (obj_op (Op_Miss (march_4 + 72 * hour))
      (snd (obj_op (Op_Hit ''a1'' (march_4 + second))
        (snd (obj_op (Op_Upsert ''a1'' 10 march_4 example_task) new_object)))))"
    by (simp add: example_catalog_def)
  define c1 where "c1 = snd (obj_op (Op_Upsert ''a1'' 10 march_4 example_task) new_object)"
  define c2 where "c2 = snd (obj_op (Op_Hit ''a1'' (march_4 + second)) c1)"
  have s1: "cat_step memory_backend example_codec (?s new_object) (?s c1)"
    unfolding c1_def by (rule step)
  have s2: "cat_step memory_backend example_codec (?s c1) (?s c2)"
    unfolding c2_def by (rule step)
  have s3: "cat_step memory_backend example_codec (?s c2) (?s example_catalog)"
    unfolding eq c2_def c1_def by (rule step)
  from s1 have "rtranclp (cat_step memory_backend example_codec) (?s new_object) (?s c1)" ..
  from rtranclp.rtrancl_into_rtrancl [OF rtranclp.rtrancl_into_rtrancl [OF this s2] s3]
  have "rtranclp (cat_step memory_backend example_codec) (?s new_object) (?s example_catalog)" .
  from this obj_flush_steps [OF example_flush] show ?thesis by (rule rtranclp_trans)
qed

theorem clean_catalog_is_durable_witness:
  "durable memory_backend example_codec flushed_memory (clone_locked example_catalog)"
proof -
  have "snap_texts_ok (clone_locked example_catalog)"
    by (simp add: snap_texts_ok_def clone_locked_def example_entries entry_texts_def example_task_def)
       (simp add: go_eval)
  with clean_catalog_is_durable [OF mem_meta_backend example_codec_ok new_memory_inv example_load example_run]
  show ?thesis by simp
qed

theorem failed_load_never_overwrites_witness:
  "mem_metas (snd (mem_put_meta catalog_meta_key ''['' new_memory)) catalog_meta_key = Some ''[''
   \<and> obj_load memory_backend example_codec new_object (snd (mem_put_meta catalog_meta_key ''['' new_memory))
       = (Some (OtherErr ''json''), new_object\<lparr>oc_load_failed := True\<rparr>,
          snd (mem_put_meta catalog_meta_key ''['' new_memory))
   \<and> obj_flush memory_backend example_codec (snd (obj_record_miss march_4 (new_object\<lparr>oc_load_failed := True\<rparr>)))
       (snd (mem_put_meta catalog_meta_key ''['' new_memory))
       = (Some ErrCatalogLoadFailed, snd (obj_record_miss march_4 (new_object\<lparr>oc_load_failed := True\<rparr>)),
          snd (mem_put_meta catalog_meta_key ''['' new_memory))"
proof -
  let ?w = "snd (mem_put_meta catalog_meta_key ''['' new_memory)"
  let ?o = "new_object\<lparr>oc_load_failed := True\<rparr>"
  have w: "?w = new_memory\<lparr>mem_meta := gset [] catalog_meta_key ''[''\<rparr>"
    by (simp add: mem_put_meta_def new_memory_def)
  have inv: "mem_inv ?w" unfolding w by (simp add: mem_inv_def new_memory_def)
  have load: "obj_load memory_backend example_codec new_object ?w = (Some (OtherErr ''json''), ?o, ?w)"
    by (simp add: w obj_load_def memory_backend_def mem_get_meta_def example_codec_def)
  have "cat_step memory_backend example_codec \<lparr>cs_cat = ?o, cs_world = ?w, cs_flush = Idle\<rparr>
      \<lparr>cs_cat = snd (obj_record_miss march_4 ?o), cs_world = ?w, cs_flush = Idle\<rparr>"
    using operate [of "Op_Miss march_4" "\<lparr>cs_cat = ?o, cs_world = ?w, cs_flush = Idle\<rparr>"
      "fst (obj_record_miss march_4 ?o)" "snd (obj_record_miss march_4 ?o)"] by simp
  then have "rtranclp (cat_step memory_backend example_codec) \<lparr>cs_cat = ?o, cs_world = ?w, cs_flush = Idle\<rparr>
      \<lparr>cs_cat = snd (obj_record_miss march_4 ?o), cs_world = ?w, cs_flush = Idle\<rparr>" by (rule r_into_rtranclp)
  from failed_load_never_overwrites [OF mem_meta_backend inv load this] load show ?thesis
    by (simp add: w mem_metas_def)
qed

theorem flush_outcome_witness: "mem_metas flushed_memory catalog_meta_key = Some ''{}''
   \<and> (\<exists>d. js_marshal example_codec (clone_locked example_catalog) = Inr d)"
  using flush_outcome [OF example_flush] example_not_failed
  by (auto simp: flushed_memory_def mem_metas_def)

end
