(* ===== verification/Go_Http.thy ===== *)
theory Go_Http
  imports Go_Strings
begin

text \<open>
  The parts of \<open>net/http\<close> the handlers use: a request as the library hands it over (path,
  query, form and cookies already parsed), and the response writer, whose status is fixed by
  the first \<open>WriteHeader\<close> or write.
\<close>

section \<open>Headers and requests\<close>

text \<open>Header names appear in their canonical spelling; \<open>Get\<close> reads the first value.\<close>

type_synonym header = "(string, string list) gomap"

definition header_get :: "header \<Rightarrow> string \<Rightarrow> string" where [go_eval]:
  "header_get h k = (case gget h k of Some (v # _) \<Rightarrow> v | _ \<Rightarrow> [])"

definition header_set :: "header \<Rightarrow> string \<Rightarrow> string \<Rightarrow> header" where [go_eval]:
  "header_set h k v = gset h k [v]"

text \<open>
  \<open>rq_hash\<close> is the path parameter of the router; \<open>rq_form\<close> is what \<open>ParseForm\<close> gives (the
  body parameters before those of the query); \<open>rq_deadline\<close> is the deadline of the context.
\<close>

record request =
  rq_method :: string
  rq_path :: string
  rq_hash :: string
  rq_header :: header
  rq_query :: header
  rq_form :: "goerr + header"
  rq_cookies :: "(string \<times> string) list"
  rq_remote :: string
  rq_tls :: bool
  rq_body :: reader
  rq_deadline :: "time option"

definition get_request :: "string \<Rightarrow> request" where [go_eval]:
  "get_request path =
     \<lparr>rq_method = ''GET'', rq_path = path, rq_hash = [], rq_header = [], rq_query = [],
      rq_form = Inr [], rq_cookies = [], rq_remote = ''192.0.2.1:1234'', rq_tls = False,
      rq_body = \<lparr>rd_data = [], rd_err = None\<rparr>, rq_deadline = None\<rparr>"

definition header_value :: "request \<Rightarrow> string \<Rightarrow> string" where [go_eval]:
  "header_value r k = header_get (rq_header r) k"

definition query_get :: "request \<Rightarrow> string \<Rightarrow> string" where [go_eval]:
  "query_get r k = header_get (rq_query r) k"

text \<open>\<open>FormValue\<close> ignores the error of \<open>ParseForm\<close>; the values parsed so far are not used here.\<close>

definition form_value :: "request \<Rightarrow> string \<Rightarrow> string" where [go_eval]:
  "form_value r k = (case rq_form r of Inl _ \<Rightarrow> [] | Inr f \<Rightarrow> header_get f k)"

definition request_cookie :: "request \<Rightarrow> string \<Rightarrow> string option" where [go_eval]:
  "request_cookie r name = map_of (rq_cookies r) name"

section \<open>Responses\<close>

record writer =
  wr_header :: header
  wr_status :: "int option"
  wr_body :: string

definition new_writer :: writer where [go_eval]:
  "new_writer = \<lparr>wr_header = [], wr_status = None, wr_body = []\<rparr>"

definition set_header :: "string \<Rightarrow> string \<Rightarrow> writer \<Rightarrow> writer" where [go_eval]:
  "set_header k v w = w\<lparr>wr_header := header_set (wr_header w) k v\<rparr>"

definition write_header :: "int \<Rightarrow> writer \<Rightarrow> writer" where [go_eval]:
  "write_header code w = (case wr_status w of None \<Rightarrow> w\<lparr>wr_status := Some code\<rparr> | Some _ \<Rightarrow> w)"

definition write_body :: "string \<Rightarrow> writer \<Rightarrow> writer" where [go_eval]:
  "write_body s w = (let w' = write_header 200 w in w'\<lparr>wr_body := wr_body w' @ s\<rparr>)"

text \<open>The status the client sees: 200 for a handler that writes nothing.\<close>

definition status :: "writer \<Rightarrow> int" where [go_eval]:
  "status w = (case wr_status w of None \<Rightarrow> 200 | Some c \<Rightarrow> c)"

definition newline :: char where [go_eval]: "newline = byte 10"

definition http_error :: "string \<Rightarrow> int \<Rightarrow> writer \<Rightarrow> writer" where [go_eval]:
  "http_error msg code w =
     write_body (msg @ [newline])
       (write_header code
         (set_header ''X-Content-Type-Options'' ''nosniff''
           (set_header ''Content-Type'' ''text/plain; charset=utf-8''
             (w\<lparr>wr_header := gdel (wr_header w) ''Content-Length''\<rparr>))))"

text \<open>
  \<open>http.Redirect\<close> to a rooted, clean URL; the short body a GET request gets is not modelled.
\<close>

definition http_redirect :: "string \<Rightarrow> int \<Rightarrow> writer \<Rightarrow> writer" where [go_eval]:
  "http_redirect url code w = write_header code (set_header ''Location'' url w)"

lemma status_write_body [simp]: "status (write_body s w) = status w"
  by (simp add: status_def write_body_def write_header_def Let_def split: option.splits)

lemma status_set_header [simp]: "status (set_header k v w) = status w"
  by (simp add: status_def set_header_def)

lemma status_write_header [simp]: "wr_status w = None \<Longrightarrow> status (write_header c w) = c"
  by (simp add: status_def write_header_def)

lemma wr_status_simps [simp]:
  "wr_status (set_header k v w) = wr_status w"
  "wr_status new_writer = None"
  "wr_body new_writer = []"
  "wr_header new_writer = []"
  by (simp_all add: set_header_def new_writer_def)

lemma status_http_error [simp]: "wr_status w = None \<Longrightarrow> status (http_error m c w) = c"
  by (simp add: http_error_def)

lemma status_http_redirect [simp]: "wr_status w = None \<Longrightarrow> status (http_redirect u c w) = c"
  by (simp add: http_redirect_def)

lemma body_http_error: "wr_body w = [] \<Longrightarrow> wr_body (http_error m c w) = m @ [newline]"
  by (simp add: http_error_def write_body_def write_header_def set_header_def Let_def split: option.splits)

lemma header_get_set [simp]:
  "header_get (header_set h k v) j = (if j = k then v else header_get h j)"
  by (simp add: header_get_def header_set_def)

lemma wr_header_simps [simp]:
  "wr_header (write_header c w) = wr_header w"
  "wr_header (write_body s w) = wr_header w"
  "wr_header (set_header k v w) = header_set (wr_header w) k v"
  by (simp_all add: write_header_def write_body_def set_header_def Let_def split: option.splits)

end
