(* ===== verification/Longpoll.thy ===== *)
theory Longpoll
  imports Go_Http "HOL-Library.Word"
begin

text \<open>
  \<open>internal/longpoll/longpoll.go\<close>: the hub that counts changes of the application state and
  wakes the standing requests. The version is a 64-bit word. A waiting request owns a channel
  with one buffer slot, registered in \<open>subscribers\<close>; its sections under the lock interleave
  with notifications, so the protocol is a step relation. Formatting and parsing HTTP dates
  is a parameter.
\<close>

section \<open>State\<close>

record hub_state =
  hs_version :: "64 word"
  hs_modified :: time
  hs_etag :: string

text \<open>\<open>hb_subs\<close> maps the channel of every subscriber to whether its buffer slot is full.\<close>

record hub =
  hb_version :: "64 word"
  hb_updated :: time
  hb_subs :: "(nat, bool) gomap"
  hb_closed :: bool

record http_dates =
  hd_format :: "time \<Rightarrow> string"
  hd_parse :: "string \<Rightarrow> time option"

definition new_hub :: "time \<Rightarrow> hub" where [go_eval]:
  "new_hub now = \<lparr>hb_version = 1, hb_updated = truncate_sec now, hb_subs = [], hb_closed = False\<rparr>"

text \<open>A send that does not block: the slot is full afterwards, whether it was or not.\<close>

definition broadcast :: "(nat, bool) gomap \<Rightarrow> (nat, bool) gomap" where [go_eval]:
  "broadcast subs = map (\<lambda>(ch, _). (ch, True)) subs"

definition hub_notify :: "time \<Rightarrow> hub \<Rightarrow> hub" where [go_eval]:
  "hub_notify now h =
     (if hb_closed h then h
      else let t = truncate_sec now
           in h\<lparr>hb_version := hb_version h + 1,
                hb_updated := (if t > hb_updated h then t else hb_updated h),
                hb_subs := broadcast (hb_subs h)\<rparr>)"

definition format_etag :: "64 word \<Rightarrow> time \<Rightarrow> string" where [go_eval]:
  "format_etag v t = CHR 0x22 # nat_str (unat v) @ ''-'' @ int_str (unix t) @ [CHR 0x22]"

definition hub_snapshot :: "hub \<Rightarrow> hub_state" where [go_eval]:
  "hub_snapshot h =
     \<lparr>hs_version = hb_version h, hs_modified = hb_updated h,
      hs_etag = format_etag (hb_version h) (hb_updated h)\<rparr>"

definition etag_matches :: "string \<Rightarrow> string \<Rightarrow> bool" where [go_eval]:
  "etag_matches client server =
     (let c = trim_space client in
      if c = ''*'' then True
      else let st = trim_prefix (trim_space server) ''W/''
           in list_ex (\<lambda>part. trim_prefix (trim_space part) ''W/'' = st) (split_at (CHR '','') c))"

definition is_fresh :: "http_dates \<Rightarrow> request \<Rightarrow> hub_state \<Rightarrow> bool" where [go_eval]:
  "is_fresh ht r st =
     (let inm = header_value r ''If-None-Match''; ims = header_value r ''If-Modified-Since'' in
      if inm = [] \<and> ims = [] then False
      else if inm \<noteq> [] then etag_matches inm (hs_etag st)
      else case hd_parse ht ims of
             None \<Rightarrow> False
           | Some t \<Rightarrow> \<not> hs_modified st > t)"

definition hub_close :: "hub \<Rightarrow> hub" where [go_eval]:
  "hub_close h = (if hb_closed h then h
                  else h\<lparr>hb_closed := True, hb_subs := broadcast (hb_subs h)\<rparr>)"

definition subscriber_count :: "hub \<Rightarrow> nat" where [go_eval]:
  "subscriber_count h = length (hb_subs h)"

definition set_cache_headers :: "http_dates \<Rightarrow> hub_state \<Rightarrow> writer \<Rightarrow> writer" where [go_eval]:
  "set_cache_headers ht st w =
     set_header ''Last-Modified'' (hd_format ht (hs_modified st))
       (set_header ''ETag'' (hs_etag st) (set_header ''Cache-Control'' ''no-cache'' w))"

section \<open>Waiting\<close>

definition effective_timeout :: "duration \<Rightarrow> time option \<Rightarrow> time \<Rightarrow> duration" where [go_eval]:
  "effective_timeout timeout deadline now =
     (case deadline of
        None \<Rightarrow> timeout
      | Some d \<Rightarrow>
          let remaining = wrap64 (time_sub d now - 100 * millisecond)
          in if remaining > 0 \<and> remaining < timeout then remaining else timeout)"

text \<open>
  Where a call of \<open>WaitOrModified\<close> stands: in the \<open>select\<close>; with its signal received; with its
  result, before the deferred \<open>delete\<close>; or returned.
\<close>

datatype wait_phase =
    Waiting hub_state
  | Signalled
  | Leaving bool hub_state "goerr option"
  | Returned bool hub_state "goerr option"

definition wait_start :: "http_dates \<Rightarrow> request \<Rightarrow> nat \<Rightarrow> hub \<Rightarrow> wait_phase \<times> hub" where [go_eval]:
  "wait_start ht r ch h =
     (let st = hub_snapshot h in
      if \<not> is_fresh ht r st then (Returned True st None, h)
      else (Waiting st, h\<lparr>hb_subs := gset (hb_subs h) ch False\<rparr>))"

definition unsubscribe :: "nat \<Rightarrow> hub \<Rightarrow> hub" where [go_eval]:
  "unsubscribe ch h = h\<lparr>hb_subs := gdel (hb_subs h) ch\<rparr>"

record poll_sys =
  ps_hub :: hub
  ps_waits :: "nat \<rightharpoonup> wait_phase"

inductive poll_step :: "http_dates \<Rightarrow> poll_sys \<Rightarrow> poll_sys \<Rightarrow> bool" for ht :: http_dates where
  notifies: "poll_step ht s (s\<lparr>ps_hub := hub_notify now (ps_hub s)\<rparr>)"
| closes: "poll_step ht s (s\<lparr>ps_hub := hub_close (ps_hub s)\<rparr>)"
| arrives: "ps_waits s ch = None \<Longrightarrow> wait_start ht r ch (ps_hub s) = (p, h') \<Longrightarrow>
    poll_step ht s (s\<lparr>ps_hub := h', ps_waits := (ps_waits s)(ch \<mapsto> p)\<rparr>)"
| receives: "ps_waits s ch = Some (Waiting st) \<Longrightarrow> gget (hb_subs (ps_hub s)) ch = Some True \<Longrightarrow>
    poll_step ht s (s\<lparr>ps_hub := (ps_hub s)\<lparr>hb_subs := gset (hb_subs (ps_hub s)) ch False\<rparr>,
                      ps_waits := (ps_waits s)(ch \<mapsto> Signalled)\<rparr>)"
| reads: "ps_waits s ch = Some Signalled \<Longrightarrow>
    poll_step ht s (s\<lparr>ps_waits := (ps_waits s)(ch \<mapsto> Leaving True (hub_snapshot (ps_hub s)) None)\<rparr>)"
| expires: "ps_waits s ch = Some (Waiting st) \<Longrightarrow>
    poll_step ht s (s\<lparr>ps_waits := (ps_waits s)(ch \<mapsto> Leaving False st None)\<rparr>)"
| cancelled: "ps_waits s ch = Some (Waiting st) \<Longrightarrow>
    poll_step ht s (s\<lparr>ps_waits := (ps_waits s)(ch \<mapsto> Leaving False st (Some e))\<rparr>)"
| returns: "ps_waits s ch = Some (Leaving b st e) \<Longrightarrow>
    poll_step ht s (s\<lparr>ps_hub := unsubscribe ch (ps_hub s),
                      ps_waits := (ps_waits s)(ch \<mapsto> Returned b st e)\<rparr>)"

definition poll_init :: "time \<Rightarrow> poll_sys" where [go_eval]:
  "poll_init now = \<lparr>ps_hub = new_hub now, ps_waits = Map.empty\<rparr>"

section \<open>Entity tags\<close>

lemma etag_inj: "format_etag v t = format_etag v' t' \<Longrightarrow> v = v'"
proof -
  assume "format_etag v t = format_etag v' t'"
  then have "nat_str (unat v) @ CHR ''-'' # (int_str (unix t) @ [CHR 0x22])
      = nat_str (unat v') @ CHR ''-'' # (int_str (unix t') @ [CHR 0x22])"
    by (simp add: format_etag_def)
  moreover have "CHR ''-'' \<notin> set (nat_str (unat v))" "CHR ''-'' \<notin> set (nat_str (unat v'))"
    by (simp_all add: nat_str_not_in is_digit_def in_range_def bval_def)
  ultimately have "nat_str (unat v) = nat_str (unat v')" by (auto simp: sep_inj)
  then have "unat v = unat v'" by (rule nat_str_inj)
  then show "v = v'" by (simp only: word_unat_eq_iff)
qed

lemma etag_text:
  "is_ascii (format_etag v t)" "trim_space (format_etag v t) = format_etag v t"
  "trim_prefix (format_etag v t) ''W/'' = format_etag v t" "format_etag v t \<noteq> ''*''"
  "CHR '','' \<notin> set (format_etag v t)" "format_etag v t \<noteq> []"
proof -
  show a: "is_ascii (format_etag v t)"
    by (simp add: format_etag_def bval_def)
  show "trim_space (format_etag v t) = format_etag v t"
    using a by (rule trim_space_id) (simp_all add: format_etag_def bval_def is_space_rune_def)
  show "trim_prefix (format_etag v t) ''W/'' = format_etag v t"
    by (simp add: trim_prefix_def has_prefix_def format_etag_def)
  show "format_etag v t \<noteq> ''*''" "format_etag v t \<noteq> []" by (simp_all add: format_etag_def)
  have "CHR '','' \<notin> set (nat_str n)" for n
    by (simp add: nat_str_not_in is_digit_def in_range_def bval_def)
  then show "CHR '','' \<notin> set (format_etag v t)" by (simp add: format_etag_def int_str_def)
qed

lemma etag_matches_iff: "etag_matches (format_etag v t) (format_etag v' t') \<longleftrightarrow> format_etag v t = format_etag v' t'"
  by (simp add: etag_matches_def Let_def etag_text split_at_absent)


section \<open>Notifications\<close>

lemma gget_broadcast [simp]: "gget (broadcast m) ch = map_option (\<lambda>_. True) (gget m ch)"
  by (induction m) (auto simp: broadcast_def)

lemma gwf_broadcast [simp]: "gwf (broadcast m) \<longleftrightarrow> gwf m"
  by (simp add: gwf_def broadcast_def case_prod_beta comp_def)

lemma ghas_broadcast [simp]: "ghas (broadcast m) ch \<longleftrightarrow> ghas m ch"
  by (simp add: ghas_def)

lemma notify_updated_mono: "hb_updated h \<le> hb_updated (hub_notify now h)"
  by (simp add: hub_notify_def Let_def)

lemma notify_all:
  "\<not> hb_closed h \<Longrightarrow> hb_version (fold hub_notify ts h) = hb_version h + of_nat (length ts)
     \<and> \<not> hb_closed (fold hub_notify ts h)"
  by (induction ts arbitrary: h) (auto simp: hub_notify_def Let_def algebra_simps)

text \<open>
  C20: a client sees every change. A client that presents the entity tag of an earlier state
  is considered up to date exactly when no notification came in between (fewer than \<open>2^64\<close>
  of them), even within one second.
\<close>

theorem fresh_iff_unchanged:
  assumes "\<not> hb_closed h" and "header_value r ''If-None-Match'' = hs_etag (hub_snapshot h)"
    and "length ts < 2 ^ 64"
  shows "is_fresh ht r (hub_snapshot (fold hub_notify ts h)) \<longleftrightarrow> ts = []"
proof -
  let ?h = "fold hub_notify ts h"
  have inm: "header_value r ''If-None-Match'' = format_etag (hb_version h) (hb_updated h)"
    using assms(2) by (simp add: hub_snapshot_def)
  have "is_fresh ht r (hub_snapshot ?h)
      \<longleftrightarrow> format_etag (hb_version h) (hb_updated h) = format_etag (hb_version ?h) (hb_updated ?h)"
    by (simp add: is_fresh_def Let_def inm etag_text hub_snapshot_def etag_matches_iff)
  moreover have "hb_version ?h \<noteq> hb_version h" if "ts \<noteq> []"
  proof -
    have "(of_nat (length ts) :: 64 word) \<noteq> 0"
      using that assms(3) by (simp add: word_of_nat_eq_0_iff) (meson length_greater_0_conv nat_dvd_not_less)
    then show ?thesis using notify_all [OF assms(1), of ts] by simp
  qed
  ultimately show ?thesis using etag_inj by (cases "ts = []") fastforce+
qed

section \<open>Waiting requests\<close>

fun returned :: "wait_phase \<Rightarrow> bool" where
  "returned (Returned _ _ _) = True"
| "returned _ = False"

definition standing :: "poll_sys \<Rightarrow> nat \<Rightarrow> bool" where
  "standing s ch \<longleftrightarrow> (\<exists>p. ps_waits s ch = Some p \<and> \<not> returned p)"

definition poll_inv :: "poll_sys \<Rightarrow> bool" where
  "poll_inv s \<longleftrightarrow> gwf (hb_subs (ps_hub s)) \<and> (\<forall>ch. ghas (hb_subs (ps_hub s)) ch \<longleftrightarrow> standing s ch)
     \<and> (\<forall>ch st. ps_waits s ch = Some (Waiting st) \<and> gget (hb_subs (ps_hub s)) ch = Some False
          \<longrightarrow> st = hub_snapshot (ps_hub s))"

lemma hub_snapshot_subs [simp]: "hub_snapshot (h\<lparr>hb_subs := m\<rparr>) = hub_snapshot h"
  by (simp add: hub_snapshot_def)

lemma poll_inv_init: "poll_inv (poll_init now)"
  by (simp add: poll_inv_def poll_init_def new_hub_def standing_def ghas_def)

lemma poll_inv_step:
  assumes "poll_step ht s s'" and "poll_inv s"
  shows "poll_inv s'"
  using assms(1)
proof cases
  case (notifies now)
  with assms(2) show ?thesis
    by (auto simp: poll_inv_def standing_def hub_notify_def Let_def)
next
  case closes
  with assms(2) show ?thesis
    by (auto simp: poll_inv_def standing_def hub_close_def hub_snapshot_def)
next
  case (arrives ch r p h')
  with assms(2) show ?thesis
    by (auto simp: poll_inv_def standing_def wait_start_def Let_def split: if_splits)
next
  case (receives ch st)
  with assms(2) show ?thesis
    by (auto simp: poll_inv_def standing_def split: if_splits)
next
  case (reads ch)
  with assms(2) show ?thesis by (auto simp: poll_inv_def standing_def)
next
  case (expires ch st)
  with assms(2) show ?thesis by (auto simp: poll_inv_def standing_def)
next
  case (cancelled ch st e)
  with assms(2) show ?thesis by (auto simp: poll_inv_def standing_def)
next
  case (returns ch b st e)
  with assms(2) show ?thesis
    by (auto simp: poll_inv_def standing_def unsubscribe_def split: if_splits)
qed

lemma poll_inv_reachable: "rtranclp (poll_step ht) (poll_init now) s \<Longrightarrow> poll_inv s"
  by (induction rule: rtranclp_induct) (auto intro: poll_inv_init poll_inv_step)

text \<open>
  C16: no wake-up is lost. In every reachable state, a request that stands in the \<open>select\<close>
  with a state other than the current one has its signal in the channel, whatever
  notifications, arrivals and departures were interleaved since it registered.
\<close>

theorem no_lost_wakeup:
  assumes "rtranclp (poll_step ht) (poll_init now) s" and "ps_waits s ch = Some (Waiting st)"
    and "st \<noteq> hub_snapshot (ps_hub s)"
  shows "gget (hb_subs (ps_hub s)) ch = Some True"
proof -
  have inv: "poll_inv s" using assms(1) by (rule poll_inv_reachable)
  have "standing s ch" using assms(2) by (simp add: standing_def)
  with inv have "ghas (hb_subs (ps_hub s)) ch" by (simp add: poll_inv_def)
  then obtain b where "gget (hb_subs (ps_hub s)) ch = Some b" by (auto simp: ghas_def)
  with inv assms(2,3) show ?thesis by (cases b) (auto simp: poll_inv_def)
qed

text \<open>
  No subscriber leaks. The number of registered channels is the number of calls that
  have not returned, so it is zero when every call has returned.
\<close>

theorem subscribers_are_standing:
  assumes "rtranclp (poll_step ht) (poll_init now) s"
  shows "subscriber_count (ps_hub s) = card {ch. standing s ch}"
proof -
  have inv: "poll_inv s" using assms by (rule poll_inv_reachable)
  then have "card (fst ` set (hb_subs (ps_hub s))) = length (hb_subs (ps_hub s))"
    by (simp add: poll_inv_def gwf_def distinct_card flip: set_map)
  moreover have "fst ` set (hb_subs (ps_hub s)) = {ch. standing s ch}"
    using inv by (auto simp: poll_inv_def ghas_iff)
  ultimately show ?thesis by (simp add: subscriber_count_def)
qed

text \<open>
  A poll answers before its context ends. With more than 100ms left, the timer is set so
  that it fires at least 100ms before the deadline, and never later than the poll timeout.
\<close>

theorem poll_before_deadline:
  assumes "100 * millisecond < d - now" and "0 < timeout"
  shows "0 < effective_timeout timeout (Some d) now
    \<and> effective_timeout timeout (Some d) now \<le> timeout
    \<and> (d - now < 2 ^ 63 \<longrightarrow> now + effective_timeout timeout (Some d) now \<le> d - 100 * millisecond)"
proof -
  have "in64 (time_sub d now - 100 * millisecond)"
    using assms(1) by (simp add: time_sub_def clamp64_def in64_def)
  then have "wrap64 (time_sub d now - 100 * millisecond) = min (2 ^ 63 - 1) (d - now) - 100 * millisecond"
    using assms(1) by (simp add: wrap64_id time_sub_def clamp64_def)
  then show ?thesis using assms by (auto simp: effective_timeout_def Let_def)
qed

section \<open>Concrete instances\<close>

definition no_dates :: http_dates where [go_eval]:
  "no_dates = \<lparr>hd_format = (\<lambda>_. []), hd_parse = (\<lambda>_. None)\<rparr>"

definition example_poll :: request where [go_eval]:
  "example_poll = (get_request ''/ui/stats'')
     \<lparr>rq_header := [(''If-None-Match'', [hs_etag (hub_snapshot (new_hub (of_unix 5)))])]\<rparr>"

lemma example_poll_header:
  "header_value example_poll ''If-None-Match'' = hs_etag (hub_snapshot (new_hub (of_unix 5)))"
  by (simp add: example_poll_def header_value_def header_get_def)

theorem fresh_iff_unchanged_witness:
  "\<not> is_fresh no_dates example_poll (hub_snapshot (hub_notify (of_unix 5) (new_hub (of_unix 5))))"
  using fresh_iff_unchanged [OF _ example_poll_header, of "[of_unix 5]" no_dates]
  by (simp add: new_hub_def)

text \<open>A request that waits while a notification arrives.\<close>

definition example_waiting :: poll_sys where
  "example_waiting =
     \<lparr>ps_hub = hub_notify (of_unix 5) ((new_hub (of_unix 5))\<lparr>hb_subs := [(7, False)]\<rparr>),
      ps_waits = [7 \<mapsto> Waiting (hub_snapshot (new_hub (of_unix 5)))]\<rparr>"

lemma example_waiting_reachable: "rtranclp (poll_step no_dates) (poll_init (of_unix 5)) example_waiting"
proof -
  let ?h = "new_hub (of_unix 5)"
  let ?s = "\<lparr>ps_hub = ?h\<lparr>hb_subs := [(7, False)]\<rparr>, ps_waits = [7 \<mapsto> Waiting (hub_snapshot ?h)]\<rparr>"
  have "is_fresh no_dates example_poll (hub_snapshot ?h)"
    using fresh_iff_unchanged [OF _ example_poll_header, of "[]" no_dates] by (simp add: new_hub_def)
  then have "wait_start no_dates example_poll 7 ?h = (Waiting (hub_snapshot ?h), ?h\<lparr>hb_subs := [(7, False)]\<rparr>)"
    by (simp add: wait_start_def Let_def gset_def) (simp add: new_hub_def)
  then have "poll_step no_dates (poll_init (of_unix 5)) ?s"
    using arrives [of "poll_init (of_unix 5)" 7 no_dates example_poll] by (simp add: poll_init_def)
  moreover have "poll_step no_dates ?s example_waiting"
    using notifies [of no_dates ?s "of_unix 5"] by (simp add: example_waiting_def)
  ultimately show ?thesis by (meson rtranclp.simps)
qed

theorem no_lost_wakeup_witness: "gget (hb_subs (ps_hub example_waiting)) 7 = Some True"
proof (rule no_lost_wakeup [OF example_waiting_reachable])
  show "ps_waits example_waiting 7 = Some (Waiting (hub_snapshot (new_hub (of_unix 5))))"
    by (simp add: example_waiting_def)
  show "hub_snapshot (new_hub (of_unix 5)) \<noteq> hub_snapshot (ps_hub example_waiting)"
    by (simp add: example_waiting_def hub_snapshot_def hub_notify_def new_hub_def Let_def)
qed

theorem subscribers_are_standing_witness: "subscriber_count (ps_hub example_waiting) = card {7::nat}"
  using subscribers_are_standing [OF example_waiting_reachable]
  by (simp add: standing_def example_waiting_def)

theorem poll_before_deadline_witness:
  "effective_timeout (30 * second) (Some (of_unix 20)) (of_unix 10) \<le> 10 * second - 100 * millisecond"
proof -
  have d: "of_unix 20 - of_unix 10 = 10 * second" by (simp add: of_unix_def)
  have "of_unix 10 + effective_timeout (30 * second) (Some (of_unix 20)) (of_unix 10)
      \<le> of_unix 20 - 100 * millisecond"
    using poll_before_deadline [of "of_unix 20" "of_unix 10" "30 * second"] unfolding d by simp
  with d show ?thesis by linarith
qed

end
