(* ===== verification/Notifying.thy ===== *)
theory Notifying
  imports Catalog
begin

text \<open>
  \<open>internal/store/notifying.go\<close>: the wrapper that calls a notifier after every successful
  mutation of a catalog. The notifier is a function on the shared state (\<open>None\<close> is the nil
  notifier). The wrapper keeps the contract of the catalog it wraps, provided the notifier
  leaves the entries alone.
\<close>

definition notify_on :: "('w \<Rightarrow> 'w) option \<Rightarrow> 'w \<Rightarrow> 'w" where [go_eval]:
  "notify_on n w = (case n of None \<Rightarrow> w | Some f \<Rightarrow> f w)"

text \<open>Passes the error on, and notifies when there is none and \<open>c\<close> holds.\<close>

definition notify_if ::
  "bool \<Rightarrow> ('w \<Rightarrow> 'w) option \<Rightarrow> goerr option \<times> 'w \<Rightarrow> goerr option \<times> 'w" where [go_eval]:
  "notify_if c n r = (case r of (err, w) \<Rightarrow> (err, if err = None \<and> c then notify_on n w else w))"

definition new_notifying :: "('w \<Rightarrow> 'w) option \<Rightarrow> 'w store \<Rightarrow> 'w store" where [go_eval]:
  "new_notifying n s =
     s\<lparr>st_upsert := (\<lambda>h sz at info w. notify_if True n (st_upsert s h sz at info w)),
       st_record_hit := (\<lambda>h at w. notify_if True n (st_record_hit s h at w)),
       st_record_miss := (\<lambda>at w. notify_if True n (st_record_miss s at w)),
       st_delete := (\<lambda>hs w. notify_if (length hs > 0) n (st_delete s hs w)),
       st_ensure := (\<lambda>h sz at w. notify_if True n (st_ensure s h sz at w)),
       st_update_task := (\<lambda>h info w. notify_if (\<not> task_empty info) n (st_update_task s h info w)),
       st_seed := (\<lambda>e w. notify_if True n (st_seed s e w))\<rparr>"

lemma new_notifying_sel [simp]:
  "st_upsert (new_notifying n s) h sz at info w = notify_if True n (st_upsert s h sz at info w)"
  "st_record_hit (new_notifying n s) h at w = notify_if True n (st_record_hit s h at w)"
  "st_record_miss (new_notifying n s) at w = notify_if True n (st_record_miss s at w)"
  "st_list (new_notifying n s) = st_list s"
  "st_list_older (new_notifying n s) = st_list_older s"
  "st_delete (new_notifying n s) hs w = notify_if (length hs > 0) n (st_delete s hs w)"
  "st_stats (new_notifying n s) = st_stats s"
  "st_ensure (new_notifying n s) h sz at w = notify_if True n (st_ensure s h sz at w)"
  "st_update_task (new_notifying n s) h info w = notify_if (\<not> task_empty info) n (st_update_task s h info w)"
  "st_seed (new_notifying n s) e w = notify_if True n (st_seed s e w)"
  "st_close (new_notifying n s) = st_close s"
  by (simp_all add: new_notifying_def)

lemma notify_if_iff:
  "notify_if c n r = (err, w') \<longleftrightarrow>
     fst r = err \<and> w' = (if err = None \<and> c then notify_on n (snd r) else snd r)"
  by (cases r) (auto simp: notify_if_def)

text \<open>What a notifier may do: anything that is neither artifact, entry nor visiting order.\<close>

locale quiet_notifier = artifact_catalog st ents inv cord_ok expired
  for st :: "'w store" and ents inv cord_ok expired +
  fixes notifier :: "('w \<Rightarrow> 'w) option"
  assumes notifier_inv: "inv w \<Longrightarrow> inv (notify_on notifier w)"
    and notifier_ents: "ents (notify_on notifier w) = ents w"
begin

lemma wrapped: "artifact_catalog (new_notifying notifier st) ents inv cord_ok expired"
proof (unfold_locales, goal_cases)
  case (1 w h e)
  then show ?case by (rule ents_hash)
next
  case (2 w h n at info x w')
  then show ?case
    using upsert_inv [of w h n at info x] by (cases "st_upsert st h n at info w")
      (auto simp: notify_if_iff notifier_inv split: if_splits)
next
  case (3 w h n at info w')
  then show ?case
    using upsert_ok [of w h n at info] by (cases "st_upsert st h n at info w")
      (auto simp: notify_if_iff notifier_ents split: if_splits)
next
  case (4 w h n at info x w' k)
  then show ?case
    using upsert_frame [of w h n at info x _ k] by (cases "st_upsert st h n at info w")
      (auto simp: notify_if_iff notifier_ents split: if_splits)
next
  case (5 w h at x w')
  then show ?case
    using hit_inv [of w h at x] by (cases "st_record_hit st h at w")
      (auto simp: notify_if_iff notifier_inv split: if_splits)
next
  case (6 w h at w' e)
  then show ?case
    using hit_ok [of w h at _ e] by (cases "st_record_hit st h at w")
      (auto simp: notify_if_iff notifier_ents split: if_splits)
next
  case (7 w h at x w' k)
  then show ?case
    using hit_frame [of w h at x _ k] by (cases "st_record_hit st h at w")
      (auto simp: notify_if_iff notifier_ents split: if_splits)
next
  case (8 w at x w')
  then show ?case
    using miss_frame [of w at x] by (cases "st_record_miss st at w")
      (auto simp: notify_if_iff notifier_inv notifier_ents split: if_splits)
next
  case (9 w ord cutoff es)
  then show ?case using older_ok [of w ord cutoff es] by simp
next
  case (10 w hs w')
  then show ?case
    using del_ok [of w hs] by (cases "st_delete st hs w")
      (auto simp: notify_if_iff notifier_inv notifier_ents split: if_splits)
next
  case (11 w hs ee w')
  then show ?case
    using del_error [of w hs ee] by (cases "st_delete st hs w")
      (auto simp: notify_if_iff notifier_inv notifier_ents split: if_splits)
next
  case (12 w h n at x w')
  then show ?case
    using ensure_inv [of w h n at x] by (cases "st_ensure st h n at w")
      (auto simp: notify_if_iff notifier_inv split: if_splits)
next
  case (13 w h n at w')
  then show ?case
    using ensure_ok [of w h n at] by (cases "st_ensure st h n at w")
      (auto simp: notify_if_iff notifier_ents split: if_splits)
next
  case (14 w h n at x w' k)
  then show ?case
    using ensure_keeps [of w h n at x _ k] by (cases "st_ensure st h n at w")
      (auto simp: notify_if_iff notifier_ents split: if_splits)
qed

end

end
