(* ===== verification/Server_Env.thy ===== *)
theory Server_Env
  imports Storage Notifying Longpoll
begin

text \<open>
  The state the requests share: the storage backend, the catalog and the hub, as \<open>main.go\<close>
  wires them. A backend and a catalog on their own state are lifted to it; the locale
  \<open>server_env\<close> is what the handlers rely on, and lifting any backend and any catalog that
  keep their contracts provides it.
\<close>

section \<open>The contract of the server's parts together\<close>

locale server_env =
  artifact_backend be arts inv ord_ok + artifact_catalog st ents inv cord_ok expired
  for be :: "'w backend" and st :: "'w store" and arts ents inv ord_ok cord_ok expired +
  assumes upsert_arts: "inv w \<Longrightarrow> st_upsert st h n at info w = (x, w') \<Longrightarrow> arts w' = arts w"
    and hit_arts: "inv w \<Longrightarrow> st_record_hit st h at w = (x, w') \<Longrightarrow> arts w' = arts w"
    and miss_arts: "inv w \<Longrightarrow> st_record_miss st at w = (x, w') \<Longrightarrow> arts w' = arts w"
    and del_arts: "inv w \<Longrightarrow> st_delete st hs w = (x, w') \<Longrightarrow> arts w' = arts w"
    and put_ents: "inv w \<Longrightarrow> be_put be h r n now w = (x, c, w') \<Longrightarrow> ents w' = ents w"
    and get_ents: "inv w \<Longrightarrow> be_get be h w = (y, w') \<Longrightarrow> ents w' = ents w"
    and exists_ents: "inv w \<Longrightarrow> be_exists be h w = (b, w') \<Longrightarrow> ents w' = ents w"
    and delete_ents: "inv w \<Longrightarrow> be_delete be hs w = (x, w') \<Longrightarrow> ents w' = ents w"
    and list_ents: "inv w \<Longrightarrow> be_list be ord w = (z, w') \<Longrightarrow> ents w' = ents w"

section \<open>The shared state\<close>

record ('b, 'c) world =
  wo_disk :: 'b
  wo_cat :: 'c
  wo_hub :: hub

definition on_disk :: "('b \<Rightarrow> 'x \<times> 'b) \<Rightarrow> ('b, 'c) world \<Rightarrow> 'x \<times> ('b, 'c) world" where [go_eval]:
  "on_disk f w = (case f (wo_disk w) of (x, d) \<Rightarrow> (x, w\<lparr>wo_disk := d\<rparr>))"

definition on_cat :: "('c \<Rightarrow> 'x \<times> 'c) \<Rightarrow> ('b, 'c) world \<Rightarrow> 'x \<times> ('b, 'c) world" where [go_eval]:
  "on_cat f w = (case f (wo_cat w) of (x, c) \<Rightarrow> (x, w\<lparr>wo_cat := c\<rparr>))"

definition lift_backend :: "'b backend \<Rightarrow> ('b, 'c) world backend" where [go_eval]:
  "lift_backend be =
     \<lparr>be_exists = (\<lambda>h. on_disk (be_exists be h)),
      be_put = (\<lambda>h r n now w. case be_put be h r n now (wo_disk w) of
                  (x, c, d) \<Rightarrow> (x, c, w\<lparr>wo_disk := d\<rparr>)),
      be_get = (\<lambda>h. on_disk (be_get be h)),
      be_delete = (\<lambda>hs. on_disk (be_delete be hs)),
      be_list = (\<lambda>ord. on_disk (be_list be ord)),
      be_ensure_bucket = on_disk (be_ensure_bucket be),
      be_put_meta = (\<lambda>k d. on_disk (be_put_meta be k d)),
      be_get_meta = (\<lambda>k. on_disk (be_get_meta be k)),
      be_delete_meta = (\<lambda>ks. on_disk (be_delete_meta be ks))\<rparr>"

text \<open>\<open>Close\<close> of the object catalog also writes to the backend, so it is given separately.\<close>

definition lift_store ::
  "(('b, 'c) world \<Rightarrow> goerr option \<times> ('b, 'c) world) \<Rightarrow> 'c store \<Rightarrow> ('b, 'c) world store" where [go_eval]:
  "lift_store close s =
     \<lparr>st_upsert = (\<lambda>h n at info. on_cat (st_upsert s h n at info)),
      st_record_hit = (\<lambda>h at. on_cat (st_record_hit s h at)),
      st_record_miss = (\<lambda>at. on_cat (st_record_miss s at)),
      st_list = (\<lambda>ord q l off w. st_list s ord q l off (wo_cat w)),
      st_list_older = (\<lambda>ord cutoff w. st_list_older s ord cutoff (wo_cat w)),
      st_delete = (\<lambda>hs. on_cat (st_delete s hs)),
      st_stats = (\<lambda>vs now w. st_stats s vs now (wo_cat w)),
      st_ensure = (\<lambda>h n at. on_cat (st_ensure s h n at)),
      st_update_task = (\<lambda>h info. on_cat (st_update_task s h info)),
      st_seed = (\<lambda>e. on_cat (st_seed s e)),
      st_close = close\<rparr>"

definition world_notify :: "time \<Rightarrow> ('b, 'c) world \<Rightarrow> ('b, 'c) world" where [go_eval]:
  "world_notify now w = w\<lparr>wo_hub := hub_notify now (wo_hub w)\<rparr>"

text \<open>The catalog the handlers get: it notifies the hub of every successful change.\<close>

definition world_store ::
  "(('b, 'c) world \<Rightarrow> goerr option \<times> ('b, 'c) world) \<Rightarrow> time \<Rightarrow> 'c store \<Rightarrow> ('b, 'c) world store" where [go_eval]:
  "world_store close now s = new_notifying (Some (world_notify now)) (lift_store close s)"

lemma on_disk_iff: "on_disk f w = (x, w') \<longleftrightarrow> (\<exists>d. f (wo_disk w) = (x, d) \<and> w' = w\<lparr>wo_disk := d\<rparr>)"
  by (auto simp: on_disk_def split: prod.splits)

lemma on_cat_iff: "on_cat f w = (x, w') \<longleftrightarrow> (\<exists>c. f (wo_cat w) = (x, c) \<and> w' = w\<lparr>wo_cat := c\<rparr>)"
  by (auto simp: on_cat_def split: prod.splits)

lemma lift_put_iff:
  "be_put (lift_backend be) h r n now w = (x, c, w') \<longleftrightarrow>
     (\<exists>d. be_put be h r n now (wo_disk w) = (x, c, d) \<and> w' = w\<lparr>wo_disk := d\<rparr>)"
  by (auto simp: lift_backend_def split: prod.splits)

lemma lift_backend_sel [simp]:
  "be_exists (lift_backend be) h = on_disk (be_exists be h)"
  "be_get (lift_backend be) h = on_disk (be_get be h)"
  "be_delete (lift_backend be) hs = on_disk (be_delete be hs)"
  "be_list (lift_backend be) ord = on_disk (be_list be ord)"
  "be_put_meta (lift_backend be) k d = on_disk (be_put_meta be k d)"
  "be_get_meta (lift_backend be) k = on_disk (be_get_meta be k)"
  by (simp_all add: lift_backend_def)

lemma lift_store_sel [simp]:
  "st_upsert (lift_store cl s) h n at info = on_cat (st_upsert s h n at info)"
  "st_record_hit (lift_store cl s) h at = on_cat (st_record_hit s h at)"
  "st_record_miss (lift_store cl s) at = on_cat (st_record_miss s at)"
  "st_list (lift_store cl s) ord q l off w = st_list s ord q l off (wo_cat w)"
  "st_list_older (lift_store cl s) ord cutoff w = st_list_older s ord cutoff (wo_cat w)"
  "st_delete (lift_store cl s) hs = on_cat (st_delete s hs)"
  "st_stats (lift_store cl s) vs now w = st_stats s vs now (wo_cat w)"
  "st_ensure (lift_store cl s) h n at = on_cat (st_ensure s h n at)"
  "st_update_task (lift_store cl s) h info = on_cat (st_update_task s h info)"
  "st_seed (lift_store cl s) e = on_cat (st_seed s e)"
  "st_close (lift_store cl s) = cl"
  by (simp_all add: lift_store_def)

lemma on_cat_disk [simp]: "wo_disk (snd (on_cat f w)) = wo_disk w"
  by (simp add: on_cat_def split: prod.splits)

section \<open>Lifting keeps the contracts\<close>

context artifact_backend
begin

lemma lifted:
  assumes iv: "\<And>w. iv w \<longleftrightarrow> inv (wo_disk w) \<and> jv (wo_cat w)"
  shows "artifact_backend (lift_backend be) (\<lambda>w. arts (wo_disk w)) iv (\<lambda>ord w. ord_ok ord (wo_disk w))"
proof (unfold_locales, goal_cases)
  case (11 w hs e w')
  then show ?case using delete_error [of "wo_disk w" hs e] by (auto simp: on_disk_iff iv)
next
  case (12 w ord objs w')
  then obtain d where "be_list be ord (wo_disk w) = (Inr objs, d)" "inv (wo_disk w)" "ord_ok ord (wo_disk w)"
    by (auto simp: on_disk_iff iv)
  from list_ok [OF this(2,3,1)] show ?case by simp
qed (auto simp: on_disk_iff lift_put_iff iv dest: exists_ok exists_frame put_ok put_exists put_incomplete
    put_error get_ok get_not_found get_frame delete_ok list_frame)

end

context meta_backend
begin

lemma lifted_meta:
  assumes iv: "\<And>w. iv w \<longleftrightarrow> inv (wo_disk w) \<and> jv (wo_cat w)"
  shows "meta_backend (lift_backend be) (\<lambda>w. arts (wo_disk w)) iv (\<lambda>ord w. ord_ok ord (wo_disk w))
     (\<lambda>w. meta (wo_disk w))"
proof (intro meta_backend.intro [OF lifted [OF iv]], unfold_locales, goal_cases)
  case (2 w key d e w')
  then show ?case using put_meta_error [of "wo_disk w" key d e] by (auto simp: on_disk_iff iv)
qed (auto simp: on_disk_iff lift_put_iff iv dest: put_meta_ok put_meta_frame get_meta_ok get_meta_not_found
    get_meta_frame put_meta_keeps delete_meta_keeps exists_meta_keeps get_meta_keeps list_meta_keeps)

end

context artifact_catalog
begin

lemma lifted_catalog:
  assumes iv: "\<And>w. iv w \<longleftrightarrow> jv (wo_disk w) \<and> inv (wo_cat w)"
  shows "artifact_catalog (lift_store cl st) (\<lambda>w. ents (wo_cat w)) iv (\<lambda>ord w. cord_ok ord (wo_cat w)) expired"
proof (unfold_locales, goal_cases)
  case (1 w h e)
  then show ?case using ents_hash [of "wo_cat w" h e] by (auto simp: on_cat_iff iv)
next
  case (2 w h n at info x w')
  then show ?case using upsert_inv [of "wo_cat w" h n at info x] by (auto simp: on_cat_iff iv)
next
  case (3 w h n at info w')
  then show ?case using upsert_ok [of "wo_cat w" h n at info] by (auto simp: on_cat_iff iv)
next
  case (4 w h n at info x w' k)
  then show ?case using upsert_frame [of "wo_cat w" h n at info x _ k] by (auto simp: on_cat_iff iv)
next
  case (5 w h at x w')
  then show ?case using hit_inv [of "wo_cat w" h at x] by (auto simp: on_cat_iff iv)
next
  case (6 w h at w' e)
  then show ?case using hit_ok [of "wo_cat w" h at _ e] by (auto simp: on_cat_iff iv)
next
  case (7 w h at x w' k)
  then show ?case using hit_frame [of "wo_cat w" h at x _ k] by (auto simp: on_cat_iff iv)
next
  case (8 w at x w')
  then show ?case using miss_frame [of "wo_cat w" at x] by (auto simp: on_cat_iff iv)
next
  case (9 w ord cutoff es)
  then show ?case using older_ok [of "wo_cat w" ord cutoff es] by (auto simp: on_cat_iff iv)
next
  case (10 w hs w')
  then show ?case using del_ok [of "wo_cat w" hs] by (auto simp: on_cat_iff iv)
next
  case (11 w hs ee w')
  then show ?case using del_error [of "wo_cat w" hs ee] by (auto simp: on_cat_iff iv)
next
  case (12 w h n at x w')
  then show ?case using ensure_inv [of "wo_cat w" h n at x] by (auto simp: on_cat_iff iv)
next
  case (13 w h n at w')
  then show ?case using ensure_ok [of "wo_cat w" h n at] by (auto simp: on_cat_iff iv)
next
  case (14 w h n at x w' k)
  then show ?case using ensure_keeps [of "wo_cat w" h n at x _ k] by (auto simp: on_cat_iff iv)
qed

end

text \<open>The server's environment, from any backend and any catalog that keep their contracts.\<close>

lemma world_env:
  assumes b: "artifact_backend be arts bv ord_ok" and c: "artifact_catalog st ents cv cord_ok expired"
  shows "server_env (lift_backend be) (world_store cl now st) (\<lambda>w. arts (wo_disk w)) (\<lambda>w. ents (wo_cat w))
     (\<lambda>w. bv (wo_disk w) \<and> cv (wo_cat w)) (\<lambda>ord w. ord_ok ord (wo_disk w))
     (\<lambda>ord w. cord_ok ord (wo_cat w)) expired"
proof -
  have lc: "artifact_catalog (lift_store cl st) (\<lambda>w. ents (wo_cat w)) (\<lambda>w. bv (wo_disk w) \<and> cv (wo_cat w))
      (\<lambda>ord w. cord_ok ord (wo_cat w)) expired"
    by (rule artifact_catalog.lifted_catalog [OF c]) (rule refl)
  have q: "quiet_notifier (lift_store cl st) (\<lambda>w. ents (wo_cat w)) (\<lambda>w. bv (wo_disk w) \<and> cv (wo_cat w))
      (\<lambda>ord w. cord_ok ord (wo_cat w)) expired (Some (world_notify now))"
    by (intro quiet_notifier.intro [OF lc], unfold_locales)
       (simp_all add: notify_on_def world_notify_def)
  show ?thesis
    unfolding world_store_def
    by (intro server_env.intro artifact_backend.lifted [OF b] quiet_notifier.wrapped [OF q], rule refl,
        unfold_locales)
       (auto simp: on_disk_iff on_cat_iff lift_put_iff notify_if_iff notify_on_def world_notify_def
         split: if_splits prod.splits)
qed

end
