(* ===== verification/Server_World.thy ===== *)
theory Server_World
  imports Server_Env Snapshot
begin

text \<open>
  The server's environment as \<open>main.go\<close> wires it for an in-process backend: artifacts and
  snapshot in \<open>Memory\<close>, the object catalog, and the notifying wrapper around it. It is proved
  to provide the contracts of \<open>Notifying\<close> and \<open>Server_Env\<close>.
\<close>

type_synonym server_world = "(memory, objcat) world"

definition new_world :: "time \<Rightarrow> server_world" where [go_eval]:
  "new_world now = \<lparr>wo_disk = new_memory, wo_cat = new_object, wo_hub = new_hub now\<rparr>"

definition world_close :: "codec \<Rightarrow> server_world \<Rightarrow> goerr option \<times> server_world" where [go_eval]:
  "world_close js w =
     (case obj_close memory_backend js (wo_cat w) (wo_disk w) of
        (err, o', m) \<Rightarrow> (err, w\<lparr>wo_cat := o', wo_disk := m\<rparr>))"

definition server_backend :: "server_world backend" where [go_eval]:
  "server_backend = lift_backend memory_backend"

definition server_store :: "unicode_tables \<Rightarrow> codec \<Rightarrow> time \<Rightarrow> server_world store" where [go_eval]:
  "server_store u js now = world_store (world_close js) now (object_store u (\<lambda>o'. (None, o')))"

definition server_arts :: "server_world \<Rightarrow> (string \<rightharpoonup> string \<times> time)" where
  "server_arts = (\<lambda>w. mem_arts (wo_disk w))"

definition server_ents :: "server_world \<Rightarrow> (string \<rightharpoonup> entry)" where
  "server_ents = (\<lambda>w. obj_ents (wo_cat w))"

definition server_inv :: "server_world \<Rightarrow> bool" where
  "server_inv = (\<lambda>w. mem_inv (wo_disk w) \<and> obj_inv (wo_cat w))"

definition disk_order :: "string list \<Rightarrow> server_world \<Rightarrow> bool" where
  "disk_order = (\<lambda>ord w. visit_order ord (mem_objects (wo_disk w)))"

definition cat_order :: "string list \<Rightarrow> server_world \<Rightarrow> bool" where
  "cat_order = (\<lambda>ord w. visit_order ord (oc_entries (wo_cat w)))"

definition created_before :: "time \<Rightarrow> entry \<Rightarrow> bool" where
  "created_before = (\<lambda>cutoff e. en_created e < cutoff)"

lemma server_env_ok:
  "server_env server_backend (server_store u js now) server_arts server_ents server_inv disk_order
     cat_order created_before"
  unfolding server_backend_def server_store_def server_arts_def server_ents_def server_inv_def
    disk_order_def cat_order_def created_before_def
  by (rule world_env [OF mem.artifact_backend_axioms obj.artifact_catalog_axioms])

interpretation env: server_env server_backend "server_store u js now" server_arts server_ents server_inv
  disk_order cat_order created_before for u js now
  by (rule server_env_ok)

interpretation catq: quiet_notifier "object_store u close" obj_ents obj_inv
  "\<lambda>ord o'. visit_order ord (oc_entries o')" created_before None for u close
  unfolding created_before_def by unfold_locales (simp_all add: notify_on_def)

section \<open>An example\<close>

text \<open>One artifact uploaded on 4 March 2025, with its catalog entry.\<close>

definition example_world :: server_world where
  "example_world =
     \<lparr>wo_disk = new_memory\<lparr>mem_objects := [(''a1'', \<lparr>mo_data = ''0123456789'', mo_modified = march_4\<rparr>)]\<rparr>,
      wo_cat = example_catalog, wo_hub = new_hub march_4\<rparr>"

lemma example_world_inv: "server_inv example_world"
  using example_inv by (simp add: server_inv_def example_world_def mem_inv_def new_memory_def gwf_def)

lemma example_world_arts: "server_arts example_world = [''a1'' \<mapsto> (''0123456789'', march_4)]"
  by (rule ext) (simp add: server_arts_def example_world_def mem_arts_def)

lemma example_world_ents:
  "server_ents example_world = [''a1'' \<mapsto> \<lparr>en_hash = ''a1'', en_size = 10, en_created = march_4,
     en_accessed = march_4 + second, en_hits = 1, en_task = example_task\<rparr>]"
  by (simp add: server_ents_def example_world_def obj_ents_def example_entries)

lemma example_world_orders: "disk_order [''a1''] example_world" "cat_order [''a1''] example_world"
  using example_order by (simp_all add: disk_order_def cat_order_def example_world_def visit_order_def)

end
