(* ===== verification/Cleanup.thy ===== *)
theory Cleanup
  imports Server_World
begin

text \<open>
  \<open>internal/cleanup/cleanup.go\<close>: the removal of expired artifacts, on a ticker, on demand and
  after uploads. Its own state is the time of the last run; everything else happens through
  the backend and the catalog.
\<close>

section \<open>State and operations\<close>

record cleaner =
  cl_ttl :: duration
  cl_interval :: duration
  cl_last_run :: time
  cl_min_gap :: duration

text \<open>\<open>Start\<close> fixes the ticker's interval and the minimal gap.\<close>

definition cleaner_start :: "cleaner \<Rightarrow> duration \<times> cleaner" where [go_eval]:
  "cleaner_start c =
     (if cl_interval c \<le> 0 then hour else cl_interval c,
      if cl_min_gap c = 0 then c\<lparr>cl_min_gap := minute\<rparr> else c)"

text \<open>
  \<open>MaybeRun\<close> decides whether a run is started; it reads the clock for the comparison and
  again for the new time of the last run.
\<close>

definition maybe_run :: "time \<Rightarrow> time \<Rightarrow> cleaner \<Rightarrow> bool \<times> cleaner" where [go_eval]:
  "maybe_run now1 now2 c =
     (let gap = (if cl_min_gap c = 0 then minute else cl_min_gap c) in
      if time_sub now1 (cl_last_run c) < gap then (False, c)
      else (True, c\<lparr>cl_last_run := now2\<rparr>))"

text \<open>
  The map \<open>seen\<close> holds exactly the hashes already collected, so one list serves as both.
\<close>

definition add_hash :: "string \<Rightarrow> string list \<Rightarrow> string list" where [go_eval]:
  "add_hash h hashes = (if h \<in> set hashes then hashes else hashes @ [h])"

definition expired_hashes :: "time \<Rightarrow> entry list \<Rightarrow> object list \<Rightarrow> string list" where [go_eval]:
  "expired_hashes cutoff entries objects =
     fold (\<lambda>ob hashes.
             if is_zero (ob_last_modified ob) \<or> \<not> ob_last_modified ob < cutoff then hashes
             else add_hash (ob_hash ob) hashes)
       objects (fold (\<lambda>e hashes. add_hash (en_hash e) hashes) entries [])"

definition cleaner_cutoff :: "time \<Rightarrow> cleaner \<Rightarrow> time" where [go_eval]:
  "cleaner_cutoff now c = time_add now (wrap64 (- cl_ttl c))"

text \<open>
  \<open>Run\<close>, with the two clock readings and the orders in which the catalog and the backend
  list what they hold.
\<close>

definition cleaner_run ::
  "'w backend \<Rightarrow> 'w store \<Rightarrow> time \<Rightarrow> time \<Rightarrow> string list \<Rightarrow> string list \<Rightarrow> cleaner \<Rightarrow> 'w \<Rightarrow>
   (goerr + int) \<times> cleaner \<times> 'w" where [go_eval]:
  "cleaner_run be st now1 now2 cord ord c w =
     (let c' = c\<lparr>cl_last_run := now1\<rparr>; cutoff = cleaner_cutoff now2 c' in
      case st_list_older st cord cutoff w of
        Inl e \<Rightarrow> (Inl e, c', w)
      | Inr entries \<Rightarrow>
          (case be_list be ord w of
             (Inl e, w1) \<Rightarrow> (Inl e, c', w1)
           | (Inr objects, w1) \<Rightarrow>
               let hashes = expired_hashes cutoff entries objects in
               if hashes = [] then (Inr 0, c', w1)
               else (case be_delete be hashes w1 of
                       (Some e, w2) \<Rightarrow> (Inl e, c', w2)
                     | (None, w2) \<Rightarrow>
                         (case st_delete st hashes w2 of
                            (Some e, w3) \<Rightarrow> (Inl e, c', w3)
                          | (None, w3) \<Rightarrow> (Inr (int (length hashes)), c', w3)))))"

section \<open>The hashes collected\<close>

lemma set_add_hash [simp]: "set (add_hash h hs) = insert h (set hs)"
  by (auto simp: add_hash_def)

lemma distinct_add_hash [simp]: "distinct (add_hash h hs) \<longleftrightarrow> distinct hs"
  by (simp add: add_hash_def)

lemma fold_add_hash:
  "set (fold (\<lambda>x hs. if P x then hs else add_hash (f x) hs) xs hs) = f ` {x \<in> set xs. \<not> P x} \<union> set hs"
  "distinct hs \<Longrightarrow> distinct (fold (\<lambda>x hs. if P x then hs else add_hash (f x) hs) xs hs)"
  by (induction xs arbitrary: hs) auto

lemma set_expired_hashes:
  "set (expired_hashes cutoff es obs) = en_hash ` set es
     \<union> ob_hash ` {ob \<in> set obs. ob_last_modified ob \<noteq> 0 \<and> ob_last_modified ob < cutoff}"
  using fold_add_hash(1) [of "\<lambda>_. False" en_hash es "[]"]
    fold_add_hash(1) [of "\<lambda>ob. is_zero (ob_last_modified ob) \<or> \<not> ob_last_modified ob < cutoff" ob_hash obs]
  by (auto simp: expired_hashes_def is_zero_def)

lemma distinct_expired_hashes: "distinct (expired_hashes cutoff es obs)"
  using fold_add_hash(2) [of "[]" "\<lambda>_. False" en_hash es]
  by (simp add: expired_hashes_def fold_add_hash(2))

text \<open>Where a run can end, as one case rule.\<close>

lemma cleaner_run_cases:
  assumes "cleaner_run be st now1 now2 cord ord c w = (res, c', w')"
  obtains e where "st_list_older st cord (cleaner_cutoff now2 c) w = Inl e" "res = Inl e" "w' = w"
  | es e where "st_list_older st cord (cleaner_cutoff now2 c) w = Inr es"
      "be_list be ord w = (Inl e, w')" "res = Inl e"
  | es obs where "st_list_older st cord (cleaner_cutoff now2 c) w = Inr es"
      "be_list be ord w = (Inr obs, w')" "expired_hashes (cleaner_cutoff now2 c) es obs = []" "res = Inr 0"
  | es obs w1 e where "st_list_older st cord (cleaner_cutoff now2 c) w = Inr es"
      "be_list be ord w = (Inr obs, w1)" "res = Inl e"
      "be_delete be (expired_hashes (cleaner_cutoff now2 c) es obs) w1 = (Some e, w')"
  | es obs w1 w2 e where "st_list_older st cord (cleaner_cutoff now2 c) w = Inr es"
      "be_list be ord w = (Inr obs, w1)" "res = Inl e"
      "be_delete be (expired_hashes (cleaner_cutoff now2 c) es obs) w1 = (None, w2)"
      "st_delete st (expired_hashes (cleaner_cutoff now2 c) es obs) w2 = (Some e, w')"
  | es obs w1 w2 where "st_list_older st cord (cleaner_cutoff now2 c) w = Inr es"
      "be_list be ord w = (Inr obs, w1)"
      "be_delete be (expired_hashes (cleaner_cutoff now2 c) es obs) w1 = (None, w2)"
      "st_delete st (expired_hashes (cleaner_cutoff now2 c) es obs) w2 = (None, w')"
      "res = Inr (int (length (expired_hashes (cleaner_cutoff now2 c) es obs)))"
proof -
  have cut: "cleaner_cutoff now2 (c\<lparr>cl_last_run := now1\<rparr>) = cleaner_cutoff now2 c"
    by (simp add: cleaner_cutoff_def)
  show ?thesis
    using assms that unfolding cleaner_run_def Let_def cut
    by (auto split: sum.splits prod.splits option.splits if_splits)
qed

section \<open>What a run removes\<close>

text \<open>The hashes that are past their time in the catalog or in the backend.\<close>

definition expired_set ::
  "('w \<Rightarrow> (string \<rightharpoonup> string \<times> time)) \<Rightarrow> ('w \<Rightarrow> (string \<rightharpoonup> entry)) \<Rightarrow> (time \<Rightarrow> entry \<Rightarrow> bool) \<Rightarrow>
   time \<Rightarrow> 'w \<Rightarrow> string set" where
  "expired_set arts ents expired cutoff w =
     {h. (\<exists>e. ents w h = Some e \<and> expired cutoff e)
       \<or> (\<exists>d t. arts w h = Some (d, t) \<and> t \<noteq> 0 \<and> t < cutoff)}"

context server_env
begin

lemma expired_hashes_set:
  assumes "inv w" and "cord_ok cord w" and "ord_ok ord w"
    and "st_list_older st cord cutoff w = Inr es" and "be_list be ord w = (Inr obs, w1)"
  shows "set (expired_hashes cutoff es obs) = expired_set arts ents expired cutoff w"
proof -
  have es: "h \<in> en_hash ` set es \<longleftrightarrow> (\<exists>e. ents w h = Some e \<and> expired cutoff e)" for h
    by (rule older_hashes [OF assms(1,2,4)])
  have obs: "(\<exists>d. arts w h = Some (d, t))
      \<longleftrightarrow> (\<exists>ob \<in> set obs. ob_hash ob = h \<and> ob_last_modified ob = t)" for h t
    using list_ok [OF assms(1,3,5)] by blast
  have "h \<in> ob_hash ` {ob \<in> set obs. ob_last_modified ob \<noteq> 0 \<and> ob_last_modified ob < cutoff}
      \<longleftrightarrow> (\<exists>d t. arts w h = Some (d, t) \<and> t \<noteq> 0 \<and> t < cutoff)" for h
    using obs [of h] by (auto simp: image_iff) metis+
  with es show ?thesis
    unfolding set_expired_hashes expired_set_def by blast
qed

lemma run_exact:
  assumes "inv w" and "cord_ok cord w" and "ord_ok ord w"
    and "cleaner_run be st now1 now2 cord ord c w = (Inr n, c', w')"
  shows "inv w' \<and> arts w' = arts w |` (- expired_set arts ents expired (cleaner_cutoff now2 c) w)
    \<and> ents w' = ents w |` (- expired_set arts ents expired (cleaner_cutoff now2 c) w)
    \<and> n = int (card (expired_set arts ents expired (cleaner_cutoff now2 c) w))"
  using assms(4)
proof (cases rule: cleaner_run_cases)
  case (3 es obs)
  then have "expired_set arts ents expired (cleaner_cutoff now2 c) w = {}"
    using expired_hashes_set [OF assms(1-3) 3(1,2)] by simp
  with 3 list_frame [OF assms(1) 3(2)] list_ents [OF assms(1) 3(2)] show ?thesis
    by (simp add: restrict_map_def)
next
  case (6 es obs w1 w2)
  note set = expired_hashes_set [OF assms(1-3) 6(1,2)]
  note f1 = list_frame [OF assms(1) 6(2)] list_ents [OF assms(1) 6(2)]
  have i1: "inv w1" using f1 by simp
  note f2 = delete_ok [OF i1 6(3)] delete_ents [OF i1 6(3)]
  have i2: "inv w2" using f2 by simp
  note f3 = del_ok [OF i2 6(4)] del_arts [OF i2 6(4)]
  show ?thesis
    using f1 f2 f3 6(5) distinct_card [OF distinct_expired_hashes] by (simp flip: set)
qed simp_all

lemma run_spares:
  assumes "inv w" and "cord_ok cord w" and "ord_ok ord w"
    and "cleaner_run be st now1 now2 cord ord c w = (res, c', w')"
    and "h \<notin> expired_set arts ents expired (cleaner_cutoff now2 c) w"
  shows "inv w' \<and> arts w' h = arts w h \<and> ents w' h = ents w h"
proof (cases res)
  case (Inr n)
  with run_exact [OF assms(1-3), of now1 now2 c n c' w'] assms(4,5) show ?thesis by simp
next
  case (Inl e0)
  from assms(4) show ?thesis
  proof (cases rule: cleaner_run_cases)
    case (2 es e)
    with list_frame [OF assms(1) 2(2)] list_ents [OF assms(1) 2(2)] show ?thesis by simp
  next
    case (4 es obs w1 e)
    note set = expired_hashes_set [OF assms(1-3) 4(1,2)]
    note f1 = list_frame [OF assms(1) 4(2)] list_ents [OF assms(1) 4(2)]
    have i1: "inv w1" using f1 by simp
    show ?thesis
      using f1 assms(5) delete_ents [OF i1 4(4)] delete_frame [OF i1 4(4), of h] delete_inv [OF i1 4(4)]
      by (simp flip: set)
  next
    case (5 es obs w1 w2 e)
    note set = expired_hashes_set [OF assms(1-3) 5(1,2)]
    note f1 = list_frame [OF assms(1) 5(2)] list_ents [OF assms(1) 5(2)]
    have i1: "inv w1" using f1 by simp
    note f2 = delete_ents [OF i1 5(4)] delete_frame [OF i1 5(4), of h] delete_inv [OF i1 5(4)]
    show ?thesis
      using f1 f2 assms(5) del_error [OF f2(3) 5(5)] del_arts [OF f2(3) 5(5)] by (simp flip: set)
  qed (use Inl assms(1) in simp_all)
qed

end

section \<open>Theorems\<close>

text \<open>
  C9: a run removes exactly what has expired. When \<open>Run\<close> succeeds, the artifacts and the
  catalog entries that are gone are those whose entry was created before the cutoff or whose
  object was last modified before it (and has a modification time); every other artifact and
  entry is unchanged, and the number reported is the number of hashes removed.
\<close>

theorem cleanup_removes_exactly_expired:
  assumes "server_env be st arts ents ok ord_ok cord_ok expired"
    and "ok w" and "cord_ok cord w" and "ord_ok ord w"
    and "cleaner_run be st now1 now2 cord ord c w = (Inr n, c', w')"
  shows "arts w' = arts w |` (- expired_set arts ents expired (cleaner_cutoff now2 c) w)
    \<and> ents w' = ents w |` (- expired_set arts ents expired (cleaner_cutoff now2 c) w)
    \<and> n = int (card (expired_set arts ents expired (cleaner_cutoff now2 c) w))"
  using server_env.run_exact [OF assms] by simp

text \<open>
  C23: a run never touches what is still valid. Whatever fails half-way, an artifact and an
  entry that are not past the cutoff are exactly as before.
\<close>

theorem cleanup_spares_valid:
  assumes "server_env be st arts ents ok ord_ok cord_ok expired"
    and "ok w" and "cord_ok cord w" and "ord_ok ord w"
    and "cleaner_run be st now1 now2 cord ord c w = (res, c', w')"
    and "h \<notin> expired_set arts ents expired (cleaner_cutoff now2 c) w"
  shows "arts w' h = arts w h \<and> ents w' h = ents w h"
  using server_env.run_spares [OF assms] by simp

section \<open>Opportunistic runs\<close>

text \<open>\<open>MaybeRun\<close> called at a sequence of instants; the instants at which it starts a run.\<close>

fun maybe_runs :: "time list \<Rightarrow> cleaner \<Rightarrow> time list" where
  "maybe_runs [] c = []"
| "maybe_runs (t # ts) c =
     (case maybe_run t t c of (b, c') \<Rightarrow> (if b then [t] else []) @ maybe_runs ts c')"

definition cleaner_gap :: "cleaner \<Rightarrow> duration" where [go_eval]:
  "cleaner_gap c = (if cl_min_gap c = 0 then minute else cl_min_gap c)"

lemma maybe_run_simps:
  "maybe_run t1 t2 c =
     (if time_sub t1 (cl_last_run c) < cleaner_gap c then (False, c) else (True, c\<lparr>cl_last_run := t2\<rparr>))"
  by (simp add: maybe_run_def cleaner_gap_def Let_def)

lemma cleaner_gap_last [simp]: "cleaner_gap (c\<lparr>cl_last_run := t\<rparr>) = cleaner_gap c"
  by (simp add: cleaner_gap_def)

lemma time_sub_bound: "0 < g \<Longrightarrow> g \<le> time_sub t u \<Longrightarrow> u + g \<le> t"
  by (simp add: time_sub_def clamp64_def max_def min_def split: if_splits)

lemma maybe_runs_after:
  assumes "0 < cleaner_gap c"
  shows "sorted_wrt (\<lambda>t u. t + cleaner_gap c \<le> u) (cl_last_run c # maybe_runs ts c)"
  using assms
proof (induction ts arbitrary: c)
  case (Cons t ts)
  show ?case
  proof (cases "time_sub t (cl_last_run c) < cleaner_gap c")
    case True
    with Cons show ?thesis by (simp add: maybe_run_simps)
  next
    case False
    then have step: "cl_last_run c + cleaner_gap c \<le> t"
      using Cons.prems by (intro time_sub_bound) simp_all
    have IH: "sorted_wrt (\<lambda>t u. t + cleaner_gap c \<le> u) (t # maybe_runs ts (c\<lparr>cl_last_run := t\<rparr>))"
      using Cons.IH [of "c\<lparr>cl_last_run := t\<rparr>"] Cons.prems by simp
    have "maybe_runs (t # ts) c = t # maybe_runs ts (c\<lparr>cl_last_run := t\<rparr>)"
      using False by (simp add: maybe_run_simps)
    moreover have "cl_last_run c + cleaner_gap c \<le> u" if "u \<in> set (maybe_runs ts (c\<lparr>cl_last_run := t\<rparr>))" for u
      using that IH step Cons.prems by fastforce
    ultimately show ?thesis using IH step by simp
  qed
qed simp

text \<open>
  C25: opportunistic runs are rate limited. However often uploads call \<open>MaybeRun\<close>, the runs it
  starts are separated by at least the minimal gap from each other and from the last run (a
  zero gap counts as one minute).
\<close>

theorem maybe_run_gap:
  assumes "0 < cleaner_gap c"
  shows "sorted_wrt (\<lambda>t u. t + cleaner_gap c \<le> u) (cl_last_run c # maybe_runs ts c)"
  using assms by (rule maybe_runs_after)

section \<open>Concrete instances\<close>

definition example_cleaner :: cleaner where [go_eval]:
  "example_cleaner = \<lparr>cl_ttl = 24 * hour, cl_interval = 0, cl_last_run = 0, cl_min_gap = 0\<rparr>"

lemma example_cutoff: "cleaner_cutoff (march_4 + k) example_cleaner = march_4 + k - 24 * hour"
  by (simp add: cleaner_cutoff_def example_cleaner_def time_add_def wrap64_id in64_def)

text \<open>The run two days later.\<close>

definition example_run_result where
  "example_run_result =
     cleaner_run server_backend (server_store ascii_tables example_codec march_4) (march_4 + 48 * hour)
       (march_4 + 48 * hour) [''a1''] [''a1''] example_cleaner example_world"

lemma example_run_Inr: "\<exists>n c' w'. example_run_result = (Inr n, c', w')"
  by (auto simp: example_run_result_def cleaner_run_def server_backend_def server_store_def world_store_def
      Let_def on_disk_def on_cat_def memory_backend_def mem_list_def mem_delete_def obj_list_older_def
      obj_delete_def notify_if_def split: prod.splits sum.splits option.splits if_splits)

lemma example_expired:
  "expired_set server_arts server_ents created_before (march_4 + 24 * hour) example_world = {''a1''}"
  by (auto simp: expired_set_def example_world_arts example_world_ents created_before_def march_4_def
      of_unix_def unix_epoch_def split: if_splits)

theorem cleanup_removes_exactly_expired_witness:
  "\<exists>c' w'. example_run_result = (Inr 1, c', w') \<and> server_arts w' = Map.empty"
proof -
  obtain n c' w' where r: "example_run_result = (Inr n, c', w')" using example_run_Inr by blast
  note * = cleanup_removes_exactly_expired [OF server_env_ok example_world_inv example_world_orders(2,1)
    r [unfolded example_run_result_def]]
  have "cleaner_cutoff (march_4 + 48 * hour) example_cleaner = march_4 + 24 * hour"
    by (simp add: example_cutoff)
  with * have "server_arts w' = server_arts example_world |` (- {''a1''})" "n = 1"
    by (simp_all only: example_expired) simp
  with r show ?thesis by (auto simp: example_world_arts)
qed

theorem cleanup_spares_valid_witness:
  "\<exists>res c' w'. cleaner_run server_backend (server_store ascii_tables example_codec march_4) (march_4 + second)
     (march_4 + second) [''a1''] [''a1''] example_cleaner example_world = (res, c', w')
     \<and> server_arts w' ''a1'' = Some (''0123456789'', march_4)"
proof -
  obtain res c' w' where r: "cleaner_run server_backend (server_store ascii_tables example_codec march_4)
      (march_4 + second) (march_4 + second) [''a1''] [''a1''] example_cleaner example_world = (res, c', w')"
    by (metis prod_cases3)
  have "''a1'' \<notin> expired_set server_arts server_ents created_before
      (cleaner_cutoff (march_4 + second) example_cleaner) example_world"
    by (simp add: example_cutoff expired_set_def example_world_arts example_world_ents created_before_def)
  from cleanup_spares_valid [OF server_env_ok example_world_inv example_world_orders(2,1) r this]
  show ?thesis using r by (simp add: example_world_arts)
qed

theorem maybe_run_gap_witness:
  "maybe_runs [of_unix 0, of_unix 59, of_unix 61] example_cleaner = [of_unix 0, of_unix 61]
   \<and> of_unix 0 + minute \<le> of_unix 61"
proof -
  have runs: "maybe_runs [of_unix 0, of_unix 59, of_unix 61] example_cleaner = [of_unix 0, of_unix 61]"
    by (simp add: go_eval)
  have "0 < cleaner_gap example_cleaner" by (simp add: go_eval)
  from maybe_run_gap [OF this, of "[of_unix 0, of_unix 59, of_unix 61]"] runs
  show ?thesis by (simp add: cleaner_gap_def example_cleaner_def)
qed

end
