(* ===== verification/Regex.thy ===== *)
theory Regex
  imports Go_Strings
begin

text \<open>
  The part of \<open>regexp\<close> the program uses: leftmost-first matching over the runes of a text, as
  a backtracking matcher in continuation-passing style. A text is the list of its runes with
  their bytes; a match gives the captured groups. The matcher is total.
\<close>

section \<open>Expressions and matching\<close>

type_synonym runes = "(nat \<times> string) list"

text \<open>
  \<open>Star True\<close> is greedy, \<open>Star False\<close> lazy. \<open>Begin_Text\<close> is \<open>^\<close> and \<open>End_Text\<close> is \<open>$\<close>;
  \<open>Begin_Line\<close> and \<open>End_Line\<close> are the same with the flag \<open>m\<close>.
\<close>

datatype regex =
    Eps
  | Rune "nat \<Rightarrow> bool"
  | Seq regex regex
  | Alt regex regex
  | Star bool regex
  | Group nat regex
  | Begin_Text
  | End_Text
  | Begin_Line
  | End_Line

type_synonym captures = "(nat \<times> string) list"

definition begins_line :: "nat option \<Rightarrow> bool" where [go_eval]:
  "begins_line prev = (case prev of None \<Rightarrow> True | Some r \<Rightarrow> r = 10)"

definition ends_line :: "runes \<Rightarrow> bool" where [go_eval]:
  "ends_line inp = (case inp of [] \<Rightarrow> True | (r, _) # _ \<Rightarrow> r = 10)"

text \<open>The bytes between two positions of a text, given as its remaining runes.\<close>

definition between :: "runes \<Rightarrow> runes \<Rightarrow> string" where [go_eval]:
  "between i j = unchunk (take (length i - length j) i)"

text \<open>
  \<open>match r prev inp caps k\<close>: match \<open>r\<close> at the position whose previous rune is \<open>prev\<close>, then
  continue with \<open>k\<close>; alternatives are tried in order until one succeeds.
\<close>

function match ::
  "regex \<Rightarrow> nat option \<Rightarrow> runes \<Rightarrow> captures \<Rightarrow> (nat option \<Rightarrow> runes \<Rightarrow> captures \<Rightarrow> 'r option) \<Rightarrow> 'r option"
where
  "match Eps prev inp caps k = k prev inp caps"
| "match (Rune p) prev inp caps k =
     (case inp of [] \<Rightarrow> None | (r, bs) # rest \<Rightarrow> if p r then k (Some r) rest caps else None)"
| "match (Seq r s) prev inp caps k =
     match r prev inp caps (\<lambda>prev' inp' caps'. match s prev' inp' caps' k)"
| "match (Alt r s) prev inp caps k =
     (case match r prev inp caps k of Some x \<Rightarrow> Some x | None \<Rightarrow> match s prev inp caps k)"
| "match (Star greedy r) prev inp caps k =
     (if greedy
      then (case match r prev inp caps
                   (\<lambda>prev' inp' caps'. if length inp' < length inp
                                       then match (Star greedy r) prev' inp' caps' k else None) of
              Some x \<Rightarrow> Some x
            | None \<Rightarrow> k prev inp caps)
      else (case k prev inp caps of
              Some x \<Rightarrow> Some x
            | None \<Rightarrow> match r prev inp caps
                   (\<lambda>prev' inp' caps'. if length inp' < length inp
                                       then match (Star greedy r) prev' inp' caps' k else None)))"
| "match (Group n r) prev inp caps k =
     match r prev inp caps (\<lambda>prev' inp' caps'. k prev' inp' ((n, between inp inp') # caps'))"
| "match Begin_Text prev inp caps k = (if prev = None then k prev inp caps else None)"
| "match End_Text prev inp caps k = (if inp = [] then k prev inp caps else None)"
| "match Begin_Line prev inp caps k = (if begins_line prev then k prev inp caps else None)"
| "match End_Line prev inp caps k = (if ends_line inp then k prev inp caps else None)"
  by pat_completeness auto

termination
  by (relation "measures [\<lambda>(r, prev, inp, caps, k). size r, \<lambda>(r, prev, inp, caps, k). length inp]") auto

declare match.simps [go_eval]

text \<open>A match at the first position where there is one, with the rest of the text after it.\<close>

fun find_from :: "regex \<Rightarrow> nat option \<Rightarrow> runes \<Rightarrow> (runes \<times> captures \<times> nat option \<times> runes) option" where
  "find_from r prev inp =
     (case match r prev inp [] (\<lambda>prev' inp' caps'. Some (caps', prev', inp')) of
        Some (caps, prev', rest) \<Rightarrow> Some (inp, caps, prev', rest)
      | None \<Rightarrow> (case inp of [] \<Rightarrow> None | (c, bs) # rest \<Rightarrow> find_from r (Some c) rest))"

declare find_from.simps [simp del, go_eval]

text \<open>\<open>FindStringSubmatch\<close>: the groups of the first match.\<close>

definition find_submatch :: "regex \<Rightarrow> string \<Rightarrow> captures option" where [go_eval]:
  "find_submatch r s = map_option (\<lambda>(_, caps, _). caps) (find_from r None (chunks s))"

definition match_string :: "regex \<Rightarrow> string \<Rightarrow> bool" where [go_eval]:
  "match_string r s \<longleftrightarrow> find_from r None (chunks s) \<noteq> None"

definition group :: "nat \<Rightarrow> captures \<Rightarrow> string" where [go_eval]:
  "group n caps = (case map_of caps n of None \<Rightarrow> [] | Some s \<Rightarrow> s)"

text \<open>
  \<open>FindAllStringSubmatch\<close> and \<open>ReplaceAllString\<close> go on behind each match; an expression
  that matched no rune (none of the program's can) would end the search here.
\<close>

lemma match_continues:
  "match r prev inp caps k = Some x \<Longrightarrow>
   \<exists>prev' inp' caps'. length inp' \<le> length inp \<and> k prev' inp' caps' = Some x"
proof (induction r prev inp caps k arbitrary: x rule: match.induct)
  case (2 p prev inp caps k)
  then obtain c bs rest where "inp = (c, bs) # rest" "k (Some c) rest caps = Some x"
    by (auto split: list.splits if_splits)
  then show ?case by (intro exI [of _ "Some c"] exI [of _ rest] exI [of _ caps]) simp
next
  case (3 r s prev inp caps k)
  from "3.prems" have "match r prev inp caps (\<lambda>prev' inp' caps'. match s prev' inp' caps' k) = Some x"
    by simp
  from "3.IH"(2) [OF this] obtain prev1 inp1 caps1 where "length inp1 \<le> length inp"
      and s: "match s prev1 inp1 caps1 k = Some x" by blast
  with "3.IH"(1) [OF s] show ?case by (meson le_trans)
next
  case (5 greedy r prev inp caps k)
  let ?k = "\<lambda>prev' inp' caps'. if length inp' < length inp
              then match (Star greedy r) prev' inp' caps' k else None"
  have k: ?case if "match r prev inp caps ?k = Some x" and "greedy \<or> k prev inp caps = None"
  proof -
    have "\<exists>prev' inp' caps'. length inp' \<le> length inp \<and> ?k prev' inp' caps' = Some x"
      using 5(2,4) that by (cases greedy) blast+
    then obtain prev1 inp1 caps1 where l: "length inp1 < length inp"
        and m: "match (Star greedy r) prev1 inp1 caps1 k = Some x"
      by (auto simp: le_less simp del: match.simps split: if_splits)
    have "\<exists>prev' inp' caps'. length inp' \<le> length inp1 \<and> k prev' inp' caps' = Some x"
      using 5(1,3) that(2) l m by (cases greedy) blast+
    with l show ?thesis by (meson le_trans less_imp_le)
  qed
  consider "k prev inp caps = Some x"
    | "match r prev inp caps ?k = Some x" "greedy \<or> k prev inp caps = None"
    using 5(5) by (auto split: if_splits option.splits)
  then show ?case by cases (use k in blast)+
qed (auto split: option.splits if_splits list.splits)

lemma find_from_shorter:
  "find_from r prev inp = Some (at, caps, prev', rest) \<Longrightarrow> length rest \<le> length at \<and> length at \<le> length inp"
proof (induction inp arbitrary: prev)
  case Nil
  then show ?case
    using match_continues [of r prev "[]" "[]" "\<lambda>prev' inp' caps'. Some (caps', prev', inp')"]
    by (subst (asm) find_from.simps) (fastforce split: option.splits)
next
  case (Cons c inp)
  show ?case
  proof (cases "match r prev (c # inp) [] (\<lambda>prev' inp' caps'. Some (caps', prev', inp'))")
    case None
    with Cons.prems have "find_from r (Some (fst c)) inp = Some (at, caps, prev', rest)"
      by (subst (asm) find_from.simps) (auto split: prod.splits)
    with Cons.IH show ?thesis by fastforce
  next
    case (Some z)
    from Cons.prems have z: "z = (caps, prev', rest)" "at = c # inp"
      unfolding find_from.simps [of r prev "c # inp"] Some by (auto split: prod.splits)
    with match_continues [OF Some] show ?thesis by auto
  qed
qed

function find_all_from :: "regex \<Rightarrow> nat option \<Rightarrow> runes \<Rightarrow> captures list" where
  "find_all_from r prev inp =
     (case find_from r prev inp of
        None \<Rightarrow> []
      | Some (at, caps, prev', rest) \<Rightarrow>
          caps # (if length rest < length inp then find_all_from r prev' rest else []))"
  by pat_completeness auto

termination
  by (relation "measure (\<lambda>(r, prev, inp). length inp)") auto

declare find_all_from.simps [simp del, go_eval]

definition find_all :: "regex \<Rightarrow> string \<Rightarrow> captures list" where [go_eval]:
  "find_all r s = find_all_from r None (chunks s)"

function remove_all_from :: "regex \<Rightarrow> nat option \<Rightarrow> runes \<Rightarrow> runes" where
  "remove_all_from r prev inp =
     (case find_from r prev inp of
        None \<Rightarrow> inp
      | Some (at, caps, prev', rest) \<Rightarrow>
          take (length inp - length at) inp
            @ (if length rest < length inp then remove_all_from r prev' rest else rest))"
  by pat_completeness auto

termination
  by (relation "measure (\<lambda>(r, prev, inp). length inp)") auto

declare remove_all_from.simps [simp del, go_eval]

text \<open>\<open>ReplaceAllString(s, "")\<close>.\<close>

definition remove_all :: "regex \<Rightarrow> string \<Rightarrow> string" where [go_eval]:
  "remove_all r s = unchunk (remove_all_from r None (chunks s))"

section \<open>Building expressions\<close>

definition plus :: "regex \<Rightarrow> regex" where [go_eval]: "plus r = Seq r (Star True r)"
definition optional :: "regex \<Rightarrow> regex" where [go_eval]: "optional r = Alt r Eps"

fun up_to :: "nat \<Rightarrow> regex \<Rightarrow> regex" where
  "up_to 0 r = Eps"
| "up_to (Suc n) r = Alt (Seq r (up_to n r)) Eps"

fun seqs :: "regex list \<Rightarrow> regex" where
  "seqs [] = Eps"
| "seqs [r] = r"
| "seqs (r # s # rs) = Seq r (seqs (s # rs))"

fun alts :: "regex list \<Rightarrow> regex" where
  "alts [] = Rune (\<lambda>_. False)"
| "alts [r] = r"
| "alts (r # s # rs) = Alt r (alts (s # rs))"

text \<open>The literal text, and the same under the flag \<open>i\<close> (Unicode simple folding of ASCII).\<close>

definition lit :: "string \<Rightarrow> regex" where [go_eval]:
  "lit s = seqs (map (\<lambda>c. Rune (\<lambda>r. r = bval c)) s)"

definition swap_case :: "nat \<Rightarrow> nat" where [go_eval]:
  "swap_case r = (if 65 \<le> r \<and> r \<le> 90 then r + 32 else if 97 \<le> r \<and> r \<le> 122 then r - 32 else r)"

definition fold_case :: "(nat \<Rightarrow> bool) \<Rightarrow> nat \<Rightarrow> bool" where [go_eval]:
  "fold_case p r \<longleftrightarrow> p r \<or> p (swap_case r)
     \<or> (r = 383 \<and> (p 115 \<or> p 83)) \<or> (r = 8490 \<and> (p 107 \<or> p 75))"

definition lit_i :: "string \<Rightarrow> regex" where [go_eval]:
  "lit_i s = seqs (map (\<lambda>c. Rune (fold_case (\<lambda>r. r = bval c))) s)"

text \<open>\<open>\s\<close> is tab, newline, form feed, carriage return and space; \<open>.\<close> is no newline.\<close>

definition is_re_space :: "nat \<Rightarrow> bool" where [go_eval]:
  "is_re_space r \<longleftrightarrow> r = 9 \<or> r = 10 \<or> r = 12 \<or> r = 13 \<or> r = 32"

definition space :: regex where [go_eval]: "space = Rune is_re_space"
definition nonspace :: regex where [go_eval]: "nonspace = Rune (\<lambda>r. \<not> is_re_space r)"
definition any_rune :: regex where [go_eval]: "any_rune = Rune (\<lambda>r. r \<noteq> 10)"

text \<open>A bracket expression over ASCII: the letters, the digits and some further characters.\<close>

definition alnum_or :: "string \<Rightarrow> nat \<Rightarrow> bool" where [go_eval]:
  "alnum_or extra r \<longleftrightarrow> (48 \<le> r \<and> r \<le> 57) \<or> (65 \<le> r \<and> r \<le> 90) \<or> (97 \<le> r \<and> r \<le> 122)
     \<or> r \<in> set (map bval extra)"

definition alpha_or :: "string \<Rightarrow> nat \<Rightarrow> bool" where [go_eval]:
  "alpha_or extra r \<longleftrightarrow> (65 \<le> r \<and> r \<le> 90) \<or> (97 \<le> r \<and> r \<le> 122) \<or> r \<in> set (map bval extra)"

declare up_to.simps [go_eval] seqs.simps [go_eval] alts.simps [go_eval]

end
