(* ===== verification/Nx_Artifact.thy ===== *)
theory Nx_Artifact
  imports Regex Catalog Go_Http
begin

text \<open>
  \<open>internal/nxartifact/inspect.go\<close>: what task an uploaded archive belongs to, from request
  headers, from the terminal output in the archive and from the paths of its files. The
  readers and writers of gzip and tar are parameters.
\<close>

section \<open>Archives\<close>

datatype tar_type = Tar_Reg | Tar_Dir | Tar_Other

record tar_item =
  hdr_name :: string
  hdr_type :: tar_type
  hdr_data :: string

text \<open>
  \<open>al_gunzip\<close> is \<open>gzip.NewReader\<close>: it fails on a bad header, or gives the decompressed
  stream. \<open>al_tar\<close> gives the entries \<open>Next\<close> yields, with the bytes that can be read of each,
  and what \<open>Next\<close> reports after them (\<open>None\<close> is \<open>io.EOF\<close>). \<open>al_write\<close> writes a gzipped tar.
\<close>

record archive_lib =
  al_gunzip :: "string \<Rightarrow> goerr + reader"
  al_tar :: "reader \<Rightarrow> tar_item list \<times> goerr option"
  al_write :: "tar_item list \<Rightarrow> goerr + string"

definition max_terminal_bytes :: int where [go_eval]: "max_terminal_bytes = 64 * 1024"
definition max_inspect_bytes :: int where [go_eval]: "max_inspect_bytes = 8388608"
definition max_tar_entries :: nat where [go_eval]: "max_tar_entries = 4000"
definition max_inspect_paths :: nat where [go_eval]: "max_inspect_paths = 256"

definition limit_reader :: "int \<Rightarrow> reader \<Rightarrow> reader" where [go_eval]:
  "limit_reader n r =
     \<lparr>rd_data = limited n (rd_data r),
      rd_err = (if n \<le> int (length (rd_data r)) then None else rd_err r)\<rparr>"

section \<open>Expressions\<close>

definition package_runner :: regex where [go_eval]:
  "package_runner =
     seqs [alts [lit_i ''pnpm'', lit_i ''npm'', lit_i ''npx'', lit_i ''bunx'', lit_i ''yarn''],
           plus space, optional (seqs [alts [lit_i ''exec'', lit_i ''run''], plus space])]"

definition nx_word :: regex where [go_eval]:
  "nx_word = Seq (lit_i ''nx'') (optional (lit_i ''.exe''))"

definition ansi_re :: regex where [go_eval]:
  "ansi_re =
     seqs [Rune (\<lambda>r. r = 27), lit ''['', Star True (Rune (\<lambda>r. (48 \<le> r \<and> r \<le> 57) \<or> r = 59)),
           Rune (alpha_or [])]"

definition nx_run_re :: regex where [go_eval]:
  "nx_run_re =
     seqs [Alt Begin_Text (Rune (\<lambda>r. r = 10)), Star True space, lit ''>'', Star True space, nx_word,
           plus space, lit_i ''run'', plus space, Group 1 (plus nonspace)]"

definition nx_command_re :: regex where [go_eval]:
  "nx_command_re =
     seqs [Begin_Line, Star True space, optional (Seq (lit ''>'') (Star True space)),
           Star True (seqs [Rune (fold_case (alpha_or ''_'')), Star True (Rune (fold_case (alnum_or ''_''))),
                            lit ''='', plus nonspace, plus space]),
           optional package_runner, nx_word, plus space, Group 1 (plus any_rune), End_Line]"

definition nx_target_re :: regex where [go_eval]:
  "nx_target_re =
     seqs [alts [lit_i ''running'', lit_i ''ran'', lit_i ''successfully ran''], plus space, lit_i ''target'',
           plus space, Group 1 (plus nonspace), plus space, lit_i ''for project'', plus space,
           Group 2 (plus nonspace)]"

definition tool_project_re :: regex where [go_eval]:
  "tool_project_re =
     seqs [Begin_Line, Star True space, lit_i ''running'', plus space,
           Group 1 (plus (Rune (fold_case (alnum_or ''._-'')))), plus space, lit_i ''for'', plus space,
           lit_i ''project:'', plus space, Group 2 (plus (Rune (fold_case (alnum_or ''_@./-''))))]"

definition test_result_re :: regex where [go_eval]:
  "test_result_re =
     seqs [Begin_Line, Star True space, alts [lit_i ''pass'', lit_i ''fail''], plus space,
           Group 1 (plus (Rune (fold_case (alnum_or ''_@./-'')))), plus space,
           alts [lit_i ''apps'', lit_i ''libs''], lit ''/'', plus nonspace]"

definition test_summary_re :: regex where [go_eval]:
  "test_summary_re =
     seqs [Begin_Line, Star True space,
           alts [lit_i ''test suites:'', lit_i ''tests:'', lit_i ''test files:'']]"

definition test_command_re :: regex where [go_eval]:
  "test_command_re =
     seqs [Begin_Line, Star True space, lit ''>'', Star True space, optional package_runner,
           alts [lit_i ''jest'', lit_i ''vitest''], Alt space End_Line]"

definition command_re :: regex where [go_eval]:
  "command_re =
     seqs [Begin_Line, Star True space, lit ''>'', plus space,
           Group 1 (Seq any_rune (Star False any_rune)), Star True space, End_Line]"

section \<open>Kinds\<close>

definition kind_from_target :: "unicode_tables \<Rightarrow> string \<Rightarrow> string" where [go_eval]:
  "kind_from_target u target =
     (let t = to_lower u (trim_space target) in
      if t = [] then []
      else if t \<in> set [''e2e'', ''e2e-ci'', ''cypress'', ''playwright'', ''playwright-e2e''] then ''e2e''
      else if t \<in> set [''lint'', ''eslint'', ''prettier'', ''stylelint''] then ''lint''
      else if t \<in> set [''test'', ''test-ci'', ''jest'', ''vitest'', ''unit-test'', ''spec''] then ''test''
      else if t \<in> set [''typecheck'', ''check-types'', ''tsc''] then ''typecheck''
      else if t \<in> set [''build'', ''compile'', ''bundle'', ''package'', ''prerender''] then ''build''
      else if contains t ''e2e'' \<or> contains t ''playwright'' \<or> contains t ''cypress'' then ''e2e''
      else if contains t ''lint'' then ''lint''
      else if contains t ''test'' \<or> contains t ''jest'' \<or> contains t ''vitest'' then ''test''
      else if contains t ''typecheck'' then ''typecheck''
      else if contains t ''build'' \<or> contains t ''compile'' then ''build''
      else t)"

definition path_kind :: "unicode_tables \<Rightarrow> string \<Rightarrow> string option" where [go_eval]:
  "path_kind u p =
     (let l = to_lower u p in
      if contains l ''coverage'' \<or> contains l ''jest'' \<or> contains l ''vitest'' then Some ''test''
      else if contains l ''eslint'' \<or> contains l ''.eslintcache'' then Some ''lint''
      else if contains l ''playwright'' \<or> contains l ''cypress'' then Some ''e2e''
      else if contains l ''/dist/'' \<or> has_prefix l ''dist/'' \<or> contains l ''/.next/''
           \<or> contains l ''/build/'' \<or> contains l ''outputs/dist'' then Some ''build''
      else None)"

text \<open>The first result of a function over a list, as the loops with an early return do.\<close>

fun first_some :: "('a \<Rightarrow> 'b option) \<Rightarrow> 'a list \<Rightarrow> 'b option" where
  "first_some f [] = None"
| "first_some f (x # xs) = (case f x of Some y \<Rightarrow> Some y | None \<Rightarrow> first_some f xs)"

definition kind_from_paths :: "unicode_tables \<Rightarrow> string list \<Rightarrow> string" where [go_eval]:
  "kind_from_paths u paths = (case first_some (path_kind u) paths of Some k \<Rightarrow> k | None \<Rightarrow> [])"

definition command_kind :: "unicode_tables \<Rightarrow> string \<Rightarrow> string" where [go_eval]:
  "command_kind u command =
     (let kind = kind_from_target u command in
      if kind \<in> set [''build'', ''test'', ''lint'', ''e2e'', ''typecheck'', ''serve''] then kind else [])"

section \<open>Parsers of the terminal output\<close>

definition clean_token :: "unicode_tables \<Rightarrow> string \<Rightarrow> string" where [go_eval]:
  "clean_token u token =
     unchunk (trim_right_func
       (\<lambda>r. is_punct_rune u r \<and> r \<noteq> 47 \<and> r \<noteq> 64 \<and> r \<noteq> 45 \<and> r \<noteq> 95 \<and> r \<noteq> 46) (chunks token))"

definition parse_task_token :: "string \<Rightarrow> (string \<times> string \<times> string) option" where [go_eval]:
  "parse_task_token token =
     (case split_at (CHR '':'') token of
        project # target # rest \<Rightarrow>
          if project = [] \<or> target = [] then None
          else Some (project, target, if rest = [] then [] else join_with '':'' rest)
      | _ \<Rightarrow> None)"

definition parse_nx_run :: "unicode_tables \<Rightarrow> string \<Rightarrow> (string \<times> string \<times> string) option" where [go_eval]:
  "parse_nx_run u text =
     (case find_submatch nx_run_re text of
        None \<Rightarrow> None
      | Some m \<Rightarrow> parse_task_token (clean_token u (group 1 m)))"

definition dashed :: "string \<Rightarrow> bool" where [go_eval]: "dashed s = has_prefix s ''-''"

function single_targets :: "string list \<Rightarrow> string list" where
  "single_targets [] = []"
| "single_targets (a # as) =
     (case cut_at (CHR ''='') a of (name, val, has_val) \<Rightarrow>
        if name \<notin> set [''-t'', ''--target'', ''--targets''] then single_targets as
        else if has_val then split_at (CHR '','') val @ single_targets as
        else concat (map (split_at (CHR '','')) (takeWhile (\<lambda>s. \<not> dashed s) as))
               @ single_targets (dropWhile (\<lambda>s. \<not> dashed s) as))"
  by pat_completeness auto

termination
  by (relation "measure length") (auto simp: le_imp_less_Suc length_dropWhile_le)

declare single_targets.simps [go_eval]

definition parse_single_nx_target :: "unicode_tables \<Rightarrow> string list \<Rightarrow> string option" where [go_eval]:
  "parse_single_nx_target u args =
     (case single_targets args of
        [t] \<Rightarrow> if t = [] then None else Some (clean_token u t)
      | _ \<Rightarrow> None)"

definition parse_nx_command :: "unicode_tables \<Rightarrow> string \<Rightarrow> (string \<times> string \<times> string) option" where [go_eval]:
  "parse_nx_command u text =
     (case find_submatch nx_command_re text of
        None \<Rightarrow> None
      | Some m \<Rightarrow>
          (case Go_Strings.fields (group 1 m) of
             f0 # f1 # fs \<Rightarrow>
               if dashed f0 then None
               else if to_lower u f0 \<in> set [''running'', ''ran'', ''successfully''] then None
               else if f0 = ''run'' then parse_task_token (clean_token u f1)
               else if f0 = ''run-many'' then
                 (case parse_single_nx_target u (f1 # fs) of
                    None \<Rightarrow> None
                  | Some target \<Rightarrow> Some ([], target, []))
               else if dashed f1 then None
               else Some (clean_token u f1, clean_token u f0, [])
           | _ \<Rightarrow> None))"

text \<open>\<open>strings.TrimRight(s, ".:")\<close>.\<close>

definition trim_dots :: "string \<Rightarrow> string" where [go_eval]:
  "trim_dots s = rev (dropWhile (\<lambda>c. c = CHR ''.'' \<or> c = CHR '':'') (rev s))"

definition parse_nx_target_line :: "string \<Rightarrow> (string \<times> string) option" where [go_eval]:
  "parse_nx_target_line text =
     (case find_submatch nx_target_re text of
        None \<Rightarrow> None
      | Some m \<Rightarrow> Some (trim_dots (group 2 m), group 1 m))"

definition parse_tool_project :: "unicode_tables \<Rightarrow> string \<Rightarrow> (string \<times> string) option" where [go_eval]:
  "parse_tool_project u text =
     (case find_submatch tool_project_re text of
        None \<Rightarrow> None
      | Some m \<Rightarrow>
          let kind = command_kind u (group 1 m) in
          if kind = [] then None else Some (clean_token u (group 2 m), kind))"

definition parse_test_output :: "unicode_tables \<Rightarrow> string \<Rightarrow> (string \<times> string \<times> string) option" where [go_eval]:
  "parse_test_output u text =
     (case find_submatch test_result_re text of
        Some m \<Rightarrow> Some (clean_token u (group 1 m), ''test'', ''test'')
      | None \<Rightarrow>
          if match_string test_summary_re text \<or> match_string test_command_re text
          then Some ([], ''test'', ''test'') else None)"

definition drop_runner :: "string list \<Rightarrow> string list option" where [go_eval]:
  "drop_runner fs =
     (case fs of
        [] \<Rightarrow> None
      | f0 # rest \<Rightarrow>
          if f0 = ''pnpm'' \<or> f0 = ''npm'' then
            Some (case rest of [] \<Rightarrow> [] | f1 # rest1 \<Rightarrow> if f1 = ''exec'' \<or> f1 = ''run'' then rest1 else rest)
          else if f0 = ''npx'' \<or> f0 = ''bunx'' \<or> f0 = ''yarn'' then Some rest
          else None)"

definition command_of :: "captures \<Rightarrow> string option" where [go_eval]:
  "command_of m =
     (case drop_runner (dropWhile dashed (Go_Strings.fields (group 1 m))) of
        None \<Rightarrow> None
      | Some fs \<Rightarrow>
          let used = takeWhile (\<lambda>f. \<not> dashed f) fs
          in if used = [] then None else Some (join_with '' '' used))"

definition parse_command :: "string \<Rightarrow> string option" where [go_eval]:
  "parse_command text = first_some command_of (rev (find_all command_re text))"

fun project_of_parts :: "string list \<Rightarrow> string option" where
  "project_of_parts (p # q # ps) =
     (if p = ''apps'' \<or> p = ''libs'' then Some q else project_of_parts (q # ps))"
| "project_of_parts _ = None"

definition project_from_paths :: "string list \<Rightarrow> string" where [go_eval]:
  "project_from_paths paths =
     (case first_some (\<lambda>name. project_of_parts (split_at (CHR ''/'') name)) paths of
        Some p \<Rightarrow> p | None \<Rightarrow> [])"

definition strip_ansi :: "string \<Rightarrow> string" where [go_eval]:
  "strip_ansi s = remove_all ansi_re (replace_byte (byte 13) [] s)"

declare first_some.simps [go_eval] project_of_parts.simps [go_eval]

section \<open>Inspection\<close>

text \<open>The chain of parsers: the first that recognises the output decides.\<close>

definition parsed_info :: "unicode_tables \<Rightarrow> string \<Rightarrow> task_info \<Rightarrow> task_info" where [go_eval]:
  "parsed_info u text info =
     (case parse_nx_run u text of
        Some (p, t, c) \<Rightarrow> info\<lparr>ti_project := p, ti_target := t, ti_config := c\<rparr>
      | None \<Rightarrow>
     (case parse_nx_command u text of
        Some (p, t, c) \<Rightarrow> info\<lparr>ti_project := p, ti_target := t, ti_config := c\<rparr>
      | None \<Rightarrow>
     (case parse_tool_project u text of
        Some (p, t) \<Rightarrow> info\<lparr>ti_project := p, ti_target := t\<rparr>
      | None \<Rightarrow>
     (case parse_test_output u text of
        Some (p, t, k) \<Rightarrow> info\<lparr>ti_project := p, ti_target := t, ti_kind := k\<rparr>
      | None \<Rightarrow>
     (case parse_nx_target_line text of
        Some (p, t) \<Rightarrow>
          info\<lparr>ti_project := (if ti_project info = [] then p else ti_project info),
               ti_target := (if ti_target info = [] then t else ti_target info)\<rparr>
      | None \<Rightarrow>
     (case parse_command text of
        Some command \<Rightarrow>
          info\<lparr>ti_target := (if ti_target info = [] then command else ti_target info),
               ti_kind := (if ti_kind info = [] then command_kind u command else ti_kind info)\<rparr>
      | None \<Rightarrow> info))))))"

definition finalize :: "unicode_tables \<Rightarrow> task_info \<Rightarrow> string \<Rightarrow> string list \<Rightarrow> task_info" where [go_eval]:
  "finalize u info terminal paths =
     (let i1 = parsed_info u (strip_ansi terminal) info;
          i2 = (if ti_project i1 = [] then i1\<lparr>ti_project := project_from_paths paths\<rparr> else i1);
          i3 = (if ti_kind i2 = [] then i2\<lparr>ti_kind := kind_from_target u (ti_target i2)\<rparr> else i2);
          pk = kind_from_paths u paths;
          i4 = (if ti_kind i3 = [] then i3\<lparr>ti_kind := pk\<rparr> else i3)
      in if ti_target i4 = [] then i4\<lparr>ti_target := pk\<rparr> else i4)"

definition item_name :: "string \<Rightarrow> string" where [go_eval]:
  "item_name n = trim_prefix (clean_rooted (''/'' @ replace_byte backslash ''/'' n)) ''/''"

text \<open>The loop over the entries: the terminal output, the paths before it, whether it was found.\<close>

fun scan_items :: "tar_item list \<Rightarrow> string list \<Rightarrow> string \<times> string list \<times> bool" where
  "scan_items [] paths = ([], paths, False)"
| "scan_items (it # its) paths =
     (let name = item_name (hdr_name it); base = path_base name in
      if base = ''terminalOutput'' \<or> name = ''terminalOutput''
      then (limited max_terminal_bytes (hdr_data it), paths, True)
      else if base = ''code'' \<or> name = ''code'' \<or> base = ''source'' then scan_items its paths
      else scan_items its
             (if (hdr_type it = Tar_Reg \<or> hdr_type it = Tar_Dir) \<and> name \<noteq> [] \<and> name \<noteq> ''.''
                 \<and> length paths < max_inspect_paths
              then paths @ [name] else paths))"

declare scan_items.simps [go_eval]

definition inspect_reader ::
  "unicode_tables \<Rightarrow> archive_lib \<Rightarrow> reader \<Rightarrow> task_info \<times> goerr option" where [go_eval]:
  "inspect_reader u al r =
     (let magic = take 2 (rd_data r);
          src = (if magic = [byte 31, byte 139] then al_gunzip al (rd_data r) else Inr r)
      in case src of
           Inl e \<Rightarrow> (empty_task, Some e)
         | Inr s \<Rightarrow>
             (case al_tar al (limit_reader max_inspect_bytes s) of (items, err) \<Rightarrow>
                (case scan_items (take max_tar_entries items) [] of (terminal, paths, found) \<Rightarrow>
                   (finalize u empty_task terminal paths,
                    if found \<or> max_tar_entries \<le> length items then None else err))))"

definition inspect :: "unicode_tables \<Rightarrow> archive_lib \<Rightarrow> reader \<Rightarrow> task_info" where [go_eval]:
  "inspect u al r = fst (inspect_reader u al r)"

section \<open>Headers\<close>

definition first_header :: "header \<Rightarrow> string list \<Rightarrow> string" where [go_eval]:
  "first_header h names =
     (case first_some (\<lambda>n. let v = trim_space (header_get h n) in if v \<noteq> [] then Some v else None) names of
        Some v \<Rightarrow> v | None \<Rightarrow> [])"

definition from_headers :: "unicode_tables \<Rightarrow> header \<Rightarrow> task_info" where [go_eval]:
  "from_headers u h =
     (let target = first_header h [''X-Nx-Target'', ''Nx-Target''] in
      \<lparr>ti_project = first_header h [''X-Nx-Project'', ''Nx-Project''],
       ti_target = target,
       ti_config = first_header h [''X-Nx-Configuration'', ''Nx-Configuration''],
       ti_kind = kind_from_target u target\<rparr>)"

definition merge_info :: "unicode_tables \<Rightarrow> task_info \<Rightarrow> task_info \<Rightarrow> task_info" where [go_eval]:
  "merge_info u primary fallback =
     (let target = (if ti_target primary \<noteq> [] then ti_target primary else ti_target fallback) in
      \<lparr>ti_project = (if ti_project primary \<noteq> [] then ti_project primary else ti_project fallback),
       ti_target = target,
       ti_config = (if ti_config primary \<noteq> [] then ti_config primary else ti_config fallback),
       ti_kind = (if ti_kind primary \<noteq> [] then ti_kind primary
                  else if ti_kind fallback \<noteq> [] then ti_kind fallback
                  else kind_from_target u target)\<rparr>)"

section \<open>Packing\<close>

definition be_bytes32 :: "nat \<Rightarrow> string" where [go_eval]:
  "be_bytes32 n = [byte (n div 16777216 mod 256), byte (n div 65536 mod 256), byte (n div 256 mod 256),
                   byte (n mod 256)]"

definition pack_items :: "string list \<Rightarrow> string \<Rightarrow> nat \<Rightarrow> (string, string) gomap \<Rightarrow> tar_item list" where [go_eval]:
  "pack_items ord terminal code files =
     map (\<lambda>(n, d). \<lparr>hdr_name = n, hdr_type = Tar_Reg, hdr_data = d\<rparr>) (gvisit ord files)
     @ [\<lparr>hdr_name = ''terminalOutput'', hdr_type = Tar_Reg, hdr_data = terminal\<rparr>,
        \<lparr>hdr_name = ''code'', hdr_type = Tar_Reg, hdr_data = be_bytes32 code\<rparr>]"

definition pack ::
  "archive_lib \<Rightarrow> string list \<Rightarrow> string \<Rightarrow> nat \<Rightarrow> (string, string) gomap \<Rightarrow> goerr + string" where [go_eval]:
  "pack al ord terminal code files = al_write al (pack_items ord terminal code files)"

section \<open>Scanning an archive\<close>

lemma trim_prefix_slash: "trim_prefix (CHR ''/'' # s) ''/'' = s"
  using trim_prefix_append [of "''/''" s] by simp

lemma item_name_parts:
  "item_name n = join_with ''/'' (clean_parts [] (split_at (CHR ''/'') (''/'' @ replace_byte backslash ''/'' n)))"
  by (simp only: item_name_def clean_rooted_def trim_prefix_slash)

lemma split_join_in:
  assumes "p \<in> set (split_at c (join_with [c] ps))" and "\<And>q. q \<in> set ps \<Longrightarrow> c \<notin> set q" and "ps \<noteq> []"
  shows "p \<in> set ps"
  using assms by (simp add: split_join)

lemma clean_parts_sub: "set (clean_parts acc ps) \<subseteq> set acc \<union> set ps"
  by (induction acc ps rule: clean_parts.induct) (auto dest: in_set_dropD)

text \<open>No recorded path has an empty, a dot or a dot-dot element.\<close>

lemma item_name_clean:
  assumes "item_name n \<noteq> []" and "p \<in> set (split_at (CHR ''/'') (item_name n))"
  shows "p \<noteq> [] \<and> p \<noteq> ''.'' \<and> p \<noteq> ''..''"
proof -
  let ?ps = "clean_parts [] (split_at (CHR ''/'') (''/'' @ replace_byte backslash ''/'' n))"
  have ne: "?ps \<noteq> []" using assms(1) by (auto simp: item_name_parts)
  have slash: "CHR ''/'' \<notin> set q" if "q \<in> set ?ps" for q
  proof -
    have "q \<in> set (split_at (CHR ''/'') (''/'' @ replace_byte backslash ''/'' n))"
      using that clean_parts_sub [of "[]" "split_at (CHR ''/'') (''/'' @ replace_byte backslash ''/'' n)"]
      by (simp only: list.set) blast
    then show ?thesis by (rule split_at_pieces)
  qed
  from split_join_in [OF assms(2) [unfolded item_name_parts] slash ne] have "p \<in> set ?ps" .
  from clean_parts_no_dots [OF this] show ?thesis by simp
qed

lemma scan_items_spec:
  "scan_items its paths = (tm, ps, found) \<Longrightarrow> length paths \<le> max_inspect_paths \<Longrightarrow>
   length ps \<le> max_inspect_paths \<and> int (length tm) \<le> max_terminal_bytes
   \<and> set ps \<subseteq> set paths \<union> {item_name (hdr_name it) | it. it \<in> set its \<and> item_name (hdr_name it) \<noteq> []}"
proof (induction its paths rule: scan_items.induct)
  case (1 paths)
  then show ?case by (simp add: max_terminal_bytes_def)
next
  case (2 it its paths)
  let ?n = "item_name (hdr_name it)"
  consider "path_base ?n = ''terminalOutput'' \<or> ?n = ''terminalOutput''"
    | "\<not> (path_base ?n = ''terminalOutput'' \<or> ?n = ''terminalOutput'')"
      "path_base ?n = ''code'' \<or> ?n = ''code'' \<or> path_base ?n = ''source''"
    | "\<not> (path_base ?n = ''terminalOutput'' \<or> ?n = ''terminalOutput'')"
      "\<not> (path_base ?n = ''code'' \<or> ?n = ''code'' \<or> path_base ?n = ''source'')"
    by blast
  then show ?case
  proof cases
    case 1
    with 2(3,4) show ?thesis
      by (auto simp: Let_def limited_def max_terminal_bytes_def)
  next
    case 2
    with \<open>scan_items (it # its) paths = _\<close> have "scan_items its paths = (tm, ps, found)"
      by (simp only: scan_items.simps Let_def if_False if_True)
    with "2.IH"(1) [OF refl refl 2] \<open>length paths \<le> _\<close> show ?thesis by auto
  next
    case 3
    let ?p = "if (hdr_type it = Tar_Reg \<or> hdr_type it = Tar_Dir) \<and> ?n \<noteq> [] \<and> ?n \<noteq> ''.''
        \<and> length paths < max_inspect_paths then paths @ [?n] else paths"
    from 3 \<open>scan_items (it # its) paths = _\<close> have "scan_items its ?p = (tm, ps, found)"
      by (simp only: scan_items.simps Let_def if_False if_True)
    moreover have "length ?p \<le> max_inspect_paths" using \<open>length paths \<le> _\<close> by simp
    ultimately show ?thesis using "2.IH"(2) [OF refl refl 3] by (auto split: if_splits)
  qed
qed

text \<open>
  C10: inspection is bounded and its paths are clean. Whatever the archive, at most 256 paths
  and 64 KiB of terminal output are kept, and no path that is kept has an empty, a \<open>.\<close> or a
  \<open>..\<close> element.
\<close>

theorem scan_bounded:
  assumes "scan_items items [] = (terminal, paths, found)"
  shows "length paths \<le> 256 \<and> length terminal \<le> 65536
    \<and> (\<forall>name \<in> set paths. \<forall>p \<in> set (split_at (CHR ''/'') name). p \<noteq> [] \<and> p \<noteq> ''.'' \<and> p \<noteq> ''..'')"
  using scan_items_spec [OF assms]
  by (auto simp: max_inspect_paths_def max_terminal_bytes_def dest!: subsetD item_name_clean)

text \<open>Files that are neither terminal output, exit code nor source marker.\<close>

definition plain_name :: "string \<Rightarrow> bool" where [go_eval]:
  "plain_name n \<longleftrightarrow> item_name n \<noteq> ''terminalOutput'' \<and> item_name n \<noteq> ''code''
     \<and> path_base (item_name n) \<notin> set [''terminalOutput'', ''code'', ''source'']"

definition kept_paths :: "string list \<Rightarrow> string list" where [go_eval]:
  "kept_paths names = filter (\<lambda>n. n \<noteq> [] \<and> n \<noteq> ''.'') (map item_name names)"

lemma scan_files:
  "\<forall>(n, d) \<in> set fs. plain_name n \<Longrightarrow> length paths \<le> max_inspect_paths \<Longrightarrow>
   scan_items (map (\<lambda>(n, d). \<lparr>hdr_name = n, hdr_type = Tar_Reg, hdr_data = d\<rparr>) fs @ rest) paths
     = scan_items rest (take max_inspect_paths (paths @ kept_paths (map fst fs)))"
proof (induction fs arbitrary: paths)
  case Nil
  then show ?case by (simp add: kept_paths_def)
next
  case (Cons f fs)
  obtain n d where f: "f = (n, d)" by force
  let ?n = "item_name n"
  let ?p = "if ?n \<noteq> [] \<and> ?n \<noteq> ''.'' \<and> length paths < max_inspect_paths then paths @ [?n] else paths"
  have plain: "\<not> (path_base ?n = ''terminalOutput'' \<or> ?n = ''terminalOutput'')"
    "\<not> (path_base ?n = ''code'' \<or> ?n = ''code'' \<or> path_base ?n = ''source'')"
    using Cons.prems(1) f by (auto simp: plain_name_def)
  have "scan_items (map (\<lambda>(n, d). \<lparr>hdr_name = n, hdr_type = Tar_Reg, hdr_data = d\<rparr>) (f # fs) @ rest) paths
      = scan_items (map (\<lambda>(n, d). \<lparr>hdr_name = n, hdr_type = Tar_Reg, hdr_data = d\<rparr>) fs @ rest) ?p"
    using plain by (simp add: f Let_def)
  also have "\<dots> = scan_items rest (take max_inspect_paths (?p @ kept_paths (map fst fs)))"
    using Cons.prems by (intro Cons.IH) auto
  also have "take max_inspect_paths (?p @ kept_paths (map fst fs))
      = take max_inspect_paths (paths @ kept_paths (map fst (f # fs)))"
    using Cons.prems(2) by (auto simp: f kept_paths_def take_Cons')
  finally show ?case .
qed

text \<open>What the writers and readers of archives do for one list of entries.\<close>

definition archive_ok :: "archive_lib \<Rightarrow> tar_item list \<Rightarrow> bool" where
  "archive_ok al items \<longleftrightarrow> (\<exists>bytes t. al_write al items = Inr bytes
     \<and> take 2 bytes = [byte 31, byte 139] \<and> al_gunzip al bytes = Inr \<lparr>rd_data = t, rd_err = None\<rparr>
     \<and> int (length t) \<le> max_inspect_bytes \<and> al_tar al \<lparr>rd_data = t, rd_err = None\<rparr> = (items, None))"

lemma limit_reader_id:
  "int (length t) \<le> n \<Longrightarrow> limit_reader n \<lparr>rd_data = t, rd_err = None\<rparr> = \<lparr>rd_data = t, rd_err = None\<rparr>"
  by (auto simp: limit_reader_def limited_def)


section \<open>The line Nx prints\<close>

text \<open>The runes of an ASCII text.\<close>

definition asc :: "string \<Rightarrow> runes" where
  "asc s = map (\<lambda>c. (bval c, [c])) s"

lemma asc_simps [simp]: "asc [] = []" "asc (c # s) = (bval c, [c]) # asc s" "asc (s @ t) = asc s @ asc t"
  by (simp_all add: asc_def)

lemma chunks_ascii_append: "is_ascii s \<Longrightarrow> chunks (s @ t) = asc s @ chunks t"
proof (induction s)
  case (Cons c s)
  then have "decode_rune c (s @ t) = (bval c, 1)" by (simp add: decode_rune_def Let_def)
  with Cons show ?case by simp
qed simp

lemma unchunk_asc [simp]: "unchunk (asc s) = s"
  by (induction s) (simp_all add: asc_def unchunk_def)

lemma star_stop:
  "inp = [] \<or> \<not> p (fst (hd inp)) \<Longrightarrow> match (Star True (Rune p)) prev inp caps k = k prev inp caps"
  by (cases inp) auto

lemma star_Cons:
  "p r \<Longrightarrow> match (Star True (Rune p)) prev ((r, bs) # inp) caps k
     = (case match (Star True (Rune p)) (Some r) inp caps k of
          Some x \<Rightarrow> Some x | None \<Rightarrow> k prev ((r, bs) # inp) caps)"
  by (subst match.simps) (simp del: match.simps(5))

lemma star_all:
  "list_all (\<lambda>x. p (fst x)) xs \<Longrightarrow> inp = [] \<or> \<not> p (fst (hd inp)) \<Longrightarrow>
   (\<And>prev'. \<exists>y. k prev' inp caps = Some y \<and> P y) \<Longrightarrow>
   \<exists>y. match (Star True (Rune p)) prev (xs @ inp) caps k = Some y \<and> P y"
proof (induction xs arbitrary: prev)
  case Nil
  then show ?case using star_stop [of inp p prev caps k] by simp
next
  case (Cons x xs)
  obtain r bs where x: "x = (r, bs)" by force
  from Cons have "\<exists>y. match (Star True (Rune p)) (Some r) (xs @ inp) caps k = Some y \<and> P y" by simp
  then show ?case using star_Cons [of p r prev bs "xs @ inp" caps k] Cons.prems(1) x by auto
qed

text \<open>The runes of the line, as numbers.\<close>

lemma line_runes:
  "bval (CHR ''>'') = 62" "bval (CHR '' '') = 32" "bval (CHR ''n'') = 110" "bval (CHR ''x'') = 120"
  "bval (CHR ''r'') = 114" "bval (CHR ''u'') = 117" "bval (CHR ''.'') = 46" "bval (CHR ''e'') = 101"
  "is_re_space 32" "is_re_space 10" "\<not> is_re_space 62" "\<not> is_re_space 110" "\<not> is_re_space 114"
  by (simp_all add: bval_def is_re_space_def)

lemma nx_run_match:
  assumes "is_ascii (c # cs)" and "list_all (\<lambda>c. \<not> is_re_space (bval c)) (c # cs)"
  shows "\<exists>y. match nx_run_re None (asc (''> nx run '') @ asc (c # cs) @ (10, bs) # inp) []
      (\<lambda>prev' inp' caps'. Some (caps', prev', inp')) = Some y \<and> fst y = [(1, c # cs)]"
proof -
  have all: "list_all (\<lambda>x. \<not> is_re_space (fst x)) (asc cs)"
    using assms(2) by (simp add: asc_def list_all_iff)
  have btw: "between ((bval c, [c]) # asc cs @ (10, bs) # inp) ((10, bs) # inp) = c # cs"
    by (simp add: between_def unchunk_def asc_def comp_def)
  have "\<exists>y. match (Star True (Rune (\<lambda>r. \<not> is_re_space r))) (Some (bval c)) (asc cs @ (10, bs) # inp) []
      (\<lambda>prev' inp' caps'. Some ((1, between ((bval c, [c]) # asc cs @ (10, bs) # inp) inp') # caps', prev', inp'))
      = Some y \<and> fst y = [(1, c # cs)]"
    by (rule star_all [OF all]) (simp_all add: line_runes btw)
  then obtain y where y: "match (Star True (Rune (\<lambda>r. \<not> is_re_space r))) (Some (bval c)) (asc cs @ (10, bs) # inp) []
      (\<lambda>prev' inp' caps'. Some ((1, between ((bval c, [c]) # asc cs @ (10, bs) # inp) inp') # caps', prev', inp'))
      = Some y" "fst y = [(1, c # cs)]" by blast
  then show ?thesis
    using assms(2)
    by (simp add: nx_run_re_def nx_word_def plus_def optional_def lit_def lit_i_def space_def nonspace_def
        star_Cons star_stop fold_case_def swap_case_def line_runes del: match.simps(5))
qed

lemma nx_run_submatch:
  assumes "is_ascii (c # cs)" and "list_all (\<lambda>c. \<not> is_re_space (bval c)) (c # cs)"
  shows "find_submatch nx_run_re (''> nx run '' @ (c # cs) @ newline # rest) = Some [(1, c # cs)]"
proof -
  have pre: "is_ascii (''> nx run '' @ (c # cs) @ [newline])"
    using assms(1) by (simp add: bval_def newline_def byte_def)
  have "chunks (''> nx run '' @ (c # cs) @ newline # rest)
      = asc (''> nx run '' @ (c # cs) @ [newline]) @ chunks rest"
    using chunks_ascii_append [OF pre, of rest] by simp
  also have "\<dots> = asc ''> nx run '' @ asc (c # cs) @ (10, [newline]) # chunks rest"
    by (simp add: newline_def)
  finally have ch: "chunks (''> nx run '' @ (c # cs) @ newline # rest)
      = asc ''> nx run '' @ asc (c # cs) @ (10, [newline]) # chunks rest" .
  obtain y where "match nx_run_re None (asc ''> nx run '' @ asc (c # cs) @ (10, [newline]) # chunks rest) []
      (\<lambda>prev' inp' caps'. Some (caps', prev', inp')) = Some y" "fst y = [(1, c # cs)]"
    using nx_run_match [OF assms] by blast
  then show ?thesis unfolding find_submatch_def ch
    by (subst find_from.simps) (cases y, simp)
qed

text \<open>
  The characters at the end of a token that are not trimmed off it.
\<close>

definition keeps_end :: "string \<Rightarrow> bool" where [go_eval]:
  "keeps_end s \<longleftrightarrow> s \<noteq> []
     \<and> (bval (last s) \<notin> set latin1_punct \<or> bval (last s) \<in> {47, 64, 45, 95, 46})"

lemma clean_token_id: "is_ascii s \<Longrightarrow> keeps_end s \<Longrightarrow> clean_token u s = s"
proof (cases s rule: rev_cases)
  case (snoc ys y)
  assume "is_ascii s" "keeps_end s"
  have ch: "chunks s = asc ys @ [(bval y, [y])]"
    using chunks_ascii [OF \<open>is_ascii s\<close>] snoc by (simp add: asc_def)
  have "is_punct_rune u (bval y) \<longrightarrow> bval y \<in> {47, 64, 45, 95, 46}"
    using \<open>keeps_end s\<close> snoc by (auto simp: keeps_end_def is_punct_rune_def)
  then have "trim_right_func
       (\<lambda>r. is_punct_rune u r \<and> r \<noteq> 47 \<and> r \<noteq> 64 \<and> r \<noteq> 45 \<and> r \<noteq> 95 \<and> r \<noteq> 46) (chunks s) = chunks s"
    unfolding ch by (auto simp: trim_right_func_def)
  then show ?thesis by (simp add: clean_token_def)
qed (simp add: keeps_end_def)

lemma task_label_token:
  assumes "ti_project t \<noteq> []" and "ti_target t \<noteq> []"
    and "CHR '':'' \<notin> set (ti_project t)" and "CHR '':'' \<notin> set (ti_target t)"
  shows "parse_task_token (task_label t) = Some (ti_project t, ti_target t, ti_config t)"
proof (cases "ti_config t = []")
  case True
  then have "split_at (CHR '':'') (task_label t) = [ti_project t, ti_target t]"
    using assms by (simp add: task_label_def split_at_append split_at_absent)
  with assms True show ?thesis by (simp add: parse_task_token_def)
next
  case False
  then have "split_at (CHR '':'') (task_label t)
      = ti_project t # ti_target t # split_at (CHR '':'') (ti_config t)"
    using assms by (simp add: task_label_def split_at_append)
  with assms show ?thesis by (simp add: parse_task_token_def join_split)
qed

text \<open>
  The label of a task and its token are inverse. For a project and a target without
  colons, parsing the label that the dashboard shows gives back project, target and
  configuration, whatever the configuration contains.
\<close>

theorem task_token_roundtrip:
  assumes "ti_project t \<noteq> []" and "ti_target t \<noteq> []"
    and "CHR '':'' \<notin> set (ti_project t)" and "CHR '':'' \<notin> set (ti_target t)"
  shows "parse_task_token (task_label t) = Some (ti_project t, ti_target t, ti_config t)"
  using assms by (rule task_label_token)

section \<open>Escape sequences\<close>

lemma ansi_none: "list_all (\<lambda>x. fst x \<noteq> 27) inp \<Longrightarrow> find_from ansi_re prev inp = None"
proof (induction inp arbitrary: prev)
  case Nil
  show ?case by (subst find_from.simps) (simp add: ansi_re_def)
next
  case (Cons x inp)
  then show ?case by (subst find_from.simps) (auto simp: ansi_re_def split: prod.splits)
qed

text \<open>ASCII without escape and carriage return.\<close>

definition plain_text :: "string \<Rightarrow> bool" where [go_eval]:
  "plain_text s \<longleftrightarrow> list_all (\<lambda>c. bval c < 128 \<and> bval c \<noteq> 27 \<and> bval c \<noteq> 13) s"

lemma plain_text_ascii: "plain_text s \<Longrightarrow> is_ascii s"
  by (auto simp: plain_text_def is_ascii_def list_all_iff)

lemma replace_byte_absent: "c \<notin> set s \<Longrightarrow> replace_byte c r s = s"
  by (induction s) (auto simp: replace_byte_def)

lemma strip_ansi_plain:
  assumes "plain_text s"
  shows "strip_ansi s = s"
proof -
  have "byte 13 \<notin> set s" using assms by (auto simp: plain_text_def list_all_iff)
  then have cr: "replace_byte (byte 13) [] s = s" by (rule replace_byte_absent)
  have "find_from ansi_re None (chunks s) = None"
    unfolding chunks_ascii [OF plain_text_ascii [OF assms]]
    using assms by (intro ansi_none) (auto simp: plain_text_def list_all_iff)
  then show ?thesis
    unfolding strip_ansi_def cr by (simp add: remove_all_def remove_all_from.simps)
qed

text \<open>
  What Nx prints is what is recorded. When the terminal output begins with
  \<open>> nx run project:target:configuration\<close>, the inspected task has exactly that project, target
  and configuration, whatever the rest of the output and the paths say; its kind is the one
  of the target, or else that of the paths.
\<close>

theorem nx_run_recorded:
  assumes "ti_project t \<noteq> []" and "ti_target t \<noteq> []"
    and "CHR '':'' \<notin> set (ti_project t)" and "CHR '':'' \<notin> set (ti_target t)"
    and "plain_text (task_label t)" and "list_all (\<lambda>c. \<not> is_re_space (bval c)) (task_label t)"
    and "keeps_end (task_label t)" and "plain_text rest"
  shows "finalize u empty_task (''> nx run '' @ task_label t @ newline # rest) paths
       = t\<lparr>ti_kind := (if kind_from_target u (ti_target t) = [] then kind_from_paths u paths
                       else kind_from_target u (ti_target t))\<rparr>"
proof -
  let ?text = "''> nx run '' @ task_label t @ newline # rest"
  obtain c cs where l: "task_label t = c # cs"
    using assms(7) by (cases "task_label t") (auto simp: keeps_end_def)
  have a: "is_ascii (task_label t)" using assms(5) by (rule plain_text_ascii)
  have "find_submatch nx_run_re ?text = Some [(1, task_label t)]"
    using nx_run_submatch [of c cs rest] a assms(6) by (simp only: l)
  then have run: "parse_nx_run u ?text = Some (ti_project t, ti_target t, ti_config t)"
    using clean_token_id [OF a assms(7), of u] task_label_token [OF assms(1-4)]
    by (simp add: parse_nx_run_def group_def)
  have "plain_text ?text"
    using assms(5,8) by (auto simp: plain_text_def newline_def bval_def byte_def)
  then have "strip_ansi ?text = ?text" by (rule strip_ansi_plain)
  then have "parsed_info u (strip_ansi ?text) empty_task
      = \<lparr>ti_project = ti_project t, ti_target = ti_target t, ti_config = ti_config t, ti_kind = []\<rparr>"
    by (simp only: parsed_info_def run) (simp add: empty_task_def)
  then show ?thesis using assms(1,2) unfolding finalize_def Let_def by simp
qed


section \<open>Concrete instances\<close>

definition example_label :: task_info where [go_eval]:
  "example_label = \<lparr>ti_project = ''web'', ti_target = ''build'', ti_config = ''prod'', ti_kind = ''build''\<rparr>"

theorem task_token_roundtrip_witness:
  "parse_task_token ''web:build:prod'' = Some (''web'', ''build'', ''prod'')"
  using task_token_roundtrip [of example_label] by (simp add: example_label_def task_label_def)

theorem nx_run_recorded_witness:
  "finalize ascii_tables empty_task (''> nx run web:build:prod'' @ newline # ''ok'') [] = example_label"
proof -
  have l: "task_label example_label = ''web:build:prod''"
    by (simp add: example_label_def task_label_def)
  have k: "kind_from_target ascii_tables ''build'' = ''build''"
    by (simp add: go_eval ascii_tables_def)
  have "finalize ascii_tables empty_task (''> nx run '' @ task_label example_label @ newline # ''ok'') []
      = example_label\<lparr>ti_kind := (if kind_from_target ascii_tables (ti_target example_label) = []
          then kind_from_paths ascii_tables [] else kind_from_target ascii_tables (ti_target example_label))\<rparr>"
    by (rule nx_run_recorded) (simp_all add: l, simp_all add: example_label_def plain_text_def keeps_end_def
        is_re_space_def latin1_punct_def bval_def)
  then show ?thesis unfolding l by (simp add: k example_label_def)
qed

definition example_files :: "(string, string) gomap" where [go_eval]:
  "example_files = [(''outputs/dist/main.js'', ''x'')]"

definition example_items :: "tar_item list" where [go_eval]:
  "example_items = pack_items [''outputs/dist/main.js''] ''ok'' 0 example_files"

text \<open>An archive format that knows one archive.\<close>

definition example_archive :: archive_lib where [go_eval]:
  "example_archive =
     \<lparr>al_gunzip = (\<lambda>_. Inr \<lparr>rd_data = ''tar'', rd_err = None\<rparr>),
      al_tar = (\<lambda>_. (example_items, None)),
      al_write = (\<lambda>_. Inr [byte 31, byte 139])\<rparr>"


theorem scan_bounded_witness:
  "\<exists>t ps f. scan_items example_items [] = (t, ps, f) \<and> length ps \<le> 256"
proof -
  obtain t ps f where r: "scan_items example_items [] = (t, ps, f)" by (metis prod_cases3)
  from scan_bounded [OF r] r show ?thesis by blast
qed

end
