(* ===== verification/Metrics.thy ===== *)
theory Metrics
  imports Go_Prelude
begin

text \<open>
  \<open>internal/metrics/metrics.go\<close>: counts, bytes and a window of the last 512 durations of reads
  and writes, and the percentiles the dashboard shows. A nil collector is \<open>None\<close>.
\<close>

section \<open>State and operations\<close>

definition sample_limit :: nat where [go_eval]: "sample_limit = 512"

record operation =
  op_count :: int
  op_bytes :: int
  op_samples :: "duration list"

record collector =
  co_reads :: operation
  co_writes :: operation

record operation_stats =
  sm_count :: int
  sm_bytes :: int
  sm_samples :: int
  sm_p50 :: duration
  sm_p95 :: duration

record metrics_snapshot =
  sn_reads :: operation_stats
  sn_writes :: operation_stats

definition new_operation :: operation where [go_eval]:
  "new_operation = \<lparr>op_count = 0, op_bytes = 0, op_samples = []\<rparr>"

definition new_collector :: collector where [go_eval]:
  "new_collector = \<lparr>co_reads = new_operation, co_writes = new_operation\<rparr>"

definition observe :: "duration \<Rightarrow> int \<Rightarrow> operation \<Rightarrow> operation" where [go_eval]:
  "observe d b op =
     (let d' = (if d < 0 then 0 else d);
          kept = (if length (op_samples op) = sample_limit then tl (op_samples op) else op_samples op)
      in \<lparr>op_count = wrap64 (op_count op + 1),
          op_bytes = (if b > 0 then wrap64 (op_bytes op + b) else op_bytes op),
          op_samples = kept @ [d']\<rparr>)"

definition observe_read :: "duration \<Rightarrow> int \<Rightarrow> collector option \<Rightarrow> collector option" where [go_eval]:
  "observe_read d b c = map_option (\<lambda>m. m\<lparr>co_reads := observe d b (co_reads m)\<rparr>) c"

definition observe_write :: "duration \<Rightarrow> int \<Rightarrow> collector option \<Rightarrow> collector option" where [go_eval]:
  "observe_write d b c = map_option (\<lambda>m. m\<lparr>co_writes := observe d b (co_writes m)\<rparr>) c"

text \<open>The index is computed in \<open>int\<close> and is in range for a percentile between 0 and 100.\<close>

definition percentile :: "duration list \<Rightarrow> nat \<Rightarrow> duration" where [go_eval]:
  "percentile samples p = (if samples = [] then 0 else samples ! ((length samples - 1) * p div 100))"

definition summarize :: "operation \<Rightarrow> operation_stats" where [go_eval]:
  "summarize op =
     (let samples = sort (op_samples op)
      in \<lparr>sm_count = op_count op, sm_bytes = op_bytes op, sm_samples = int (length samples),
          sm_p50 = percentile samples 50, sm_p95 = percentile samples 95\<rparr>)"

definition empty_stats :: operation_stats where [go_eval]:
  "empty_stats = \<lparr>sm_count = 0, sm_bytes = 0, sm_samples = 0, sm_p50 = 0, sm_p95 = 0\<rparr>"

definition metrics_snapshot :: "collector option \<Rightarrow> metrics_snapshot" where [go_eval]:
  "metrics_snapshot c =
     (case c of
        None \<Rightarrow> \<lparr>sn_reads = empty_stats, sn_writes = empty_stats\<rparr>
      | Some m \<Rightarrow> \<lparr>sn_reads = summarize (co_reads m), sn_writes = summarize (co_writes m)\<rparr>)"

section \<open>The window\<close>

definition observe_all :: "(duration \<times> int) list \<Rightarrow> operation \<Rightarrow> operation" where [go_eval]:
  "observe_all obs op = foldl (\<lambda>op (d, b). observe d b op) op obs"

lemma observe_all_snoc: "observe_all (obs @ [(d, b)]) op = observe d b (observe_all obs op)"
  by (simp add: observe_all_def)

lemma window_samples:
  "op_samples (observe_all obs new_operation)
     = drop (length obs - sample_limit) (map (\<lambda>(d, _). max 0 d) obs)"
proof (induction obs rule: rev_induct)
  case Nil
  show ?case by (simp add: observe_all_def new_operation_def)
next
  case (snoc x obs)
  obtain d b where x: "x = (d, b)" by force
  let ?w = "op_samples (observe_all obs new_operation)"
  have len: "length ?w = min (length obs) sample_limit" using snoc by simp
  show ?case
  proof (cases "length obs < sample_limit")
    case True
    with len have "length ?w \<noteq> sample_limit" by simp
    with True snoc show ?thesis
      by (simp add: x observe_all_snoc observe_def Let_def max_def)
  next
    case False
    then have "length ?w = sample_limit" using len by simp
    moreover have "tl ?w = drop (Suc (length obs) - sample_limit) (map (\<lambda>(d, _). max 0 d) obs)"
      unfolding snoc using False by (simp add: tl_drop drop_Suc Suc_diff_le)
    ultimately show ?thesis using False
      by (simp add: x observe_all_snoc observe_def Let_def max_def sample_limit_def)
  qed
qed

lemma window_count:
  "int (length obs) < 2 ^ 63 \<Longrightarrow> op_count (observe_all obs new_operation) = int (length obs)"
proof (induction obs rule: rev_induct)
  case (snoc x obs)
  then show ?case
    by (cases x) (simp add: observe_all_snoc observe_def Let_def wrap64_id in64_def)
qed (simp add: observe_all_def new_operation_def)

section \<open>Percentiles\<close>

lemma percentile_index: "p \<le> 100 \<Longrightarrow> xs \<noteq> [] \<Longrightarrow> (length xs - 1) * p div 100 < length xs"
proof -
  assume p: "p \<le> 100" and ne: "xs \<noteq> []"
  have "(length xs - 1) * p \<le> (length xs - 1) * 100" using p by (rule mult_le_mono2)
  then have "(length xs - 1) * p div 100 \<le> (length xs - 1) * 100 div 100" by (rule div_le_mono)
  then show "(length xs - 1) * p div 100 < length xs" using ne by (cases xs) auto
qed

lemma sorted_filter_counts:
  fixes xs :: "'a :: linorder list"
  assumes "sorted xs" and "i < length xs"
  shows "Suc i \<le> length (filter (\<lambda>x. x \<le> xs ! i) xs)" and "length (filter (\<lambda>x. x < xs ! i) xs) \<le> i"
proof -
  have le: "x \<le> xs ! i" if "x \<in> set (take (Suc i) xs)" for x
    using that assms by (auto simp: in_set_conv_nth) (metis less_Suc_eq_le sorted_nth_mono)
  have ge: "\<not> x < xs ! i" if "x \<in> set (drop i xs)" for x
    using that assms by (auto simp: in_set_conv_nth not_less intro!: sorted_nth_mono)
  have "filter (\<lambda>x. x \<le> xs ! i) xs
      = filter (\<lambda>x. x \<le> xs ! i) (take (Suc i) xs) @ filter (\<lambda>x. x \<le> xs ! i) (drop (Suc i) xs)"
    by (metis append_take_drop_id filter_append)
  moreover have "filter (\<lambda>x. x \<le> xs ! i) (take (Suc i) xs) = take (Suc i) xs"
    using le by (simp add: filter_id_conv)
  ultimately show "Suc i \<le> length (filter (\<lambda>x. x \<le> xs ! i) xs)" using assms(2) by simp
  have "filter (\<lambda>x. x < xs ! i) xs
      = filter (\<lambda>x. x < xs ! i) (take i xs) @ filter (\<lambda>x. x < xs ! i) (drop i xs)"
    by (metis append_take_drop_id filter_append)
  moreover have "filter (\<lambda>x. x < xs ! i) (drop i xs) = []" using ge by (simp add: filter_empty_conv)
  moreover have "length (filter (\<lambda>x. x < xs ! i) (take i xs)) \<le> i"
    by (rule le_trans [OF length_filter_le]) simp
  ultimately show "length (filter (\<lambda>x. x < xs ! i) xs) \<le> i" by simp
qed

lemma length_filter_sort: "length (filter P (sort xs)) = length (filter P xs)"
  by (metis mset_filter mset_sort size_mset)

lemma percentile_rank:
  assumes ne: "xs \<noteq> []" and "p \<le> 100"
  shows "percentile (sort xs) p \<in> set xs
    \<and> Suc ((length xs - 1) * p div 100) \<le> length (filter (\<lambda>x. x \<le> percentile (sort xs) p) xs)
    \<and> length (filter (\<lambda>x. x < percentile (sort xs) p) xs) \<le> (length xs - 1) * p div 100"
proof -
  let ?i = "(length xs - 1) * p div 100"
  have sne: "sort xs \<noteq> []" using ne by (metis length_0_conv length_sort)
  have i: "?i < length (sort xs)" using percentile_index [OF assms(2) sne] by simp
  have v: "percentile (sort xs) p = sort xs ! ?i" using sne by (simp add: percentile_def)
  have "sort xs ! ?i \<in> set xs" using nth_mem [OF i] by simp
  then show ?thesis
    using sorted_filter_counts [of "sort xs" ?i] i by (simp add: v length_filter_sort)
qed



end
