(* ===== verification/Cache_Api.thy ===== *)
theory Cache_Api
  imports Cleanup Nx_Artifact Metrics
begin

text \<open>
  \<open>internal/cacheapi/handler.go\<close>: the Nx remote-cache protocol. An upload is checked, written
  to the backend while it is inspected, recorded in the catalog, and rolled back when the
  catalog fails; a download counts a hit or a miss. The handlers run in the contract
  \<open>server_env\<close>, so what is proved here holds for every backend and catalog that keep it.
\<close>

section \<open>Valid hashes\<close>

definition hash_re :: regex where [go_eval]:
  "hash_re = seqs [Begin_Text, Rune (alnum_or []), up_to 127 (Rune (alnum_or ''._-'')), End_Text]"

definition valid_hash :: "string \<Rightarrow> bool" where
  "valid_hash h \<longleftrightarrow> match_string hash_re h"

text \<open>What the expression accepts.\<close>

definition hash_shape :: "string \<Rightarrow> bool" where [go_eval]:
  "hash_shape h \<longleftrightarrow> h \<noteq> [] \<and> length h \<le> 128 \<and> alnum_or [] (bval (hd h))
     \<and> list_all (\<lambda>c. alnum_or ''._-'' (bval c)) h"

lemma up_to_end:
  "(\<exists>y. match (up_to n (Rune p)) prev inp caps
      (\<lambda>prev' inp' caps'. if inp' = [] then Some (caps', prev', inp') else None) = Some y)
     \<longleftrightarrow> length inp \<le> n \<and> list_all (\<lambda>x. p (fst x)) inp"
proof (induction n arbitrary: prev inp)
  case 0
  then show ?case by (cases inp) auto
next
  case (Suc n)
  show ?case
  proof (cases inp)
    case Nil
    then show ?thesis by (auto split: option.splits)
  next
    case (Cons x xs)
    obtain r bs where x: "x = (r, bs)" by force
    show ?thesis using Suc.IH [of "Some r" xs] Cons x by (auto split: option.splits)
  qed
qed

lemmas up_to_some = up_to_end [folded not_None_eq]

lemma decode2_high: "194 \<le> b \<Longrightarrow> 128 \<le> fst (decode2 b cs)"
proof -
  assume "194 \<le> b"
  then have "128 \<le> (b - 192) * 64 + n" for n by simp
  then show ?thesis by (simp add: decode2_def rune_error_def split: list.split)
qed

lemma decode3_high: "225 \<le> b \<or> 160 \<le> lo \<Longrightarrow> 128 \<le> fst (decode3 lo hi b cs)"
proof -
  assume "225 \<le> b \<or> 160 \<le> lo"
  then have "128 \<le> (b - 224) * 4096 + (m - 128) * 64 + n - 128" if "lo \<le> m" "128 \<le> n" for m n
    using that by auto
  then show ?thesis by (simp add: decode3_def rune_error_def cont_byte_def split: list.split)
qed

lemma decode4_high: "241 \<le> b \<or> 144 \<le> lo \<Longrightarrow> 128 \<le> fst (decode4 lo hi b cs)"
proof -
  assume "241 \<le> b \<or> 144 \<le> lo"
  then have "128 \<le> (b - 240) * 262144 + (m - 128) * 4096 + k * 64 + n - 128" if "lo \<le> m" "128 \<le> n" for m k n
    using that by auto
  then show ?thesis by (simp add: decode4_def rune_error_def cont_byte_def split: list.split)
qed

lemma decode_rune_high: "\<not> bval c < 128 \<Longrightarrow> 128 \<le> fst (decode_rune c cs)"
  by (simp add: decode_rune_def Let_def decode2_high decode3_high decode4_high rune_error_def)

lemma chunks_low_ascii: "list_all (\<lambda>x. fst x < 128) (chunks s) \<Longrightarrow> is_ascii s"
proof (induction s rule: chunks.induct)
  case (2 c cs)
  have "bval c < 128"
    using decode_rune_high [of c cs] "2.prems" by (cases "decode_rune c cs") force
  then have "decode_rune c cs = (bval c, 1)" by (simp add: decode_rune_def Let_def)
  with 2 \<open>bval c < 128\<close> show ?case by simp
qed simp

lemma find_anchored: "find_from (Seq Begin_Text r) (Some c) inp = None"
  by (induction inp arbitrary: c) (simp_all add: find_from.simps split: prod.splits)

lemma alnum_or_low: "alnum_or ''._-'' r \<Longrightarrow> r < 128" "alnum_or [] r \<Longrightarrow> r < 128"
  "alnum_or [] r \<Longrightarrow> alnum_or ''._-'' r"
  by (auto simp: alnum_or_def bval_def)

lemma valid_hash_iff: "valid_hash h \<longleftrightarrow> hash_shape h"
proof -
  let ?K = "\<lambda>prev' inp' caps'. Some (caps' :: captures, prev' :: nat option, inp' :: runes)"
  have anch: "valid_hash h \<longleftrightarrow> match hash_re None (chunks h) [] ?K \<noteq> None"
    unfolding valid_hash_def match_string_def
    by (subst find_from.simps)
       (auto simp: hash_re_def find_anchored split: option.splits list.splits simp del: up_to.simps)
  have m: "valid_hash h \<longleftrightarrow> (\<exists>r bs xs. chunks h = (r, bs) # xs \<and> alnum_or [] r \<and> length xs \<le> 127
      \<and> list_all (\<lambda>x. alnum_or ''._-'' (fst x)) xs)"
    unfolding anch
    by (cases "chunks h") (simp_all add: hash_re_def up_to_some split_paired_all del: up_to.simps not_None_eq
        split: prod.splits)
  show ?thesis
  proof
    assume "valid_hash h"
    then obtain r bs xs where c: "chunks h = (r, bs) # xs" "alnum_or [] r" "length xs \<le> 127"
        "list_all (\<lambda>x. alnum_or ''._-'' (fst x)) xs"
      unfolding m by blast
    then have "list_all (\<lambda>x. fst x < 128) (chunks h)"
      using alnum_or_low by (auto simp: list_all_iff)
    then have "chunks h = map (\<lambda>c. (bval c, [c])) h" by (intro chunks_ascii chunks_low_ascii)
    with c show "hash_shape h"
      by (cases h) (auto simp: hash_shape_def list_all_iff alnum_or_low(3))
  next
    assume sh: "hash_shape h"
    then have "is_ascii h" using alnum_or_low(1) by (auto simp: hash_shape_def is_ascii_def list_all_iff)
    then have "chunks h = map (\<lambda>c. (bval c, [c])) h" by (rule chunks_ascii)
    with sh show "valid_hash h" unfolding m by (cases h) (auto simp: hash_shape_def list_all_iff)
  qed
qed

section \<open>Handlers\<close>

record 'w api =
  ap_backend :: "'w backend"
  ap_store :: "'w store"
  ap_cleanup_on_save :: bool
  ap_max_upload :: int
  ap_notify :: "time \<Rightarrow> 'w \<Rightarrow> 'w"

text \<open>
  The state of a handler: the shared state, the cleaner (if any) with the number of runs it
  has started in the background, and the metrics.
\<close>

record 'w api_state =
  as_world :: 'w
  as_cleaner :: "cleaner option"
  as_runs :: nat
  as_metrics :: "collector option"

text \<open>The readings of the clock during a request.\<close>

record api_clock =
  ck_start :: time
  ck_put :: time
  ck_now :: time
  ck_gap :: time
  ck_last :: time
  ck_end :: time
  ck_notify :: time

definition internal_error :: "writer" where [go_eval]:
  "internal_error = http_error ''Internal server error'' 500 new_writer"

text \<open>\<open>MaybeRun\<close> after a successful upload.\<close>

definition cleanup_on_save :: "'w api \<Rightarrow> api_clock \<Rightarrow> 'w api_state \<Rightarrow> 'w api_state" where [go_eval]:
  "cleanup_on_save ap ck s =
     (case as_cleaner s of
        None \<Rightarrow> s
      | Some c \<Rightarrow>
          if ap_cleanup_on_save ap
          then (case maybe_run (ck_gap ck) (ck_last ck) c of
                  (b, c') \<Rightarrow> s\<lparr>as_cleaner := Some c', as_runs := as_runs s + (if b then 1 else 0)\<rparr>)
          else s)"

definition uploaded :: writer where [go_eval]:
  "uploaded = write_body ''Successfully uploaded''
     (write_header 200 (set_header ''Content-Type'' ''text/plain'' new_writer))"

text \<open>The body of \<open>Put\<close> behind the checks of the request.\<close>

definition put_object ::
  "unicode_tables \<Rightarrow> archive_lib \<Rightarrow> 'w api \<Rightarrow> api_clock \<Rightarrow> request \<Rightarrow> int \<Rightarrow> 'w api_state \<Rightarrow>
   writer \<times> 'w api_state" where [go_eval]:
  "put_object u al ap ck r sz s =
     (let be = ap_backend ap; st = ap_store ap; h = rq_hash r in
      case be_exists be h (as_world s) of
        (Inl e, w1) \<Rightarrow> (internal_error, s\<lparr>as_world := w1\<rparr>)
      | (Inr ex, w1) \<Rightarrow>
          if ex then (http_error ''Cannot override an existing record'' 409 new_writer, s\<lparr>as_world := w1\<rparr>)
          else
          (case be_put be h (rq_body r) sz (ck_put ck) w1 of
             (err, consumed, w2) \<Rightarrow>
               let inspected = inspect u al \<lparr>rd_data = consumed, rd_err = None\<rparr>;
                   info = merge_info u (from_headers u (rq_header r)) inspected
               in case err of
                    Some e \<Rightarrow>
                      ((if e = ErrExists then http_error ''Cannot override an existing record'' 409 new_writer
                        else if e = ErrIncomplete
                             then http_error ''upload did not match Content-Length'' 400 new_writer
                        else internal_error), s\<lparr>as_world := w2\<rparr>)
                  | None \<Rightarrow>
                      (case st_upsert st h sz (ck_now ck) info w2 of
                         (Some e, w3) \<Rightarrow>
                           (case be_delete be [h] w3 of (_, w4) \<Rightarrow> (internal_error, s\<lparr>as_world := w4\<rparr>))
                       | (None, w3) \<Rightarrow> (uploaded, cleanup_on_save ap ck (s\<lparr>as_world := w3\<rparr>)))))"

definition finish_write :: "'w api \<Rightarrow> api_clock \<Rightarrow> int \<Rightarrow> 'w api_state \<Rightarrow> 'w api_state" where [go_eval]:
  "finish_write ap ck sz s =
     s\<lparr>as_metrics := observe_write (time_sub (ck_end ck) (ck_start ck)) sz (as_metrics s),
       as_world := ap_notify ap (ck_notify ck) (as_world s)\<rparr>"

definition cache_put ::
  "unicode_tables \<Rightarrow> archive_lib \<Rightarrow> 'w api \<Rightarrow> api_clock \<Rightarrow> request \<Rightarrow> 'w api_state \<Rightarrow>
   writer \<times> 'w api_state" where [go_eval]:
  "cache_put u al ap ck r s =
     (if \<not> valid_hash (rq_hash r) then (http_error ''invalid hash'' 400 new_writer, s)
      else let cl = header_value r ''Content-Length'' in
        if cl = [] then (http_error ''Content-Length header is required'' 411 new_writer, s)
        else (case parse_int cl of (sz, err) \<Rightarrow>
          if err \<noteq> None \<or> sz < 0 then (http_error ''Content-Length header is required'' 411 new_writer, s)
          else if ap_max_upload ap > 0 \<and> sz > ap_max_upload ap
               then (http_error ''payload too large'' 413 new_writer, s)
          else (case put_object u al ap ck r sz s of
                  (wr, s1) \<Rightarrow> (wr, finish_write ap ck sz s1))))"

definition finish_read :: "'w api \<Rightarrow> api_clock \<Rightarrow> int \<Rightarrow> 'w api_state \<Rightarrow> 'w api_state" where [go_eval]:
  "finish_read ap ck sz s =
     s\<lparr>as_metrics := observe_read (time_sub (ck_end ck) (ck_start ck)) sz (as_metrics s),
       as_world := ap_notify ap (ck_notify ck) (as_world s)\<rparr>"

definition not_found :: writer where [go_eval]:
  "not_found = http_error ''The record was not found'' 404 new_writer"

text \<open>
  \<open>Get\<close>. A backend that fails reports size 0 (\<open>Memory\<close> and \<open>S3\<close> return 0 with every error).
\<close>

definition cache_get :: "'w api \<Rightarrow> api_clock \<Rightarrow> request \<Rightarrow> 'w api_state \<Rightarrow> writer \<times> 'w api_state" where [go_eval]:
  "cache_get ap ck r s =
     (if \<not> valid_hash (rq_hash r) then (not_found, s)
      else case be_get (ap_backend ap) (rq_hash r) (as_world s) of
        (Inl e, w1) \<Rightarrow>
          if e = ErrNotFound
          then (case st_record_miss (ap_store ap) (ck_now ck) w1 of
                  (_, w2) \<Rightarrow> (not_found, finish_read ap ck 0 (s\<lparr>as_world := w2\<rparr>)))
          else (internal_error, finish_read ap ck 0 (s\<lparr>as_world := w1\<rparr>))
      | (Inr (body, sz), w1) \<Rightarrow>
          (case st_record_hit (ap_store ap) (rq_hash r) (ck_now ck) w1 of
             (_, w2) \<Rightarrow>
               let h1 = set_header ''Content-Type'' ''application/octet-stream'' new_writer;
                   h2 = (if sz > 0 then set_header ''Content-Length'' (int_str sz) h1 else h1)
               in (write_body body (write_header 200 h2), finish_read ap ck sz (s\<lparr>as_world := w2\<rparr>))))"

definition cache_head :: "'w api \<Rightarrow> request \<Rightarrow> 'w api_state \<Rightarrow> writer \<times> 'w api_state" where [go_eval]:
  "cache_head ap r s =
     (if \<not> valid_hash (rq_hash r) then (write_header 404 new_writer, s)
      else case be_exists (ap_backend ap) (rq_hash r) (as_world s) of
        (Inl e, w1) \<Rightarrow> (write_header 500 new_writer, s\<lparr>as_world := w1\<rparr>)
      | (Inr ok, w1) \<Rightarrow> (write_header (if ok then 200 else 404) new_writer, s\<lparr>as_world := w1\<rparr>))"


section \<open>The handlers in the contract of the environment\<close>

locale api_env = server_env be st arts ents inv ord_ok cord_ok expired
  for be :: "'w backend" and st :: "'w store" and arts ents inv ord_ok cord_ok expired +
  fixes ap :: "'w api"
  assumes ap_backend: "ap_backend ap = be"
    and ap_store: "ap_store ap = st"
    and notify_inv: "inv w \<Longrightarrow> inv (ap_notify ap t w)"
    and notify_arts: "arts (ap_notify ap t w) = arts w"
    and notify_ents: "ents (ap_notify ap t w) = ents w"

lemma as_world_cleanup [simp]: "as_world (cleanup_on_save ap ck s) = as_world s"
  by (simp add: cleanup_on_save_def split: option.split prod.split)

lemma as_world_finish [simp]:
  "as_world (finish_write ap ck sz s) = ap_notify ap (ck_notify ck) (as_world s)"
  "as_world (finish_read ap ck sz s) = ap_notify ap (ck_notify ck) (as_world s)"
  by (simp_all add: finish_write_def finish_read_def)

lemma status_simps [simp]:
  "status internal_error = 500" "status not_found = 404" "status uploaded = 200"
  by (simp_all add: internal_error_def not_found_def uploaded_def)

lemma valid_hash_nonempty: "valid_hash h \<Longrightarrow> h \<noteq> []"
  by (simp add: valid_hash_iff hash_shape_def)

text \<open>Where an upload can end.\<close>

lemma put_object_cases:
  assumes "put_object u al ap ck r sz s = (wr, s')"
  obtains e w1 where "be_exists (ap_backend ap) (rq_hash r) (as_world s) = (Inl e, w1)"
      "status wr = 500" "as_world s' = w1"
  | w1 where "be_exists (ap_backend ap) (rq_hash r) (as_world s) = (Inr True, w1)"
      "status wr = 409" "as_world s' = w1"
  | w1 c w2 e where "be_exists (ap_backend ap) (rq_hash r) (as_world s) = (Inr False, w1)"
      "be_put (ap_backend ap) (rq_hash r) (rq_body r) sz (ck_put ck) w1 = (Some e, c, w2)"
      "status wr = (if e = ErrExists then 409 else if e = ErrIncomplete then 400 else 500)"
      "as_world s' = w2"
  | w1 c w2 w3 w4 x y info where "be_exists (ap_backend ap) (rq_hash r) (as_world s) = (Inr False, w1)"
      "be_put (ap_backend ap) (rq_hash r) (rq_body r) sz (ck_put ck) w1 = (None, c, w2)"
      "st_upsert (ap_store ap) (rq_hash r) sz (ck_now ck) info w2 = (Some x, w3)"
      "be_delete (ap_backend ap) [rq_hash r] w3 = (y, w4)" "status wr = 500" "as_world s' = w4"
  | w1 c w2 w3 where "be_exists (ap_backend ap) (rq_hash r) (as_world s) = (Inr False, w1)"
      "be_put (ap_backend ap) (rq_hash r) (rq_body r) sz (ck_put ck) w1 = (None, c, w2)"
      "st_upsert (ap_store ap) (rq_hash r) sz (ck_now ck)
         (merge_info u (from_headers u (rq_header r)) (inspect u al \<lparr>rd_data = c, rd_err = None\<rparr>)) w2
         = (None, w3)"
      "status wr = 200" "wr = uploaded" "as_world s' = w3"
proof -
  show ?thesis
    using assms that unfolding put_object_def Let_def
    by (auto split: sum.splits prod.splits option.splits if_splits)
qed

context api_env
begin

lemma put_object_outcome:
  assumes inv: "inv (as_world s)" and h: "valid_hash (rq_hash r)" and sz: "in64 sz"
    and put: "put_object u al ap ck r sz s = (wr, s')"
  shows "inv (as_world s')"
    and "\<forall>k. k \<noteq> rq_hash r \<longrightarrow> arts (as_world s') k = arts (as_world s) k
           \<and> ents (as_world s') k = ents (as_world s) k"
    and "rq_hash r \<in> dom (arts (as_world s)) \<longrightarrow> arts (as_world s') = arts (as_world s)"
    and "status wr \<in> {200, 400, 409, 500}"
    and "status wr \<in> {400, 409} \<Longrightarrow> arts (as_world s') = arts (as_world s) \<and> ents (as_world s') = ents (as_world s)"
    and "status wr = 200 \<Longrightarrow> rq_hash r \<notin> dom (arts (as_world s))
           \<and> int (length (limited sz (rd_data (rq_body r)))) = sz
           \<and> (\<exists>t. arts (as_world s') = (arts (as_world s))(rq_hash r \<mapsto> (limited sz (rd_data (rq_body r)), t)))
           \<and> (\<exists>e c. ents (as_world s') (rq_hash r) = Some e \<and> en_size e = sz
                \<and> en_task e = overlay (merge_info u (from_headers u (rq_header r))
                                         (inspect u al \<lparr>rd_data = c, rd_err = None\<rparr>))
                    (case ents (as_world s) (rq_hash r) of None \<Rightarrow> empty_task | Some e0 \<Rightarrow> en_task e0)
                \<and> limited sz c = limited sz (rd_data (rq_body r)))"
proof -
  let ?h = "rq_hash r" let ?w = "as_world s" let ?w' = "as_world s'"
  have hne: "?h \<noteq> []" using h by (rule valid_hash_nonempty)
  have "inv ?w' \<and> (\<forall>k. k \<noteq> ?h \<longrightarrow> arts ?w' k = arts ?w k \<and> ents ?w' k = ents ?w k)
    \<and> (?h \<in> dom (arts ?w) \<longrightarrow> arts ?w' = arts ?w) \<and> status wr \<in> {200, 400, 409, 500}
    \<and> (status wr \<in> {400, 409} \<longrightarrow> arts ?w' = arts ?w \<and> ents ?w' = ents ?w)
    \<and> (status wr = 200 \<longrightarrow> ?h \<notin> dom (arts ?w)
           \<and> int (length (limited sz (rd_data (rq_body r)))) = sz
           \<and> (\<exists>t. arts ?w' = (arts ?w)(?h \<mapsto> (limited sz (rd_data (rq_body r)), t)))
           \<and> (\<exists>e c. ents ?w' ?h = Some e \<and> en_size e = sz
                \<and> en_task e = overlay (merge_info u (from_headers u (rq_header r))
                                         (inspect u al \<lparr>rd_data = c, rd_err = None\<rparr>))
                    (case ents ?w ?h of None \<Rightarrow> empty_task | Some e0 \<Rightarrow> en_task e0)
                \<and> limited sz c = limited sz (rd_data (rq_body r))))"
    using put
  proof (cases rule: put_object_cases)
    case (1 e w1)
    with exists_frame [OF inv, of ?h "Inl e" w1] exists_ents [OF inv, of ?h "Inl e" w1] show ?thesis
      by (simp add: ap_backend)
  next
    case (2 w1)
    with exists_frame [OF inv, of ?h "Inr True" w1] exists_ents [OF inv, of ?h "Inr True" w1] show ?thesis
      by (simp add: ap_backend)
  next
    case (3 w1 c w2 e)
    then have x: "be_exists be ?h ?w = (Inr False, w1)"
      and p: "be_put be ?h (rq_body r) sz (ck_put ck) w1 = (Some e, c, w2)" by (simp_all add: ap_backend)
    note f1 = exists_frame [OF inv x] exists_ents [OF inv x]
    have i1: "inv w1" using f1 by simp
    have "?h \<in> dom (arts ?w) \<longrightarrow> arts w2 = arts w1"
      using put_never_overwrites [OF i1 p] put_keeps_others [OF i1 p] f1
      by (auto intro!: ext) (metis domI)
    then show ?thesis
      using 3 f1 put_ents [OF i1 p] put_error [OF i1 p] put_exists [OF i1] put_incomplete [OF i1] p
      by auto
  next
    case (4 w1 c w2 w3 w4 x y info)
    then have x: "be_exists be ?h ?w = (Inr False, w1)"
      and p: "be_put be ?h (rq_body r) sz (ck_put ck) w1 = (None, c, w2)"
      and up: "st_upsert st ?h sz (ck_now ck) info w2 = (Some x, w3)"
      and del: "be_delete be [?h] w3 = (y, w4)" by (simp_all add: ap_backend ap_store)
    note f1 = exists_frame [OF inv x] exists_ents [OF inv x] exists_ok [OF inv x]
    have i1: "inv w1" using f1 by simp
    note f2 = put_ok [OF i1 p] put_ents [OF i1 p]
    have i2: "inv w2" using f2 by simp
    note f3 = upsert_inv [OF i2 hne sz up] upsert_frame [OF i2 hne sz up] upsert_arts [OF i2 up]
    have i3: "inv w3" using f3 by simp
    note f4 = delete_inv [OF i3 del] delete_frame [OF i3 del] delete_ents [OF i3 del]
    show ?thesis using 4 f1 f2 f3 f4 by auto
  next
    case (5 w1 c w2 w3)
    let ?info = "merge_info u (from_headers u (rq_header r)) (inspect u al \<lparr>rd_data = c, rd_err = None\<rparr>)"
    from 5 have x: "be_exists be ?h ?w = (Inr False, w1)"
      and p: "be_put be ?h (rq_body r) sz (ck_put ck) w1 = (None, c, w2)"
      and up: "st_upsert st ?h sz (ck_now ck) ?info w2 = (None, w3)"
      by (simp_all add: ap_backend ap_store)
    note f1 = exists_frame [OF inv x] exists_ents [OF inv x] exists_ok [OF inv x]
    have i1: "inv w1" using f1 by simp
    note f2 = put_ok [OF i1 p] put_ents [OF i1 p]
    have i2: "inv w2" using f2 by simp
    note f3 = upsert_inv [OF i2 hne sz up] upsert_frame [OF i2 hne sz up] upsert_arts [OF i2 up]
    obtain e where e: "ents w3 ?h = Some e" "en_size e = sz"
        "en_task e = overlay ?info (case ents w2 ?h of None \<Rightarrow> empty_task | Some e0 \<Rightarrow> en_task e0)"
      using upsert_ok [OF i2 hne sz up] by blast
    have "\<exists>e c. ents ?w' ?h = Some e \<and> en_size e = sz
        \<and> en_task e = overlay (merge_info u (from_headers u (rq_header r))
                                (inspect u al \<lparr>rd_data = c, rd_err = None\<rparr>))
                       (case ents ?w ?h of None \<Rightarrow> empty_task | Some e0 \<Rightarrow> en_task e0)
        \<and> limited sz c = limited sz (rd_data (rq_body r))"
      using e f1 f2 5(6) by (intro exI [of _ e] exI [of _ c]) simp
    then show ?thesis using 5(4,6) f1 f2 f3 by auto
  qed
  then show "inv ?w'"
    "\<forall>k. k \<noteq> ?h \<longrightarrow> arts ?w' k = arts ?w k \<and> ents ?w' k = ents ?w k"
    "?h \<in> dom (arts ?w) \<longrightarrow> arts ?w' = arts ?w" "status wr \<in> {200, 400, 409, 500}"
    "status wr \<in> {400, 409} \<Longrightarrow> arts ?w' = arts ?w \<and> ents ?w' = ents ?w"
    "status wr = 200 \<Longrightarrow> ?h \<notin> dom (arts ?w)
           \<and> int (length (limited sz (rd_data (rq_body r)))) = sz
           \<and> (\<exists>t. arts ?w' = (arts ?w)(?h \<mapsto> (limited sz (rd_data (rq_body r)), t)))
           \<and> (\<exists>e c. ents ?w' ?h = Some e \<and> en_size e = sz
                \<and> en_task e = overlay (merge_info u (from_headers u (rq_header r))
                                         (inspect u al \<lparr>rd_data = c, rd_err = None\<rparr>))
                    (case ents ?w ?h of None \<Rightarrow> empty_task | Some e0 \<Rightarrow> en_task e0)
                \<and> limited sz c = limited sz (rd_data (rq_body r)))"
    by blast+
qed

end

end
