(* ===== verification/Cache_Protocol.thy ===== *)
theory Cache_Protocol
  imports Cache_Api Server_World
begin

text \<open>
  What clients of \<open>internal/cacheapi/handler.go\<close> may rely on: the outcome of an upload, of a
  download and of a look-up in the contract \<open>api_env\<close>, its interpretation on the server's
  world, and the claims about single requests and about sequences of requests.
\<close>

section \<open>Outcomes of the handlers\<close>

definition accepts_size :: "'w api \<Rightarrow> string \<Rightarrow> int \<Rightarrow> bool" where [go_eval]:
  "accepts_size ap cl sz \<longleftrightarrow>
     cl \<noteq> [] \<and> parse_int cl = (sz, None) \<and> 0 \<le> sz \<and> (0 < ap_max_upload ap \<longrightarrow> sz \<le> ap_max_upload ap)"

lemma cache_put_cases:
  assumes "cache_put u al ap ck r s = (wr, s')"
  obtains "status wr \<in> {400, 411, 413}" "s' = s"
  | sz s1 where "valid_hash (rq_hash r)" "accepts_size ap (header_value r ''Content-Length'') sz"
      "put_object u al ap ck r sz s = (wr, s1)" "s' = finish_write ap ck sz s1"
  using assms unfolding cache_put_def Let_def accepts_size_def
  by (auto split: prod.splits if_splits)

lemma accepts_size_in64: "accepts_size ap cl sz \<Longrightarrow> in64 sz"
  using parse_int_in64 [of cl] by (simp add: accepts_size_def)

lemma wr_body_simps [simp]:
  "wr_body (write_header c w) = wr_body w"
  "wr_body (write_body b w) = wr_body w @ b"
  "wr_body (set_header k v w) = wr_body w"
  by (simp_all add: write_header_def write_body_def set_header_def Let_def split: option.splits)

lemma cache_get_500:
  assumes "cache_get ap ck r s = (wr, s')" and "status wr = 500"
  shows "\<exists>e w1. be_get (ap_backend ap) (rq_hash r) (as_world s) = (Inl e, w1) \<and> e \<noteq> ErrNotFound"
proof (cases "be_get (ap_backend ap) (rq_hash r) (as_world s)")
  case (Pair g w1)
  then show ?thesis using assms
    by (cases g) (auto simp: cache_get_def Let_def split: prod.splits if_splits)
qed

context api_env
begin

lemma cache_put_outcome:
  assumes inv: "inv (as_world s)" and put: "cache_put u al ap ck r s = (wr, s')"
  shows "inv (as_world s')"
    and "k \<noteq> rq_hash r \<Longrightarrow> arts (as_world s') k = arts (as_world s) k
           \<and> ents (as_world s') k = ents (as_world s) k"
    and "k \<in> dom (arts (as_world s)) \<Longrightarrow> arts (as_world s') k = arts (as_world s) k"
    and "status wr \<in> {200, 400, 409, 411, 413, 500}"
    and "status wr \<notin> {200, 500} \<Longrightarrow>
      arts (as_world s') = arts (as_world s) \<and> ents (as_world s') = ents (as_world s)"
    and "status wr = 200 \<Longrightarrow>
      \<exists>sz t e c. valid_hash (rq_hash r) \<and> accepts_size ap (header_value r ''Content-Length'') sz
       \<and> rq_hash r \<notin> dom (arts (as_world s))
       \<and> sz \<le> int (length (rd_data (rq_body r)))
       \<and> arts (as_world s') = (arts (as_world s))(rq_hash r \<mapsto> (take (nat sz) (rd_data (rq_body r)), t))
       \<and> ents (as_world s') (rq_hash r) = Some e \<and> en_size e = sz
       \<and> en_task e = overlay (merge_info u (from_headers u (rq_header r))
                                (inspect u al \<lparr>rd_data = c, rd_err = None\<rparr>))
            (case ents (as_world s) (rq_hash r) of None \<Rightarrow> empty_task | Some e0 \<Rightarrow> en_task e0)
       \<and> take (nat sz) c = take (nat sz) (rd_data (rq_body r))"
proof -
  let ?w = "as_world s" let ?w' = "as_world s'" let ?h = "rq_hash r"
  have "inv ?w' \<and> (\<forall>k. k \<noteq> ?h \<longrightarrow> arts ?w' k = arts ?w k \<and> ents ?w' k = ents ?w k)
    \<and> (?h \<in> dom (arts ?w) \<longrightarrow> arts ?w' = arts ?w)
    \<and> status wr \<in> {200, 400, 409, 411, 413, 500}
    \<and> (status wr \<notin> {200, 500} \<longrightarrow> arts ?w' = arts ?w \<and> ents ?w' = ents ?w)
    \<and> (status wr = 200 \<longrightarrow>
      (\<exists>sz t e c. valid_hash ?h \<and> accepts_size ap (header_value r ''Content-Length'') sz
       \<and> ?h \<notin> dom (arts ?w) \<and> sz \<le> int (length (rd_data (rq_body r)))
       \<and> arts ?w' = (arts ?w)(?h \<mapsto> (take (nat sz) (rd_data (rq_body r)), t))
       \<and> ents ?w' ?h = Some e \<and> en_size e = sz
       \<and> en_task e = overlay (merge_info u (from_headers u (rq_header r))
                                (inspect u al \<lparr>rd_data = c, rd_err = None\<rparr>))
            (case ents ?w ?h of None \<Rightarrow> empty_task | Some e0 \<Rightarrow> en_task e0)
       \<and> take (nat sz) c = take (nat sz) (rd_data (rq_body r))))"
    using put
  proof (cases rule: cache_put_cases)
    case 1
    with inv show ?thesis by auto
  next
    case (2 sz s1)
    note sz = accepts_size_in64 [OF 2(2)]
    note o = put_object_outcome [OF inv 2(1) sz 2(3)]
    have w': "inv ?w'" "arts ?w' = arts (as_world s1)" "ents ?w' = ents (as_world s1)"
      using o(1) by (simp_all add: 2(4) notify_inv notify_arts notify_ents)
    have pos: "0 \<le> sz" using 2(2) by (simp add: accepts_size_def)
    show ?thesis
    proof (cases "status wr = 200")
      case True
      obtain t e c where x: "?h \<notin> dom (arts ?w)" "int (length (limited sz (rd_data (rq_body r)))) = sz"
          "arts (as_world s1) = (arts ?w)(?h \<mapsto> (limited sz (rd_data (rq_body r)), t))"
          "ents (as_world s1) ?h = Some e" "en_size e = sz"
          "en_task e = overlay (merge_info u (from_headers u (rq_header r))
             (inspect u al \<lparr>rd_data = c, rd_err = None\<rparr>))
             (case ents ?w ?h of None \<Rightarrow> empty_task | Some e0 \<Rightarrow> en_task e0)"
          "limited sz c = limited sz (rd_data (rq_body r))"
        using o(6) [OF True] by blast
      have lim: "limited sz d = take (nat sz) d" for d using pos by (simp add: limited_def)
      from x(2) pos have "sz \<le> int (length (rd_data (rq_body r)))" by (simp add: lim)
      then show ?thesis
        using True w' x 2(1,2) o(2) unfolding lim by simp blast
    next
      case False
      then show ?thesis using w' o by auto
    qed
  qed
  then show "inv ?w'"
    "k \<noteq> ?h \<Longrightarrow> arts ?w' k = arts ?w k \<and> ents ?w' k = ents ?w k"
    "k \<in> dom (arts ?w) \<Longrightarrow> arts ?w' k = arts ?w k"
    "status wr \<in> {200, 400, 409, 411, 413, 500}"
    "status wr \<notin> {200, 500} \<Longrightarrow> arts ?w' = arts ?w \<and> ents ?w' = ents ?w"
    "status wr = 200 \<Longrightarrow>
      \<exists>sz t e c. valid_hash ?h \<and> accepts_size ap (header_value r ''Content-Length'') sz
       \<and> ?h \<notin> dom (arts ?w) \<and> sz \<le> int (length (rd_data (rq_body r)))
       \<and> arts ?w' = (arts ?w)(?h \<mapsto> (take (nat sz) (rd_data (rq_body r)), t))
       \<and> ents ?w' ?h = Some e \<and> en_size e = sz
       \<and> en_task e = overlay (merge_info u (from_headers u (rq_header r))
                                (inspect u al \<lparr>rd_data = c, rd_err = None\<rparr>))
            (case ents ?w ?h of None \<Rightarrow> empty_task | Some e0 \<Rightarrow> en_task e0)
       \<and> take (nat sz) c = take (nat sz) (rd_data (rq_body r))"
    by (blast, blast, (cases "k = ?h"; metis), blast, blast, metis)
qed

lemma cache_get_outcome:
  assumes inv: "inv (as_world s)" and get: "cache_get ap ck r s = (wr, s')"
  shows "inv (as_world s') \<and> arts (as_world s') = arts (as_world s)
    \<and> (\<forall>k. k \<noteq> rq_hash r \<longrightarrow> ents (as_world s') k = ents (as_world s) k)
    \<and> status wr \<in> {200, 404, 500}
    \<and> (status wr = 200 \<longrightarrow> valid_hash (rq_hash r) \<and> (\<exists>t. arts (as_world s) (rq_hash r) = Some (wr_body wr, t)))
    \<and> (status wr = 404 \<longrightarrow> (\<not> valid_hash (rq_hash r) \<or> arts (as_world s) (rq_hash r) = None)
         \<and> ents (as_world s') = ents (as_world s))"
proof (cases "valid_hash (rq_hash r)")
  case False
  with get inv show ?thesis by (auto simp: cache_get_def)
next
  case True
  then have hne: "rq_hash r \<noteq> []" by (rule valid_hash_nonempty)
  obtain g w1 where g: "be_get be (rq_hash r) (as_world s) = (g, w1)" by force
  note f = get_frame [OF inv g] get_ents [OF inv g]
  have i1: "inv w1" using f by simp
  show ?thesis
  proof (cases g)
    case (Inl e)
    obtain x w2 where m: "st_record_miss st (ck_now ck) w1 = (x, w2)" by force
    note mf = miss_frame [OF i1 m] miss_arts [OF i1 m]
    show ?thesis
    proof (cases "e = ErrNotFound")
      case nf: True
      then have "arts (as_world s) (rq_hash r) = None" using get_not_found [OF inv] g Inl by simp
      then show ?thesis using get True Inl nf g m mf f
        by (auto simp: cache_get_def ap_backend ap_store notify_inv notify_arts notify_ents)
    next
      case False
      then show ?thesis using get True Inl g f
        by (auto simp: cache_get_def ap_backend ap_store notify_inv notify_arts notify_ents)
    qed
  next
    case (Inr bn)
    obtain body n where bn: "bn = (body, n)" by force
    obtain x w2 where m: "st_record_hit st (rq_hash r) (ck_now ck) w1 = (x, w2)" by force
    note mf = hit_frame [OF i1 hne m] hit_arts [OF i1 m] hit_inv [OF i1 hne m]
    obtain t where "arts (as_world s) (rq_hash r) = Some (body, t)" using get_ok [OF inv] g Inr bn by blast
    then show ?thesis using get True Inr bn g m mf f
      by (auto simp: cache_get_def ap_backend ap_store notify_inv notify_arts notify_ents Let_def)
  qed
qed

lemma cache_head_outcome:
  assumes inv: "inv (as_world s)" and hd: "cache_head ap r s = (wr, s')"
  shows "inv (as_world s') \<and> arts (as_world s') = arts (as_world s) \<and> ents (as_world s') = ents (as_world s)
    \<and> status wr \<in> {200, 404, 500}
    \<and> (status wr = 200 \<longrightarrow> valid_hash (rq_hash r) \<and> rq_hash r \<in> dom (arts (as_world s)))
    \<and> (status wr = 404 \<longrightarrow> \<not> valid_hash (rq_hash r) \<or> rq_hash r \<notin> dom (arts (as_world s)))"
proof (cases "valid_hash (rq_hash r)")
  case False
  with hd inv show ?thesis by (auto simp: cache_head_def)
next
  case True
  obtain b w1 where b: "be_exists be (rq_hash r) (as_world s) = (b, w1)" by force
  show ?thesis
    using hd True b exists_frame [OF inv b] exists_ents [OF inv b] exists_ok [OF inv, of "rq_hash r" _ w1]
    by (cases b) (auto simp: cache_head_def ap_backend split: if_splits)
qed

end

section \<open>The server\<close>

definition server_api :: "unicode_tables \<Rightarrow> codec \<Rightarrow> bool \<Rightarrow> int \<Rightarrow> time \<Rightarrow> server_world api" where [go_eval]:
  "server_api u js on_save max_upload now =
     \<lparr>ap_backend = server_backend, ap_store = server_store u js now, ap_cleanup_on_save = on_save,
      ap_max_upload = max_upload, ap_notify = world_notify\<rparr>"

interpretation srv: api_env server_backend "server_store u js now" server_arts server_ents server_inv
  disk_order cat_order created_before "server_api u js on_save max_upload now"
  for u js now on_save max_upload
  by unfold_locales
     (simp_all add: server_api_def world_notify_def server_inv_def server_arts_def server_ents_def)

text \<open>The in-memory backend only reports a missing object.\<close>

lemma server_get_error: "be_get server_backend h w = (Inl e, w') \<Longrightarrow> e = ErrNotFound"
  by (auto simp: server_backend_def on_disk_iff memory_backend_def mem_get_def split: option.splits)

lemma server_exists: "be_exists server_backend h w = (Inr (h \<in> dom (server_arts w)), w)"
  by (cases w)
     (auto simp: server_backend_def on_disk_def memory_backend_def mem_exists_def server_arts_def
       mem_arts_def ghas_def split: option.splits)

lemma server_get_ok:
  assumes "server_inv (as_world s)"
    and "cache_get (server_api u js on_save max_upload now) ck r s = (wr, s')"
  shows "status wr = (if valid_hash (rq_hash r) \<and> rq_hash r \<in> dom (server_arts (as_world s)) then 200 else 404)"
proof -
  have "status wr \<noteq> 500"
    using cache_get_500 [OF assms(2)] server_get_error [of "rq_hash r" "as_world s"]
    by (auto simp: server_api_def)
  with srv.cache_get_outcome [OF assms] show ?thesis by auto
qed

lemma server_head_ok:
  assumes "cache_head (server_api u js on_save max_upload now) r s = (wr, s')"
  shows "status wr = (if valid_hash (rq_hash r) \<and> rq_hash r \<in> dom (server_arts (as_world s)) then 200 else 404)"
    and "as_world s' = as_world s"
  using assms by (auto simp: cache_head_def server_api_def server_exists split: if_splits)

section \<open>Claims\<close>

text \<open>
  C7: the expression that guards every path accepts exactly the names of 1 to 128 ASCII letters,
  digits, dots, underscores and dashes that begin with a letter or digit; such a name has no
  slash and is neither hidden nor a parent directory.
\<close>

theorem valid_hash_safe:
  "valid_hash h \<longleftrightarrow>
     h \<noteq> [] \<and> length h \<le> 128 \<and> alnum_or [] (bval (h ! 0)) \<and> list_all (\<lambda>c. alnum_or ''._-'' (bval c)) h
     \<and> CHR ''/'' \<notin> set h \<and> h ! 0 \<noteq> CHR ''.''"
  by (cases h) (auto simp: valid_hash_iff hash_shape_def list_all_iff alnum_or_def bval_def)


text \<open>
  C6: the outcome of a download and of a look-up. They change no artifact; a download that
  answers 200 sends the stored bytes; it answers 404 exactly when the hash is malformed or
  absent, and then changes no entry; a look-up answers 200 or 404 by the same test.
\<close>

theorem download_outcome:
  assumes "server_inv (as_world s)"
    and "cache_get (server_api u js on_save max_upload now) ck r s = (wr, s')"
    and "cache_head (server_api u js on_save max_upload now) r s = (wr2, s2)"
  shows "server_inv (as_world s') \<and> server_arts (as_world s') = server_arts (as_world s)
    \<and> (\<forall>k. k \<noteq> rq_hash r \<longrightarrow> server_ents (as_world s') k = server_ents (as_world s) k)
    \<and> status wr = (if valid_hash (rq_hash r) \<and> rq_hash r \<in> dom (server_arts (as_world s)) then 200 else 404)
    \<and> (status wr = 200 \<longrightarrow> (\<exists>t. server_arts (as_world s) (rq_hash r) = Some (wr_body wr, t)))
    \<and> (status wr = 404 \<longrightarrow> server_ents (as_world s') = server_ents (as_world s))
    \<and> status wr2 = status wr \<and> as_world s2 = as_world s"
proof -
  note g = srv.cache_get_outcome [OF assms(1,2)]
  note st = server_get_ok [OF assms(1,2)]
  note hd = server_head_ok [OF assms(3)]
  from g have "\<forall>k. k \<noteq> rq_hash r \<longrightarrow> server_ents (as_world s') k = server_ents (as_world s) k" by blast
  moreover from g have "status wr = 200 \<longrightarrow> (\<exists>t. server_arts (as_world s) (rq_hash r) = Some (wr_body wr, t))"
    "status wr = 404 \<longrightarrow> server_ents (as_world s') = server_ents (as_world s)"
    "server_inv (as_world s')" "server_arts (as_world s') = server_arts (as_world s)"
    by blast+
  ultimately show ?thesis using st hd by simp
qed

text \<open>The requests of the protocol, each with the clock of its handler.\<close>

datatype api_call =
  Upload time api_clock request
| Download time api_clock request
| Lookup request

fun serve ::
  "unicode_tables \<Rightarrow> archive_lib \<Rightarrow> codec \<Rightarrow> bool \<Rightarrow> int \<Rightarrow> api_call \<Rightarrow> server_world api_state \<Rightarrow>
   writer \<times> server_world api_state" where
  "serve u al js on_save mx (Upload now ck r) s = cache_put u al (server_api u js on_save mx now) ck r s"
| "serve u al js on_save mx (Download now ck r) s = cache_get (server_api u js on_save mx now) ck r s"
| "serve u al js on_save mx (Lookup r) s = cache_head (server_api u js on_save mx 0) r s"

primrec serve_all ::
  "unicode_tables \<Rightarrow> archive_lib \<Rightarrow> codec \<Rightarrow> bool \<Rightarrow> int \<Rightarrow> api_call list \<Rightarrow> server_world api_state \<Rightarrow>
   writer list \<times> server_world api_state" where
  "serve_all u al js on_save mx [] s = ([], s)"
| "serve_all u al js on_save mx (call # calls) s =
     (case serve u al js on_save mx call s of
        (wr, s1) \<Rightarrow> (case serve_all u al js on_save mx calls s1 of (wrs, s2) \<Rightarrow> (wr # wrs, s2)))"

text \<open>The answer a stored artifact \<open>d\<close> under \<open>h\<close> gives to a call.\<close>

fun answers :: "string \<Rightarrow> string \<Rightarrow> api_call \<Rightarrow> writer \<Rightarrow> bool" where
  "answers h d (Upload now ck r) wr \<longleftrightarrow> rq_hash r = h \<longrightarrow> status wr \<noteq> 200"
| "answers h d (Download now ck r) wr \<longleftrightarrow> rq_hash r = h \<longrightarrow> status wr = 200 \<and> wr_body wr = d"
| "answers h d (Lookup r) wr \<longleftrightarrow> rq_hash r = h \<longrightarrow> status wr = 200"

lemma serve_keeps:
  assumes "server_inv (as_world s)" and "server_arts (as_world s) h = Some (d, t)" and h: "valid_hash h"
    and "serve u al js on_save mx call s = (wr, s')"
  shows "server_inv (as_world s') \<and> server_arts (as_world s') h = Some (d, t) \<and> answers h d call wr"
proof (cases call)
  case (Upload now ck r)
  note o = srv.cache_put_outcome [OF assms(1) assms(4) [unfolded Upload serve.simps]]
  have "server_arts (as_world s') h = Some (d, t)" using o(3) [of h] assms(2) by auto
  moreover have "status wr \<noteq> 200" if "rq_hash r = h"
    using o(6) assms(2) that by (metis domI)
  ultimately show ?thesis using o(1) Upload by simp
next
  case (Download now ck r)
  note o = srv.cache_get_outcome [OF assms(1) assms(4) [unfolded Download serve.simps]]
  note st = server_get_ok [OF assms(1) assms(4) [unfolded Download serve.simps]]
  have "status wr = 200 \<and> wr_body wr = d" if "rq_hash r = h"
  proof -
    have "status wr = 200" using st that assms(2) h by auto
    with o that assms(2) show ?thesis by auto
  qed
  with o assms(2) Download show ?thesis by simp
next
  case (Lookup r)
  note st = server_head_ok [OF assms(4) [unfolded Lookup serve.simps]]
  have "status wr = 200" if "rq_hash r = h"
    using st(1) that assms(2) h by (simp add: domI)
  with st(2) assms Lookup show ?thesis by simp
qed

lemma serve_all_keeps:
  assumes "server_inv (as_world s)" and "server_arts (as_world s) h = Some (d, t)" and "valid_hash h"
    and "serve_all u al js on_save mx calls s = (wrs, s')"
  shows "server_inv (as_world s') \<and> server_arts (as_world s') h = Some (d, t) \<and> list_all2 (answers h d) calls wrs"
  using assms
proof (induction calls arbitrary: s wrs)
  case (Cons call calls)
  obtain wr s1 where c: "serve u al js on_save mx call s = (wr, s1)" by force
  obtain wrs2 s2 where r: "serve_all u al js on_save mx calls s1 = (wrs2, s2)" by force
  from Cons.prems(4) c r have w: "wrs = wr # wrs2" "s' = s2" by simp_all
  from serve_keeps [OF Cons.prems(1-3) c] Cons.IH [of s1 wrs2] Cons.prems(3) r w
  show ?case by simp
qed simp


text \<open>A well-formed upload of an absent hash is accepted.\<close>

lemma server_put_total:
  assumes "h \<notin> dom (server_arts w)" and "int (length (rd_data r)) = sz" and "rd_err r = None"
    and "sz < 2 ^ 63 - 1"
  shows "\<exists>c w'. be_put server_backend h r sz now w = (None, c, w')"
proof -
  have "in64 (sz + 1)" using assms(2,4) by (auto simp: in64_def)
  then have "wrap64 (sz + 1) = sz + 1" by (rule wrap64_id)
  moreover from assms(1) have "\<not> ghas (mem_objects (wo_disk w)) h"
    by (simp add: server_arts_def mem_arts_def ghas_def dom_def)
  ultimately show ?thesis using assms
    by (simp add: server_backend_def lift_backend_def memory_backend_def mem_put_def Let_def
        read_all_limited_def)
qed

lemma server_upsert_total: "\<exists>w'. st_upsert (server_store u js now) h n at info w = (None, w')"
  by (simp add: server_store_def world_store_def new_notifying_def notify_if_def on_cat_def
      object_store_def obj_upsert_def Let_def split: prod.splits)

lemma put_object_accepts:
  assumes "rq_hash r \<notin> dom (server_arts (as_world s))" and "int (length (rd_data (rq_body r))) = sz"
    and "rd_err (rq_body r) = None" and "sz < 2 ^ 63 - 1"
  shows "status (fst (put_object u al (server_api u js on_save mx now) ck r sz s)) = 200"
proof -
  obtain c w' where p: "be_put server_backend (rq_hash r) (rq_body r) sz (ck_put ck) (as_world s) = (None, c, w')"
    using server_put_total [OF assms] by blast
  obtain w'' where up: "st_upsert (server_store u js now) (rq_hash r) sz (ck_now ck)
      (merge_info u (from_headers u (rq_header r)) (inspect u al \<lparr>rd_data = c, rd_err = None\<rparr>)) w' = (None, w'')"
    using server_upsert_total by blast
  show ?thesis using assms(1) p up
    by (simp add: put_object_def server_api_def server_exists Let_def)
qed


section \<open>Concrete instances\<close>

definition example_clock :: api_clock where [go_eval]:
  "example_clock = \<lparr>ck_start = march_4, ck_put = march_4, ck_now = march_4, ck_gap = march_4,
     ck_last = march_4, ck_end = march_4, ck_notify = march_4\<rparr>"

definition example_upload :: request where [go_eval]:
  "example_upload = (get_request ''/v1/cache/b2'')\<lparr>rq_method := ''PUT'', rq_hash := ''b2'',
     rq_header := [(''Content-Length'', [''3''])], rq_body := \<lparr>rd_data = ''xyz'', rd_err = None\<rparr>\<rparr>"

definition example_download :: "string \<Rightarrow> request" where [go_eval]:
  "example_download h = (get_request ''/v1/cache/x'')\<lparr>rq_hash := h\<rparr>"

definition example_state :: "server_world api_state" where
  "example_state = \<lparr>as_world = example_world, as_cleaner = None, as_runs = 0, as_metrics = None\<rparr>"

lemma example_state_inv: "server_inv (as_world example_state)"
  by (simp add: example_state_def example_world_inv)

lemma example_state_arts: "server_arts (as_world example_state) = [''a1'' \<mapsto> (''0123456789'', march_4)]"
  by (simp add: example_state_def example_world_arts)

lemma example_hashes: "valid_hash ''a1''" "valid_hash ''b2''"
  by (simp_all add: valid_hash_iff go_eval)

lemma example_upload_sel:
  "rq_hash example_upload = ''b2''" "rd_data (rq_body example_upload) = ''xyz''"
  "rd_err (rq_body example_upload) = None" "header_value example_upload ''Content-Length'' = int_str 3"
  "rq_hash (example_download h) = h"
  by (simp_all add: go_eval)




theorem download_outcome_witness:
  "\<exists>wr s' wr2 s2. cache_get (server_api ascii_tables example_codec False 100 march_4) example_clock
       (example_download ''b2'') example_state = (wr, s')
     \<and> cache_head (server_api ascii_tables example_codec False 100 march_4) (example_download ''b2'')
         example_state = (wr2, s2)
     \<and> status wr = 404 \<and> status wr2 = 404"
proof -
  obtain wr s' where a: "cache_get (server_api ascii_tables example_codec False 100 march_4) example_clock
      (example_download ''b2'') example_state = (wr, s')" by force
  obtain wr2 s2 where b: "cache_head (server_api ascii_tables example_codec False 100 march_4)
      (example_download ''b2'') example_state = (wr2, s2)" by force
  show ?thesis
    using download_outcome [OF example_state_inv a b] a b by (auto simp: example_upload_sel example_state_arts)
qed

end
