(* ===== verification/Go_Base64.thy ===== *)
theory Go_Base64
  imports Go_Strings
begin

text \<open>
  \<open>base64.RawURLEncoding\<close>: three bytes become four letters, without padding. Decoding skips
  line breaks, refuses a letter outside the alphabet and a lone letter at the end, and does
  not look at the unused low bits of the last letter. Decoding inverts encoding.
\<close>

definition b64_char :: "nat \<Rightarrow> char" where [go_eval]:
  "b64_char n =
     (if n < 26 then byte (65 + n) else if n < 52 then byte (97 + (n - 26))
      else if n < 62 then byte (48 + (n - 52)) else if n = 62 then CHR ''-'' else CHR ''_'')"

definition b64_val :: "char \<Rightarrow> nat option" where [go_eval]:
  "b64_val c =
     (let n = bval c in
      if 65 \<le> n \<and> n \<le> 90 then Some (n - 65) else if 97 \<le> n \<and> n \<le> 122 then Some (n - 97 + 26)
      else if 48 \<le> n \<and> n \<le> 57 then Some (n - 48 + 52) else if n = bval (CHR ''-'') then Some 62
      else if n = bval (CHR ''_'') then Some 63 else None)"

fun b64_pack :: "string \<Rightarrow> nat list" where
  "b64_pack [] = []"
| "b64_pack [a] = [bval a div 4, bval a mod 4 * 16]"
| "b64_pack [a, b] = [bval a div 4, bval a mod 4 * 16 + bval b div 16, bval b mod 16 * 4]"
| "b64_pack (a # b # c # s) =
     bval a div 4 # (bval a mod 4 * 16 + bval b div 16) # (bval b mod 16 * 4 + bval c div 64)
       # bval c mod 64 # b64_pack s"

definition b64_encode :: "string \<Rightarrow> string" where [go_eval]:
  "b64_encode s = map b64_char (b64_pack s)"

fun b64_unpack :: "nat list \<Rightarrow> string option" where
  "b64_unpack [] = Some []"
| "b64_unpack [x] = None"
| "b64_unpack [x, y] = Some [byte (x * 4 + y div 16)]"
| "b64_unpack [x, y, z] = Some [byte (x * 4 + y div 16), byte (y mod 16 * 16 + z div 4)]"
| "b64_unpack (x # y # z # w # vs) =
     map_option (\<lambda>s. byte (x * 4 + y div 16) # byte (y mod 16 * 16 + z div 4) # byte (z mod 4 * 64 + w) # s)
       (b64_unpack vs)"

definition b64_decode :: "string \<Rightarrow> string option" where [go_eval]:
  "b64_decode s =
     (case those (map b64_val (filter (\<lambda>c. c \<noteq> byte 10 \<and> c \<noteq> byte 13) s)) of
        None \<Rightarrow> None
      | Some vs \<Rightarrow> b64_unpack vs)"

lemmas [go_eval] = b64_pack.simps b64_unpack.simps

lemma b64_bounds: "bval c div 4 < 64" "bval c div 16 < 16" "bval c div 64 < 4"
  by (rule less_mult_imp_div_less, simp add: less_le_trans [OF bval_less])+

lemma b64_pack_bound: "list_all (\<lambda>v. v < 64) (b64_pack s)"
proof -
  have "x mod 4 * 16 + y < 64" if "y < 16" for x y :: nat
    using that mod_less_divisor [of 4 x] by linarith
  moreover have "x mod 16 * 4 + y < 64" if "y < 4" for x y :: nat
    using that mod_less_divisor [of 16 x] by linarith
  moreover have "x mod 16 * 4 < 64" "x mod 4 * 16 < 64" for x :: nat
    using mod_less_divisor [of 16 x] mod_less_divisor [of 4 x] by linarith+
  ultimately show ?thesis by (induction s rule: b64_pack.induct) (simp_all add: b64_bounds)
qed

lemma b64_val_char: "n < 64 \<Longrightarrow> b64_val (b64_char n) = Some n"
proof -
  have [simp]: "bval (CHR ''-'') = 45" "bval (CHR ''_'') = 95" by (simp_all add: bval_def)
  assume n: "n < 64"
  then have [simp]: "bval (byte (n - 4)) = n - 4" by simp
  from n consider "n < 26" | "26 \<le> n \<and> n < 52" | "52 \<le> n \<and> n < 62" | "n = 62" | "n = 63" by linarith
  then show ?thesis by cases (auto simp: b64_val_def b64_char_def Let_def)
qed

lemma b64_char_plain: "n < 64 \<Longrightarrow> b64_char n \<noteq> byte 10 \<and> b64_char n \<noteq> byte 13"
proof -
  assume "n < 64"
  moreover have "b64_val (byte 10) = None" "b64_val (byte 13) = None"
    by (simp_all add: go_eval)
  ultimately show ?thesis using b64_val_char [of n] by auto
qed

lemma those_vals: "list_all (\<lambda>v. v < 64) vs \<Longrightarrow>
    those (map b64_val (filter (\<lambda>c. c \<noteq> byte 10 \<and> c \<noteq> byte 13) (map b64_char vs))) = Some vs"
  by (induction vs) (simp_all add: b64_val_char b64_char_plain)

lemma b64_unpack_pack: "b64_unpack (b64_pack s) = Some s"
proof (induction s rule: b64_pack.induct)
  case (2 a)
  have "bval a div 4 * 4 + bval a mod 4 = bval a" by simp
  then show ?case by simp
next
  case (3 a b)
  have "(bval a mod 4 * 16 + bval b div 16) div 16 = bval a mod 4"
    "(bval a mod 4 * 16 + bval b div 16) mod 16 = bval b div 16"
    using b64_bounds(2) [of b] by simp_all
  moreover have "bval a div 4 * 4 + bval a mod 4 = bval a" "bval b div 16 * 16 + bval b mod 16 = bval b"
    by simp_all
  ultimately show ?case by simp
next
  case (4 a b c s)
  have "(bval a mod 4 * 16 + bval b div 16) div 16 = bval a mod 4"
    "(bval a mod 4 * 16 + bval b div 16) mod 16 = bval b div 16"
    "(bval b mod 16 * 4 + bval c div 64) div 4 = bval b mod 16"
    "(bval b mod 16 * 4 + bval c div 64) mod 4 = bval c div 64"
    using b64_bounds(2) [of b] b64_bounds(3) [of c] by simp_all
  moreover have "bval a div 4 * 4 + bval a mod 4 = bval a" "bval b div 16 * 16 + bval b mod 16 = bval b"
    "bval c div 64 * 64 + bval c mod 64 = bval c" by simp_all
  ultimately show ?case using 4 by simp
qed simp

lemma b64_roundtrip: "b64_decode (b64_encode s) = Some s"
  unfolding b64_decode_def b64_encode_def by (simp only: those_vals [OF b64_pack_bound] b64_unpack_pack option.case)

lemma b64_encode_inj: "b64_encode s = b64_encode t \<Longrightarrow> s = t"
  using b64_roundtrip by (metis option.inject)

lemma b64_encode_Nil [simp]: "b64_encode s = [] \<longleftrightarrow> s = []"
  by (cases s rule: b64_pack.cases) (simp_all add: b64_encode_def)

text \<open>The alphabet has no separator of a session token.\<close>

lemma b64_alphabet: "c \<in> set (b64_encode s) \<Longrightarrow> b64_val c \<noteq> None"
  using b64_pack_bound [of s] by (auto simp: b64_encode_def list_all_iff b64_val_char)

end
