(* ===== verification/Auth.thy ===== *)
theory Auth
  imports Go_Base64 Go_Http Longpoll
begin

text \<open>
  \<open>internal/auth/auth.go\<close>: bearer tokens of the cache API, the password check, and the signed
  session cookie and CSRF token of the dashboard. SHA-256 and HMAC-SHA-256 are functions the
  model takes as they come: nothing is assumed of them except, where a theorem says so, that
  the digests of the few strings it compares do not collide.
\<close>

record crypto =
  cr_sha256 :: "string \<Rightarrow> string"
  cr_hmac :: "string \<Rightarrow> string \<Rightarrow> string"

definition secure_eq :: "crypto \<Rightarrow> string \<Rightarrow> string \<Rightarrow> bool" where [go_eval]:
  "secure_eq cr a b \<longleftrightarrow> cr_sha256 cr a = cr_sha256 cr b"

definition check_password :: "crypto \<Rightarrow> string \<Rightarrow> string \<Rightarrow> bool" where [go_eval]:
  "check_password cr got want \<longleftrightarrow> cr_sha256 cr got = cr_sha256 cr want"

section \<open>Bearer tokens\<close>

definition bad_token_msg :: string where [go_eval]:
  "bad_token_msg = ''Missing or invalid authentication token''"

definition read_only_msg :: string where [go_eval]:
  "read_only_msg = ''Access forbidden. (e.g. read-only token used to write)''"

definition bearer_ok :: "crypto \<Rightarrow> string \<Rightarrow> string \<Rightarrow> string \<Rightarrow> bool \<Rightarrow> bool \<times> int \<times> string" where [go_eval]:
  "bearer_ok cr header write_token read_token write =
     (if \<not> has_prefix header ''Bearer '' then (False, 401, bad_token_msg)
      else let got = trim_prefix header ''Bearer '' in
        if write_token \<noteq> [] \<and> secure_eq cr got write_token then (True, 0, [])
        else if read_token \<noteq> [] \<and> secure_eq cr got read_token
             then (if write then (False, 403, read_only_msg) else (True, 0, []))
        else (False, 401, bad_token_msg))"

section \<open>Sessions\<close>

definition cookie_name :: string where [go_eval]: "cookie_name = ''nx_cache_session''"
definition session_ttl :: duration where [go_eval]: "session_ttl = 12 * hour"
definition csrf_purpose :: string where [go_eval]: "csrf_purpose = ''nx-cache-ui''"

text \<open>
  A cookie as \<open>http.SetCookie\<close> writes it. Its values here are base64url text or empty, which the
  library writes as they are; both expiry times are in the range it accepts.
\<close>

record cookie =
  co_name :: string
  co_value :: string
  co_path :: string
  co_http_only :: bool
  co_lax :: bool
  co_secure :: bool
  co_max_age :: int
  co_expires :: time

definition cookie_string :: "http_dates \<Rightarrow> cookie \<Rightarrow> string" where [go_eval]:
  "cookie_string ht c =
     co_name c @ ''='' @ co_value c
     @ (if co_path c = [] then [] else ''; Path='' @ co_path c)
     @ ''; Expires='' @ hd_format ht (co_expires c)
     @ (if co_max_age c > 0 then ''; Max-Age='' @ int_str (co_max_age c)
        else if co_max_age c < 0 then ''; Max-Age=0'' else [])
     @ (if co_http_only c then ''; HttpOnly'' else [])
     @ (if co_secure c then ''; Secure'' else [])
     @ (if co_lax c then ''; SameSite=Lax'' else [])"

definition send_cookie :: "http_dates \<Rightarrow> cookie \<Rightarrow> writer \<Rightarrow> writer" where [go_eval]:
  "send_cookie ht c w =
     w\<lparr>wr_header := gset (wr_header w) ''Set-Cookie''
        ((case gget (wr_header w) ''Set-Cookie'' of None \<Rightarrow> [] | Some vs \<Rightarrow> vs) @ [cookie_string ht c])\<rparr>"

record sessions =
  se_secret :: string
  se_username :: string
  se_secure :: bool

definition sign :: "crypto \<Rightarrow> string \<Rightarrow> string \<Rightarrow> string" where [go_eval]:
  "sign cr secret payload = b64_encode (cr_hmac cr secret payload)"

definition session_cookie :: "crypto \<Rightarrow> sessions \<Rightarrow> time \<Rightarrow> string \<Rightarrow> cookie" where [go_eval]:
  "session_cookie cr s now username =
     (let exp = unix (time_add now session_ttl);
          payload = username @ ''|'' @ int_str exp;
          token = payload @ ''.'' @ sign cr (se_secret s) payload
      in \<lparr>co_name = cookie_name, co_value = b64_encode token, co_path = ''/'', co_http_only = True,
          co_lax = True, co_secure = se_secure s, co_max_age = 43200, co_expires = of_unix exp\<rparr>)"

definition set_session_cookie ::
  "http_dates \<Rightarrow> crypto \<Rightarrow> sessions \<Rightarrow> time \<Rightarrow> string \<Rightarrow> writer \<Rightarrow> writer" where [go_eval]:
  "set_session_cookie ht cr s now username w = send_cookie ht (session_cookie cr s now username) w"

definition clear_session_cookie :: "http_dates \<Rightarrow> sessions \<Rightarrow> writer \<Rightarrow> writer" where [go_eval]:
  "clear_session_cookie ht s w =
     send_cookie ht \<lparr>co_name = cookie_name, co_value = [], co_path = ''/'', co_http_only = True,
       co_lax = True, co_secure = se_secure s, co_max_age = -1, co_expires = of_unix 0\<rparr> w"

definition username_from_request :: "crypto \<Rightarrow> sessions \<Rightarrow> time \<Rightarrow> request \<Rightarrow> string option" where [go_eval]:
  "username_from_request cr s now r =
     (case request_cookie r cookie_name of
        None \<Rightarrow> None
      | Some v \<Rightarrow>
          if v = [] then None
          else (case b64_decode v of
            None \<Rightarrow> None
          | Some token \<Rightarrow>
              (case cut_at (CHR ''.'') token of
                 (payload, sig, dot) \<Rightarrow>
                   if \<not> dot \<or> \<not> secure_eq cr sig (sign cr (se_secret s) payload) then None
                   else (case cut_at (CHR ''|'') payload of
                     (user, exp_str, bar) \<Rightarrow>
                       if \<not> bar \<or> user = [] \<or> user \<noteq> se_username s then None
                       else (case parse_int exp_str of
                         (exp, err) \<Rightarrow> if err \<noteq> None \<or> unix now > exp then None else Some user)))))"

definition csrf_token :: "crypto \<Rightarrow> sessions \<Rightarrow> string \<Rightarrow> string" where [go_eval]:
  "csrf_token cr s username = sign cr (se_secret s) (csrf_purpose @ ''|'' @ username)"

definition valid_csrf_token :: "crypto \<Rightarrow> sessions \<Rightarrow> string \<Rightarrow> string \<Rightarrow> bool" where [go_eval]:
  "valid_csrf_token cr s username token \<longleftrightarrow> token \<noteq> [] \<and> secure_eq cr token (csrf_token cr s username)"

section \<open>Lemmas\<close>

lemma secure_eq_refl [simp]: "secure_eq cr a a"
  by (simp add: secure_eq_def)

lemma cut_at_first:
  "c \<in> set s \<Longrightarrow> \<exists>a b. cut_at c s = (a, b, True) \<and> length a < length s"
  by (induction s) (force split: prod.splits)+

lemma cut_at_extends: "c \<in> set s \<Longrightarrow> fst (cut_at c (s @ t)) = fst (cut_at c s)"
  by (induction s) (auto split: prod.splits)

lemma cut_at_shorter: "length (fst (cut_at c s)) \<le> length s"
  by (induction s) (auto split: prod.splits)

lemma int_str_plain: "c \<noteq> CHR ''-'' \<Longrightarrow> \<not> is_digit c \<Longrightarrow> c \<notin> set (int_str i)"
  by (auto simp: int_str_def nat_str_not_in)

lemma separators_plain: "CHR ''.'' \<notin> set (int_str i)" "CHR ''|'' \<notin> set (int_str i)"
  by (rule int_str_plain; simp add: go_eval)+

lemma request_cookie_named:
  "request_cookie (r\<lparr>rq_cookies := (cookie_name, v) # cs\<rparr>) cookie_name = Some v"
  by (simp add: request_cookie_def)

text \<open>What an accepted cookie must hold.\<close>

lemma username_accepted:
  assumes "username_from_request cr s now r = Some u"
  obtains v payload sig exps exp where "request_cookie r cookie_name = Some v"
    "b64_decode v = Some (payload @ ''.'' @ sig)" "CHR ''.'' \<notin> set payload"
    "secure_eq cr sig (sign cr (se_secret s) payload)"
    "payload = u @ ''|'' @ exps" "u = se_username s" "u \<noteq> []" "CHR ''|'' \<notin> set u"
    "parse_int exps = (exp, None)" "unix now \<le> exp"
proof -
  from assms obtain v where v: "request_cookie r cookie_name = Some v"
    by (auto simp: username_from_request_def split: option.splits)
  from assms v obtain token where t: "b64_decode v = Some token"
    by (auto simp: username_from_request_def split: option.splits if_splits)
  obtain payload sig dot where c1: "cut_at (CHR ''.'') token = (payload, sig, dot)" by (metis prod_cases3)
  obtain user exps bar where c2: "cut_at (CHR ''|'') payload = (user, exps, bar)" by (metis prod_cases3)
  obtain exp err where pi: "parse_int exps = (exp, err)" by force
  have x: "dot" "secure_eq cr sig (sign cr (se_secret s) payload)" "bar" "user \<noteq> []" "user = se_username s"
      "err = None" "unix now \<le> exp" "u = user"
    using assms v t c1 c2 pi by (auto simp: username_from_request_def split: if_splits)
  from that [OF v _ _ _ _ _ _ _ _ x(7)] show ?thesis
    using t x pi cut_at_found [of "CHR ''.''" token payload sig] cut_at_found [of "CHR ''|''" payload user exps] c1 c2
    by simp
qed

lemma session_cookie_result:
  assumes "se_username s \<noteq> []" and "in64 (unix (time_add now session_ttl))"
    and "request_cookie r cookie_name = Some (co_value (session_cookie cr s now (se_username s)))"
  shows "username_from_request cr s later r =
    (if CHR ''.'' \<notin> set (se_username s) \<and> CHR ''|'' \<notin> set (se_username s)
        \<and> unix later \<le> unix (time_add now session_ttl)
     then Some (se_username s) else None)"
proof -
  let ?u = "se_username s" let ?e = "unix (time_add now session_ttl)"
  let ?p = "?u @ ''|'' @ int_str ?e"
  let ?t = "?p @ ''.'' @ sign cr (se_secret s) ?p"
  have v: "request_cookie r cookie_name = Some (b64_encode ?t)"
    using assms(3) by (simp add: session_cookie_def Let_def)
  consider "CHR ''.'' \<in> set ?u" | "CHR ''.'' \<notin> set ?u" "CHR ''|'' \<in> set ?u"
    | "CHR ''.'' \<notin> set ?u" "CHR ''|'' \<notin> set ?u" by blast
  then show ?thesis
  proof cases
    case 1
    have "username_from_request cr s later r = None"
    proof (rule ccontr)
      assume "username_from_request cr s later r \<noteq> None"
      then obtain u where "username_from_request cr s later r = Some u" by auto
      then obtain v' payload sig exps where a: "request_cookie r cookie_name = Some v'"
          "b64_decode v' = Some (payload @ ''.'' @ sig)" "CHR ''.'' \<notin> set payload"
          "payload = ?u @ ''|'' @ exps"
        by (rule username_accepted) blast
      with 1 show False by simp
    qed
    with 1 show ?thesis by simp
  next
    case 2
    have "username_from_request cr s later r = None"
    proof (rule ccontr)
      assume "username_from_request cr s later r \<noteq> None"
      then obtain u where "username_from_request cr s later r = Some u" by auto
      then show False by (rule username_accepted) (use 2 in blast)
    qed
    with 2 show ?thesis by simp
  next
    case 3
    have "cut_at (CHR ''.'') (?p @ ''.'' @ sign cr (se_secret s) ?p) = (?p, sign cr (se_secret s) ?p, True)"
      using cut_at_append [of "CHR ''.''" ?p "sign cr (se_secret s) ?p"] 3(1) separators_plain
      by simp
    moreover have "cut_at (CHR ''|'') ?p = (?u, int_str ?e, True)"
      using cut_at_append [of "CHR ''|''" ?u "int_str ?e"] 3(2) by simp
    ultimately show ?thesis using 3 v assms(1) parse_int_str [OF assms(2)]
      by (simp add: username_from_request_def b64_roundtrip)
  qed
qed

section \<open>Claims\<close>

text \<open>
  The decision on a bearer token. Unless digests collide, a request is authorised exactly
  when its header is the prefix followed by a configured token that may do what is asked: the
  write token anything, the read token only reads; the read token on a write is the one case
  that is forbidden, everything else is unauthorised, and an empty token is never accepted.
\<close>

theorem bearer_decision:
  assumes "inj_on (cr_sha256 cr) {trim_prefix header ''Bearer '', write_token, read_token}"
  shows "bearer_ok cr header write_token read_token write =
    (if write_token \<noteq> [] \<and> header = ''Bearer '' @ write_token then (True, 0, [])
     else if read_token \<noteq> [] \<and> header = ''Bearer '' @ read_token
          then (if write then (False, 403, read_only_msg) else (True, 0, []))
     else (False, 401, bad_token_msg))"
proof (cases "has_prefix header ''Bearer ''")
  case True
  then obtain got where h: "header = ''Bearer '' @ got" by (auto simp: has_prefix_iff)
  then have "trim_prefix header ''Bearer '' = got" by (simp only: trim_prefix_append)
  with assms have "secure_eq cr got write_token \<longleftrightarrow> got = write_token"
    "secure_eq cr got read_token \<longleftrightarrow> got = read_token"
    by (auto simp: secure_eq_def inj_on_def)
  with True h \<open>trim_prefix header ''Bearer '' = got\<close> show ?thesis
    by (simp add: bearer_ok_def Let_def)
next
  case False
  then show ?thesis by (auto simp: bearer_ok_def has_prefix_iff)
qed

text \<open>
  C27: the cookie of a login works exactly for user names without a dot and a bar, until the
  session ends. A name that contains one of the two separators of the token can log in, but no
  request is ever recognised as its session.
\<close>

theorem session_cookie_roundtrip:
  assumes "se_username s \<noteq> []" and "in64 (unix (time_add now session_ttl))"
    and "request_cookie r cookie_name = Some (co_value (session_cookie cr s now (se_username s)))"
  shows "username_from_request cr s later r =
    (if CHR ''.'' \<notin> set (se_username s) \<and> CHR ''|'' \<notin> set (se_username s)
        \<and> unix later \<le> unix (time_add now session_ttl)
     then Some (se_username s) else None)"
  using assms by (rule session_cookie_result)

text \<open>
  C26: an accepted session was signed. A cookie that identifies a request decodes to a user name,
  an expiry that has not passed, and, unless digests collide, exactly the signature of these two
  under the secret of the server; the name is the configured one.
\<close>

theorem session_is_signed:
  assumes "username_from_request cr s now r = Some u"
    and "\<And>v sig payload. request_cookie r cookie_name = Some v \<Longrightarrow> b64_decode v = Some (payload @ ''.'' @ sig) \<Longrightarrow>
      secure_eq cr sig (sign cr (se_secret s) payload) \<Longrightarrow> sig = sign cr (se_secret s) payload"
  shows "\<exists>v exps exp. request_cookie r cookie_name = Some v
     \<and> b64_decode v = Some (u @ ''|'' @ exps @ ''.'' @ sign cr (se_secret s) (u @ ''|'' @ exps))
     \<and> parse_int exps = (exp, None) \<and> unix now \<le> exp \<and> u = se_username s \<and> u \<noteq> []"
  using assms(1)
proof (rule username_accepted)
  fix v payload sig exps exp
  assume "secure_eq cr sig (sign cr (se_secret s) payload)" and p: "payload = u @ ''|'' @ exps"
    and "request_cookie r cookie_name = Some v" "b64_decode v = Some (payload @ ''.'' @ sig)"
      "parse_int exps = (exp, None)" "unix now \<le> exp" "u = se_username s" "u \<noteq> []"
  then show ?thesis using assms(2) [of v payload sig] by auto
qed

text \<open>
  A form token authorises one user. Unless digests collide, the token a page was rendered
  with is accepted, and nothing else is.
\<close>

theorem csrf_token_unique:
  assumes "inj_on (cr_sha256 cr) {token, csrf_token cr s user}"
    and "cr_hmac cr (se_secret s) (''nx-cache-ui|'' @ user) \<noteq> []"
  shows "valid_csrf_token cr s user token \<longleftrightarrow> token = csrf_token cr s user"
  using assms by (auto simp: valid_csrf_token_def secure_eq_def inj_on_def csrf_token_def sign_def csrf_purpose_def)

section \<open>Concrete instances\<close>

text \<open>A digest without collisions and a MAC that joins key and message.\<close>

definition example_crypto :: crypto where [go_eval]:
  "example_crypto = \<lparr>cr_sha256 = (\<lambda>s. s), cr_hmac = (\<lambda>k m. k @ m)\<rparr>"

definition example_sessions :: sessions where [go_eval]:
  "example_sessions = \<lparr>se_secret = ''k'', se_username = ''admin'', se_secure = True\<rparr>"

definition example_session_request :: request where
  "example_session_request = (get_request ''/'')\<lparr>rq_cookies :=
     [(cookie_name, co_value (session_cookie example_crypto example_sessions (of_unix 0) ''admin''))]\<rparr>"

theorem bearer_decision_witness:
  "bearer_ok example_crypto ''Bearer r'' ''w'' ''r'' True = (False, 403, read_only_msg)"
  using bearer_decision [of example_crypto "''Bearer r''" "''w''" "''r''" True]
  by (simp add: example_crypto_def)

lemma example_cookie:
  "request_cookie example_session_request cookie_name =
     Some (co_value (session_cookie example_crypto example_sessions (of_unix 0) (se_username example_sessions)))"
  by (simp add: example_session_request_def request_cookie_def example_sessions_def)

lemma example_plain: "CHR ''.'' \<notin> set (se_username example_sessions)" "CHR ''|'' \<notin> set (se_username example_sessions)"
    "se_username example_sessions \<noteq> []" "in64 (unix (time_add (of_unix 0) session_ttl))"
    "unix (time_add (of_unix 0) session_ttl) = 43200"
  by (simp_all add: go_eval)

lemma example_login:
  "username_from_request example_crypto example_sessions (of_unix 60) example_session_request = Some ''admin''"
  using session_cookie_result [OF example_plain(3,4) example_cookie, of "of_unix 60"] example_plain
  by (simp add: example_sessions_def)

theorem session_cookie_roundtrip_witness:
  "username_from_request example_crypto example_sessions (of_unix 43200) example_session_request = Some ''admin''
   \<and> username_from_request example_crypto example_sessions (of_unix 43201) example_session_request = None"
  using session_cookie_roundtrip [OF example_plain(3,4) example_cookie, of "of_unix 43200"]
    session_cookie_roundtrip [OF example_plain(3,4) example_cookie, of "of_unix 43201"] example_plain
  by (simp add: example_sessions_def)

theorem session_is_signed_witness:
  "\<exists>v exps exp. request_cookie example_session_request cookie_name = Some v
     \<and> b64_decode v = Some (''admin|'' @ exps @ ''.'' @ sign example_crypto ''k'' (''admin|'' @ exps))
     \<and> parse_int exps = (exp, None) \<and> 60 \<le> exp"
  using session_is_signed [OF example_login] by (auto simp: secure_eq_def example_crypto_def example_sessions_def)

theorem csrf_token_unique_witness:
  "valid_csrf_token example_crypto example_sessions ''admin'' (csrf_token example_crypto example_sessions ''admin'')"
  using csrf_token_unique [of example_crypto "csrf_token example_crypto example_sessions ''admin''" example_sessions "''admin''"]
  by (simp add: example_crypto_def)

end
