(* ===== verification/Go_Net.thy ===== *)
theory Go_Net
  imports Go_Strings
begin

unbundle bit_operations_syntax

text \<open>
  The parts of \<open>net\<close> and \<open>net/netip\<close> the server uses: \<open>ParseIP\<close>, \<open>IP.String\<close>, \<open>ParseCIDR\<close>,
  \<open>IPNet.Contains\<close> and \<open>SplitHostPort\<close>. An address is its list of bytes, 16 of them after
  parsing, 4 after \<open>To4\<close>.
\<close>

type_synonym ip = "nat list"

section \<open>Parsing addresses\<close>

definition v4_octet :: "string \<Rightarrow> nat option" where [go_eval]:
  "v4_octet s =
     (if s = [] \<or> \<not> list_all is_digit s \<or> (length s > 1 \<and> s ! 0 = CHR ''0'') \<or> digits_val s > 255 then None
      else Some (digits_val s))"

definition parse_v4 :: "string \<Rightarrow> ip option" where [go_eval]:
  "parse_v4 s =
     (let parts = split_at (CHR ''.'') s in
      if length parts \<noteq> 4 then None else those (map v4_octet parts))"

definition hex_val :: "char \<Rightarrow> nat option" where [go_eval]:
  "hex_val c =
     (if in_range (CHR ''0'') (CHR ''9'') c then Some (bval c - 48)
      else if in_range (CHR ''a'') (CHR ''f'') c then Some (bval c - 97 + 10)
      else if in_range (CHR ''A'') (CHR ''F'') c then Some (bval c - 65 + 10) else None)"

text \<open>The hexadecimal digits at the front of a string and what follows them.\<close>

fun hex_run :: "string \<Rightarrow> nat list \<times> string" where
  "hex_run [] = ([], [])"
| "hex_run (c # s) =
     (case hex_val c of None \<Rightarrow> ([], c # s) | Some v \<Rightarrow> (case hex_run s of (vs, t) \<Rightarrow> (v # vs, t)))"

definition hex_number :: "nat list \<Rightarrow> nat" where [go_eval]:
  "hex_number vs = foldl (\<lambda>a v. a * 16 + v) 0 vs"

text \<open>
  The loop of \<open>parseIPv6\<close>: \<open>done\<close> are the bytes so far, \<open>ell\<close> is where the ellipsis stood. The
  result is the bytes and the ellipsis. A group of more than four digits, a lone colon, a second
  ellipsis and a misplaced IPv4 tail are errors; the loop stops after 16 bytes.
\<close>

function v6_groups :: "ip \<Rightarrow> nat option \<Rightarrow> string \<Rightarrow> (ip \<times> nat option) option" where
  "v6_groups got ell s =
     (if length got \<ge> 16 then (if s = [] then Some (got, ell) else None)
      else (case hex_run s of
        (vs, t) \<Rightarrow>
          if vs = [] \<or> length vs > 4 then None
          else if t \<noteq> [] \<and> t ! 0 = CHR ''.'' then
            (if (ell = None \<and> length got \<noteq> 12) \<or> length got + 4 > 16 then None
             else map_option (\<lambda>q. (got @ q, ell)) (parse_v4 s))
          else
            (let got' = got @ [hex_number vs div 256, hex_number vs mod 256] in
             case t of
               [] \<Rightarrow> Some (got', ell)
             | c # t1 \<Rightarrow>
                 if c \<noteq> CHR '':'' then None
                 else (case t1 of
                   [] \<Rightarrow> None
                 | d # t2 \<Rightarrow>
                     if d = CHR '':'' then
                       (if ell \<noteq> None then None
                        else if t2 = [] then Some (got', Some (length got'))
                        else v6_groups got' (Some (length got')) t2)
                     else v6_groups got' ell t1))))"
  by pat_completeness auto

termination
  by (relation "measure (\<lambda>(got, _, _). 16 - length got)") auto

declare v6_groups.simps [simp del]

definition parse_v6 :: "string \<Rightarrow> ip option" where [go_eval]:
  "parse_v6 s =
     (let lead = has_prefix s ''::''; s1 = (if lead then drop 2 s else s) in
      if lead \<and> s1 = [] then Some (replicate 16 0)
      else (case v6_groups [] (if lead then Some 0 else None) s1 of
        None \<Rightarrow> None
      | Some (bs, ell) \<Rightarrow>
          (case ell of
             None \<Rightarrow> if length bs < 16 then None else Some bs
           | Some e \<Rightarrow> if length bs \<ge> 16 then None
                       else Some (take e bs @ replicate (16 - length bs) 0 @ drop e bs))))"

definition v4_prefix :: ip where [go_eval]:
  "v4_prefix = [0, 0, 0, 0, 0, 0, 0, 0, 0, 0, 255, 255]"

text \<open>
  \<open>netip.ParseAddr\<close> decides by the first dot, colon or percent sign; the flag tells an IPv4
  address. A zone is refused by the callers, so an address with a percent sign has no result.
\<close>

definition parse_addr :: "string \<Rightarrow> (ip \<times> bool) option" where [go_eval]:
  "parse_addr s =
     (case dropWhile (\<lambda>c. c \<noteq> CHR ''.'' \<and> c \<noteq> CHR '':'' \<and> c \<noteq> CHR ''%'') s of
        [] \<Rightarrow> None
      | c # _ \<Rightarrow>
          if c = CHR ''.'' then map_option (\<lambda>q. (v4_prefix @ q, True)) (parse_v4 s)
          else if c = CHR '':'' \<and> CHR ''%'' \<notin> set s then map_option (\<lambda>b. (b, False)) (parse_v6 s)
          else None)"

definition parse_ip :: "string \<Rightarrow> ip option" where [go_eval]:
  "parse_ip s = map_option fst (parse_addr s)"

definition to4 :: "ip \<Rightarrow> ip option" where [go_eval]:
  "to4 b =
     (if length b = 4 then Some b
      else if length b = 16 \<and> take 12 b = v4_prefix then Some (drop 12 b) else None)"

section \<open>Printing addresses\<close>

definition hex_char :: "nat \<Rightarrow> char" where [go_eval]:
  "hex_char n = (if n < 10 then byte (48 + n) else byte (87 + n))"

fun hex_str :: "nat \<Rightarrow> string" where
  "hex_str n = (if n < 16 then [hex_char n] else hex_str (n div 16) @ [hex_char (n mod 16)])"

declare hex_str.simps [simp del]

fun words_of :: "ip \<Rightarrow> nat list" where
  "words_of (a # b # bs) = (a * 256 + b) # words_of bs"
| "words_of bs = []"

definition zero_run :: "nat list \<Rightarrow> nat \<Rightarrow> nat" where [go_eval]:
  "zero_run ws i = length (takeWhile (\<lambda>w. w = 0) (drop i ws))"

text \<open>The first of the longest runs of at least two zero groups.\<close>

definition best_run :: "nat list \<Rightarrow> (nat \<times> nat) option" where [go_eval]:
  "best_run ws =
     foldl (\<lambda>best i. let l = zero_run ws i in
        if l \<ge> 2 \<and> (case best of None \<Rightarrow> True | Some (a, b) \<Rightarrow> l > b - a) then Some (i, i + l) else best)
       None [0..<8]"

definition v6_str :: "ip \<Rightarrow> string" where [go_eval]:
  "v6_str b =
     (let ws = words_of b in
      case best_run ws of
        None \<Rightarrow> join_with '':'' (map hex_str ws)
      | Some (i, j) \<Rightarrow> join_with '':'' (map hex_str (take i ws)) @ ''::'' @ join_with '':'' (map hex_str (drop j ws)))"

definition ip_str :: "ip \<Rightarrow> string" where [go_eval]:
  "ip_str b =
     (case to4 b of Some q \<Rightarrow> join_with ''.'' (map nat_str q) | None \<Rightarrow> v6_str b)"

section \<open>Networks\<close>

record ip_net =
  ne_ip :: ip
  ne_mask :: "nat list"

definition mask_byte :: "nat \<Rightarrow> nat" where [go_eval]:
  "mask_byte n = (if n \<ge> 8 then 255 else 255 - (255 div 2 ^ n))"

definition cidr_mask :: "nat \<Rightarrow> nat \<Rightarrow> nat list" where [go_eval]:
  "cidr_mask ones bits = map (\<lambda>i. mask_byte (ones - 8 * i)) [0..<bits div 8]"

fun mask_bytes :: "nat list \<Rightarrow> nat list \<Rightarrow> nat list" where
  "mask_bytes (x # b) (y # m) = (x AND y) # mask_bytes b m"
| "mask_bytes b m = []"

text \<open>\<open>dtoi\<close> reads digits and stops with an error at 16777215 or above.\<close>

definition parse_cidr :: "string \<Rightarrow> ip_net option" where [go_eval]:
  "parse_cidr s =
     (case cut_at (CHR ''/'') s of
        (addr, bits_str, found) \<Rightarrow>
          if \<not> found then None
          else (case parse_addr addr of
            None \<Rightarrow> None
          | Some (b, is4) \<Rightarrow>
              let bits = (if is4 then 32 else 128) in
              if bits_str = [] \<or> \<not> list_all is_digit bits_str \<or> digits_val bits_str > bits then None
              else let m = cidr_mask (digits_val bits_str) bits;
                       b' = (if is4 then drop 12 b else b)
                   in Some \<lparr>ne_ip = mask_bytes b' m, ne_mask = m\<rparr>))"

definition number_and_mask :: "ip_net \<Rightarrow> nat list \<times> nat list" where [go_eval]:
  "number_and_mask n =
     (let p = (case to4 (ne_ip n) of Some q \<Rightarrow> q | None \<Rightarrow> ne_ip n); m = ne_mask n in
      if length p \<noteq> 4 \<and> length p \<noteq> 16 then ([], [])
      else if length m = length p then (p, m)
      else if length m = 16 \<and> length p = 4 then (p, drop 12 m)
      else ([], []))"

definition net_contains :: "ip_net \<Rightarrow> ip \<Rightarrow> bool" where [go_eval]:
  "net_contains n b =
     (case number_and_mask n of
        (nn, m) \<Rightarrow>
          let p = (case to4 b of Some q \<Rightarrow> q | None \<Rightarrow> b) in
          length p = length nn \<and> mask_bytes nn m = mask_bytes p m)"

section \<open>Host and port\<close>

definition cut_last :: "char \<Rightarrow> string \<Rightarrow> (string \<times> string) option" where [go_eval]:
  "cut_last c s =
     (case cut_at c (rev s) of (post, pre, found) \<Rightarrow> if found then Some (rev pre, rev post) else None)"

text \<open>The host of \<open>SplitHostPort\<close>, when it gives no error.\<close>

definition split_host :: "string \<Rightarrow> string option" where [go_eval]:
  "split_host s =
     (case cut_last (CHR '':'') s of
        None \<Rightarrow> None
      | Some (pre, port) \<Rightarrow>
          if s ! 0 = CHR ''['' then
            (case cut_at (CHR '']'') s of
               (inner, rest, found) \<Rightarrow>
                 if found \<and> rest = CHR '':'' # port \<and> CHR ''['' \<notin> set (drop 1 s) \<and> CHR '']'' \<notin> set rest
                 then Some (drop 1 inner) else None)
          else if CHR '':'' \<in> set pre \<or> CHR ''['' \<in> set s \<or> CHR '']'' \<in> set s then None
          else Some pre)"

lemma upt_bytes [go_eval]: "[0..<4] = [0, 1, 2, 3 :: nat]" "[0..<8] = [0, 1, 2, 3, 4, 5, 6, 7 :: nat]"
    "[0..<16] = [0, 1, 2, 3, 4, 5, 6, 7, 8, 9, 10, 11, 12, 13, 14, 15 :: nat]"
  by (simp_all add: upt_rec)

lemmas [go_eval] = hex_run.simps words_of.simps mask_bytes.simps

section \<open>Networks and addresses of four bytes\<close>

lemma to4_v4 [simp]: "length q = 4 \<Longrightarrow> to4 (v4_prefix @ q) = Some q"
  by (simp add: to4_def v4_prefix_def)

lemma length_mask_bytes [simp]: "length (mask_bytes b m) = min (length b) (length m)"
  by (induction b m rule: mask_bytes.induct) simp_all

text \<open>A printed IPv4 address parses back.\<close>

lemma v4_octet_nat_str: "n < 256 \<Longrightarrow> v4_octet (nat_str n) = Some n"
proof -
  assume n: "n < 256"
  have "nat_str n ! 0 \<noteq> CHR ''0''" if "length (nat_str n) > 1"
  proof -
    have "10 \<le> n"
    proof (rule ccontr)
      assume "\<not> 10 \<le> n"
      then show False using that by (simp add: nat_str.simps)
    qed
    then show ?thesis using n
    proof (cases "n < 100")
      case True
      then have "nat_str n = [digit_char (n div 10), digit_char (n mod 10)]"
        using \<open>10 \<le> n\<close> by (simp add: nat_str.simps)
      moreover have "digit_val (digit_char (n div 10)) = n div 10" using True by simp
      moreover have "n div 10 \<noteq> 0" using \<open>10 \<le> n\<close> by simp
      ultimately show ?thesis by (auto simp: digit_val_def bval_def)
    next
      case False
      have lo: "10 \<le> n div 10" using div_le_mono [of 100 n 10] False by simp
      have hi: "n div 10 div 10 < 10" using n by (simp add: less_mult_imp_div_less)
      have "nat_str n = [digit_char (n div 10 div 10), digit_char (n div 10 mod 10), digit_char (n mod 10)]"
        using \<open>10 \<le> n\<close> lo hi by (simp add: nat_str.simps)
      moreover have "digit_val (digit_char (n div 10 div 10)) = n div 10 div 10" using hi by simp
      moreover have "n div 10 div 10 \<noteq> 0" using lo div_le_mono [OF lo, of 10] by simp
      ultimately show ?thesis by (auto simp: digit_val_def bval_def)
    qed
  qed
  then show ?thesis using n by (auto simp: v4_octet_def)
qed

lemma those_octets: "list_all (\<lambda>n. n < 256) q \<Longrightarrow> those (map v4_octet (map nat_str q)) = Some q"
  by (induction q) (simp_all add: v4_octet_nat_str)

lemma parse_v4_str:
  assumes "length q = 4" and "list_all (\<lambda>n. n < 256) q"
  shows "parse_v4 (join_with ''.'' (map nat_str q)) = Some q"
proof -
  have "CHR ''.'' \<notin> set (nat_str n)" for n by (rule nat_str_not_in) (simp add: go_eval)
  then have "split_at (CHR ''.'') (join_with ''.'' (map nat_str q)) = map nat_str q"
    using assms(1) by (intro split_join) auto
  then show ?thesis using assms those_octets [of q] by (simp add: parse_v4_def)
qed

end
