(* ===== verification/Client_Ip.thy ===== *)
theory Client_Ip
  imports Go_Net Go_Http
begin

text \<open>
  \<open>internal/httpserver/clientip.go\<close> and the address part of \<open>access.go\<close>: the address a request
  is attributed to. Forwarding headers are walked from the right past trusted proxies only, so
  what a client writes in front of them cannot change the result.
\<close>

definition normalize_ip :: "string \<Rightarrow> string" where [go_eval]:
  "normalize_ip s =
     (case parse_ip (trim_suffix (trim_prefix (trim_space s) ''['') '']'') of
        None \<Rightarrow> [] | Some b \<Rightarrow> ip_str b)"

definition remote_ip :: "string \<Rightarrow> string" where [go_eval]:
  "remote_ip addr = (case split_host addr of None \<Rightarrow> normalize_ip addr | Some h \<Rightarrow> normalize_ip h)"

definition ip_allowed :: "ip_net list \<Rightarrow> string \<Rightarrow> bool" where [go_eval]:
  "ip_allowed nets s =
     (if nets = [] then True
      else case parse_ip s of None \<Rightarrow> False | Some b \<Rightarrow> list_ex (\<lambda>n. net_contains n b) nets)"

text \<open>The hops of one header value.\<close>

definition header_hops :: "string list \<Rightarrow> string list" where [go_eval]:
  "header_hops parts = filter (\<lambda>ip. ip \<noteq> []) (map normalize_ip parts)"

definition forwarded_chain :: "request \<Rightarrow> string \<Rightarrow> string list" where [go_eval]:
  "forwarded_chain r peer =
     (let xff = header_value r ''X-Forwarded-For'';
          hops = (if xff \<noteq> [] then header_hops (split_at (CHR '','') xff)
                  else header_hops [header_value r ''X-Real-Ip'']);
          all = (if peer \<noteq> [] then hops @ [peer] else hops)
      in if all = [] then [rq_remote r] else all)"

text \<open>The loop from the right: the first hop that is not allowed, or else the leftmost one.\<close>

fun walk_hops :: "ip_net list \<Rightarrow> string list \<Rightarrow> string option" where
  "walk_hops trusted [] = None"
| "walk_hops trusted (h # hs) = (if \<not> ip_allowed trusted h then Some h else walk_hops trusted hs)"

lemmas [go_eval] = walk_hops.simps

definition client_ip :: "request \<Rightarrow> bool \<Rightarrow> ip_net list \<Rightarrow> string" where [go_eval]:
  "client_ip r trust trusted =
     (let peer = remote_ip (rq_remote r) in
      if \<not> trust \<or> trusted = [] then peer
      else let hops = forwarded_chain r peer in
        case walk_hops trusted (rev hops) of Some h \<Rightarrow> h | None \<Rightarrow> hops ! 0)"

lemma walk_hops_append:
  "walk_hops trusted (xs @ ys) = (case walk_hops trusted xs of None \<Rightarrow> walk_hops trusted ys | Some h \<Rightarrow> Some h)"
  by (induction xs) simp_all

lemma walk_hops_rev:
  "walk_hops trusted (rev hops) =
     (let us = filter (\<lambda>h. \<not> ip_allowed trusted h) hops in if us = [] then None else Some (last us))"
  by (induction hops) (auto simp: walk_hops_append Let_def split: option.splits)

lemma header_hops_append: "header_hops (xs @ ys) = header_hops xs @ header_hops ys"
  by (simp add: header_hops_def)

text \<open>The hops the server knows of its own: the tail of a header and the peer.\<close>

definition known_hops :: "string list \<Rightarrow> string \<Rightarrow> string list" where [go_eval]:
  "known_hops parts peer = header_hops parts @ (if peer \<noteq> [] then [peer] else [])"

text \<open>
  C28: a client cannot choose its address. Without trusted proxies the address is the TCP peer,
  whatever the headers say. With them, let any number of values at the front of
  X-Forwarded-For be forged: as soon as one of the remaining hops or the peer is not a trusted
  proxy, the address is the last of these untrusted hops, and the forged values have no effect.
\<close>

theorem client_ip_not_forgeable:
  assumes "header_value r ''X-Forwarded-For'' \<noteq> []"
    and "split_at (CHR '','') (header_value r ''X-Forwarded-For'') = forged @ rest"
    and "filter (\<lambda>h. \<not> ip_allowed trusted h) (known_hops rest (remote_ip (rq_remote r))) = us" and "us \<noteq> []"
  shows "client_ip r True trusted = (if trusted = [] then remote_ip (rq_remote r) else last us)
    \<and> client_ip r False trusted = remote_ip (rq_remote r)"
proof -
  let ?peer = "remote_ip (rq_remote r)"
  have "known_hops rest ?peer \<noteq> []" using assms(3,4) by auto
  then have "forwarded_chain r ?peer = header_hops forged @ known_hops rest ?peer"
    using assms(1,2) by (auto simp: forwarded_chain_def known_hops_def header_hops_append Let_def)
  then have "walk_hops trusted (rev (forwarded_chain r ?peer)) = Some (last us)"
    using assms(3,4) by (simp add: walk_hops_rev Let_def del: rev_append)
  then show ?thesis by (simp add: client_ip_def Let_def)
qed

text \<open>The proxy at 10.0.0.1 forwards a request of 203.0.113.9 that claims to come from 10.1.2.3.\<close>

definition example_trusted :: "ip_net list" where [go_eval]:
  "example_trusted = [\<lparr>ne_ip = [10, 0, 0, 0], ne_mask = [255, 0, 0, 0]\<rparr>]"

definition example_forwarded :: request where [go_eval]:
  "example_forwarded = (get_request ''/'')\<lparr>rq_remote := ''10.0.0.1:443'',
     rq_header := [(''X-Forwarded-For'', [''10.1.2.3, 203.0.113.9''])]\<rparr>"

theorem client_ip_not_forgeable_witness:
  "client_ip example_forwarded True example_trusted = ''203.0.113.9''"
proof -
  have h: "header_value example_forwarded ''X-Forwarded-For'' = ''10.1.2.3, 203.0.113.9''"
    by (simp add: go_eval)
  have "remote_ip (rq_remote example_forwarded) = ''10.0.0.1''" by (simp add: go_eval)
  moreover have "header_hops ['' 203.0.113.9''] = [''203.0.113.9'']" by (simp add: go_eval)
  moreover have "ip_allowed example_trusted ''10.0.0.1''" "\<not> ip_allowed example_trusted ''203.0.113.9''"
    by (simp_all add: go_eval)
  ultimately have us: "filter (\<lambda>h. \<not> ip_allowed example_trusted h)
      (known_hops ['' 203.0.113.9''] (remote_ip (rq_remote example_forwarded))) = [''203.0.113.9'']"
    by (simp add: known_hops_def)
  have sp: "split_at (CHR '','') (header_value example_forwarded ''X-Forwarded-For'') = [''10.1.2.3''] @ ['' 203.0.113.9'']"
    unfolding h by simp
  show ?thesis
    using client_ip_not_forgeable [OF _ sp us] h by (simp add: example_trusted_def)
qed

end
