(* ===== verification/Login_Gate.thy ===== *)
theory Login_Gate
  imports Go_Strings
begin

text \<open>
  The login gate of \<open>internal/httpserver/login.go\<close>: failed logins are counted per address, and
  an address with too many is locked for a while. The table of addresses is bounded.
\<close>

record login_attempt =
  la_fails :: int
  la_until :: time
  la_seen :: time

record login_gate =
  lg_by_ip :: "(string, login_attempt) gomap"
  lg_max_fails :: int
  lg_lock_for :: duration
  lg_max_map :: int

definition login_gate_max_map :: int where [go_eval]: "login_gate_max_map = 10000"

definition new_login_gate :: "int \<Rightarrow> duration \<Rightarrow> login_gate" where [go_eval]:
  "new_login_gate max_fails lock_for =
     \<lparr>lg_by_ip = [], lg_max_fails = (if max_fails \<le> 0 then 5 else max_fails),
      lg_lock_for = (if lock_for \<le> 0 then 30 * second else lock_for), lg_max_map = login_gate_max_map\<rparr>"

definition gate_allow :: "time \<Rightarrow> string \<Rightarrow> login_gate option \<Rightarrow> bool \<times> login_gate option" where [go_eval]:
  "gate_allow now ip go =
     (case go of
        None \<Rightarrow> (True, None)
      | Some g \<Rightarrow>
          (case gget (lg_by_ip g) ip of
             None \<Rightarrow> (True, Some g)
           | Some st \<Rightarrow>
               (la_until st < now \<or> la_fails st < lg_max_fails g,
                Some (g\<lparr>lg_by_ip := gset (lg_by_ip g) ip (st\<lparr>la_seen := now\<rparr>)\<rparr>))))"

definition gate_success :: "string \<Rightarrow> login_gate option \<Rightarrow> login_gate option" where [go_eval]:
  "gate_success ip = map_option (\<lambda>g. g\<lparr>lg_by_ip := gdel (lg_by_ip g) ip\<rparr>)"

definition gate_idle :: "login_gate \<Rightarrow> duration" where [go_eval]:
  "gate_idle g = (if lg_lock_for g < minute then minute else lg_lock_for g)"

definition gate_gc :: "time \<Rightarrow> login_gate \<Rightarrow> login_gate" where [go_eval]:
  "gate_gc now g =
     g\<lparr>lg_by_ip := filter (\<lambda>(ip, st). \<not> (la_until st < now \<and> time_sub now (la_seen st) > gate_idle g))
                     (lg_by_ip g)\<rparr>"

text \<open>\<open>dropLocked\<close> deletes in the order the map is visited, until at most \<open>keep\<close> are left.\<close>

fun drop_down :: "string list \<Rightarrow> int \<Rightarrow> (string, 'v) gomap \<Rightarrow> (string, 'v) gomap" where
  "drop_down [] keep m = m"
| "drop_down (ip # ips) keep m = (if int (length m) \<le> keep then m else drop_down ips keep (gdel m ip))"

definition gate_drop :: "string list \<Rightarrow> int \<Rightarrow> login_gate \<Rightarrow> login_gate" where [go_eval]:
  "gate_drop ord keep g = g\<lparr>lg_by_ip := drop_down ord keep (lg_by_ip g)\<rparr>"

definition gate_limit :: "login_gate \<Rightarrow> int" where [go_eval]:
  "gate_limit g = (if lg_max_map g < 1 then login_gate_max_map else lg_max_map g)"

text \<open>Making room for a new address.\<close>

definition gate_room :: "(login_gate \<Rightarrow> string list) \<Rightarrow> time \<Rightarrow> string \<Rightarrow> login_gate \<Rightarrow> login_gate" where [go_eval]:
  "gate_room ord now ip g =
     (let limit = gate_limit g;
          full = (\<lambda>g. int (length (lg_by_ip g)) \<ge> limit);
          g1 = (if full g then gate_gc now g else g)
      in if ghas (lg_by_ip g1) ip \<or> \<not> full g1 then g1
         else let g2 = gate_gc now g1 in
           if full g2 then gate_drop (ord g2) (limit div 2) g2 else g2)"

definition count_failure :: "time \<Rightarrow> login_gate \<Rightarrow> login_attempt \<Rightarrow> login_attempt" where [go_eval]:
  "count_failure now g st =
     (let f0 = (if la_until st < now \<and> la_fails st \<ge> lg_max_fails g then 0 else la_fails st);
          f = wrap64 (f0 + 1)
      in \<lparr>la_fails = f,
          la_until = (if f \<ge> lg_max_fails g then time_add now (lg_lock_for g) else la_until st),
          la_seen = now\<rparr>)"

definition gate_failure ::
  "(login_gate \<Rightarrow> string list) \<Rightarrow> time \<Rightarrow> string \<Rightarrow> login_gate option \<Rightarrow> login_gate option" where [go_eval]:
  "gate_failure ord now ip =
     map_option (\<lambda>g.
       let g1 = gate_room ord now ip g;
           st = (case gget (lg_by_ip g1) ip of
                   None \<Rightarrow> \<lparr>la_fails = 0, la_until = 0, la_seen = 0\<rparr> | Some st \<Rightarrow> st)
       in g1\<lparr>lg_by_ip := gset (lg_by_ip g1) ip (count_failure now g1 st)\<rparr>)"

lemmas [go_eval] = drop_down.simps

section \<open>The table is bounded\<close>

lemma gwf_drop_down: "gwf m \<Longrightarrow> gwf (drop_down ips keep m)"
  by (induction ips arbitrary: m) simp_all

lemma drop_down_size:
  "gwf m \<Longrightarrow> fst ` set m \<subseteq> set ips \<Longrightarrow> 0 \<le> keep \<Longrightarrow> int (length (drop_down ips keep m)) \<le> keep"
proof (induction ips arbitrary: m)
  case (Cons ip ips)
  have "fst ` set (gdel m ip) \<subseteq> set ips" using Cons.prems(2) by (auto simp: fst_set_gdel)
  with Cons show ?case by simp
qed simp

lemma gate_gc_simps [simp]:
  "length (lg_by_ip (gate_gc now g)) \<le> length (lg_by_ip g)"
  "gate_limit (gate_gc now g) = gate_limit g" "lg_max_map (gate_gc now g) = lg_max_map g"
  "lg_max_fails (gate_gc now g) = lg_max_fails g" "lg_lock_for (gate_gc now g) = lg_lock_for g"
  by (simp_all add: gate_gc_def gate_limit_def)

lemma gwf_gate_gc: "gwf (lg_by_ip g) \<Longrightarrow> gwf (lg_by_ip (gate_gc now g))"
  by (simp add: gate_gc_def gwf_def distinct_map_filter)

lemma gate_limit_pos: "1 \<le> gate_limit g"
  by (simp add: gate_limit_def login_gate_max_map_def)

lemma gate_room_size:
  assumes "gwf (lg_by_ip g)" and "int (length (lg_by_ip g)) \<le> gate_limit g"
    and ord: "\<And>g. fst ` set (lg_by_ip g) \<subseteq> set (ord g)"
  shows "gwf (lg_by_ip (gate_room ord now ip g))
    \<and> int (length (lg_by_ip (gate_room ord now ip g))) \<le> gate_limit g
    \<and> (\<not> ghas (lg_by_ip (gate_room ord now ip g)) ip \<longrightarrow>
         int (length (lg_by_ip (gate_room ord now ip g))) < gate_limit g)
    \<and> gate_limit (gate_room ord now ip g) = gate_limit g"
proof -
  let ?limit = "gate_limit g"
  have half: "?limit div 2 < ?limit" using gate_limit_pos [of g] by simp
  define g1 where "g1 = (if int (length (lg_by_ip g)) \<ge> ?limit then gate_gc now g else g)"
  have g1: "gwf (lg_by_ip g1)" "int (length (lg_by_ip g1)) \<le> ?limit" "gate_limit g1 = ?limit"
    using assms(1,2) gate_gc_simps(1) [of now g] by (auto simp: g1_def gwf_gate_gc)
  define g2 where "g2 = gate_gc now g1"
  have g2: "gwf (lg_by_ip g2)" "gate_limit g2 = ?limit"
    using g1 by (simp_all add: g2_def gwf_gate_gc)
  have room: "gate_room ord now ip g =
      (if ghas (lg_by_ip g1) ip \<or> \<not> int (length (lg_by_ip g1)) \<ge> ?limit then g1
       else if int (length (lg_by_ip g2)) \<ge> ?limit then gate_drop (ord g2) (?limit div 2) g2 else g2)"
    by (simp add: gate_room_def Let_def g1_def g2_def)
  have drop: "int (length (lg_by_ip (gate_drop (ord g2) (?limit div 2) g2))) \<le> ?limit div 2"
    using drop_down_size [OF g2(1) ord] gate_limit_pos [of g] by (simp add: gate_drop_def)
  show ?thesis
    using g1 g2 drop half
    by (auto simp: room gwf_drop_down gate_drop_def gate_limit_def not_le split: if_splits)
qed

lemma gate_failure_size:
  assumes "gwf (lg_by_ip g)" and "int (length (lg_by_ip g)) \<le> gate_limit g"
    and "\<And>g. fst ` set (lg_by_ip g) \<subseteq> set (ord g)"
  shows "\<exists>g'. gate_failure ord now ip (Some g) = Some g' \<and> gwf (lg_by_ip g')
     \<and> int (length (lg_by_ip g')) \<le> gate_limit g' \<and> gate_limit g' = gate_limit g \<and> ghas (lg_by_ip g') ip"
proof -
  note r = gate_room_size [OF assms, of now ip]
  have limit: "gate_limit (h\<lparr>lg_by_ip := m\<rparr>) = gate_limit h" for h m by (simp add: gate_limit_def)
  show ?thesis
  proof (cases "ghas (lg_by_ip (gate_room ord now ip g)) ip")
    case True
    then show ?thesis using r by (simp add: gate_failure_def Let_def limit length_gset_mem)
  next
    case False
    then show ?thesis using r by (simp add: gate_failure_def Let_def limit length_gset_new)
  qed
qed

text \<open>
  The table of addresses stays bounded. With at most as many addresses as the limit, in
  whatever order the map is visited, a failed login keeps at most that many, whoever it is
  from; the other operations never add one.
\<close>

theorem gate_bounded:
  assumes "gwf (lg_by_ip g)" and "int (length (lg_by_ip g)) \<le> gate_limit g"
    and "\<And>g. fst ` set (lg_by_ip g) \<subseteq> set (ord g)"
  shows "\<exists>g'. gate_failure ord now ip (Some g) = Some g' \<and> gwf (lg_by_ip g')
     \<and> int (length (lg_by_ip g')) \<le> gate_limit g' \<and> gate_limit g' = gate_limit g \<and> ghas (lg_by_ip g') ip"
  by (rule gate_failure_size [OF assms])

section \<open>Guessing is rate limited\<close>

text \<open>
  A failed login as the server runs it: the check at one time and, when it lets the attempt
  through, the count of the failure at a later one.
\<close>

record guess =
  gu_check :: time
  gu_fail :: time
  gu_ip :: string

definition gate_guess :: "(login_gate \<Rightarrow> string list) \<Rightarrow> guess \<Rightarrow> login_gate \<Rightarrow> bool \<times> login_gate" where [go_eval]:
  "gate_guess ord e g =
     (case gate_allow (gu_check e) (gu_ip e) (Some g) of
        (ok, go) \<Rightarrow> (ok, the (if ok then gate_failure ord (gu_fail e) (gu_ip e) go else go)))"

definition gate_run ::
  "(login_gate \<Rightarrow> string list) \<Rightarrow> guess list \<Rightarrow> login_gate \<Rightarrow> guess list \<times> login_gate" where [go_eval]:
  "gate_run ord es g =
     foldl (\<lambda>(al, g) e. case gate_guess ord e g of (ok, g') \<Rightarrow> (if ok then al @ [e] else al, g')) ([], g) es"

lemma gate_run_snoc:
  "gate_run ord (es @ [e]) g =
     (case gate_run ord es g of (al, g1) \<Rightarrow>
        (case gate_guess ord e g1 of (ok, g2) \<Rightarrow> (if ok then al @ [e] else al, g2)))"
  by (simp add: gate_run_def split: prod.splits)

lemma gate_run_Nil: "gate_run ord [] g = ([], g)"
  by (simp add: gate_run_def)

text \<open>Any \<open>m + 1\<close> consecutive guesses take longer than \<open>l\<close>.\<close>

definition spaced :: "duration \<Rightarrow> nat \<Rightarrow> guess list \<Rightarrow> bool" where [go_eval]:
  "spaced l m al \<longleftrightarrow> (\<forall>i < length al - m. gu_fail (al ! i) + l < gu_check (al ! (i + m)))"

text \<open>
  What a table entry knows of the guesses let through: the last \<open>n\<close> of them are those since the
  previous lock, and all earlier ones are more than a lock older.
\<close>

definition entry_inv :: "duration \<Rightarrow> nat \<Rightarrow> guess list \<Rightarrow> login_attempt \<Rightarrow> bool" where
  "entry_inv l m al st \<longleftrightarrow>
     (\<exists>n. la_fails st = int n \<and> 1 \<le> n \<and> n \<le> m \<and> n \<le> length al
        \<and> (n = m \<longrightarrow> la_until st = gu_fail (last al) + l)
        \<and> (\<forall>i < length al - n. gu_fail (al ! i) + l < gu_check (al ! (length al - n))))
     \<and> (\<forall>i < length al. gu_check (al ! i) \<le> gu_fail (al ! i) \<and> gu_fail (al ! i) \<le> gu_fail (last al))
     \<and> spaced l m al"

lemma spaced_snoc:
  assumes "spaced l m al"
    and "m \<le> length al \<Longrightarrow> gu_fail (al ! (length al - m)) + l < gu_check e" and "1 \<le> m"
  shows "spaced l m (al @ [e])"
  unfolding spaced_def
proof (intro allI impI)
  fix i assume i: "i < length (al @ [e]) - m"
  show "gu_fail ((al @ [e]) ! i) + l < gu_check ((al @ [e]) ! (i + m))"
  proof (cases "i + m = length al")
    case True
    then have "i = length al - m" "i < length al" using assms(3) by linarith+
    with True assms(2) show ?thesis by (simp add: nth_append)
  next
    case False
    with i have "i < length al - m" "i + m < length al" "i < length al" by auto
    with assms(1) show ?thesis by (simp add: nth_append spaced_def)
  qed
qed

lemma entry_first:
  assumes "gu_check e \<le> gu_fail e" and "1 \<le> m" and "0 < l"
    and "count_failure (gu_fail e) g \<lparr>la_fails = 0, la_until = 0, la_seen = 0\<rparr> = st"
    and "lg_max_fails g = int m" and "lg_lock_for g = l"
  shows "entry_inv l m [e] st"
  using assms by (auto simp: entry_inv_def count_failure_def Let_def spaced_def time_add_def wrap64_id in64_def
      intro!: exI [of _ 1])

lemma entry_next:
  assumes inv: "entry_inv l m al st" and l: "0 < l" and m: "in64 (int m)"
    and g: "lg_max_fails g = int m" "lg_lock_for g = l"
    and c: "gu_fail (last al) \<le> gu_check e" "gu_check e \<le> gu_fail e"
    and ok: "la_until st < gu_check e \<or> la_fails st < lg_max_fails g"
  shows "entry_inv l m (al @ [e]) (count_failure (gu_fail e) g (st\<lparr>la_seen := now\<rparr>))"
proof -
  obtain n where n: "la_fails st = int n" "1 \<le> n" "n \<le> m" "n \<le> length al"
      "n = m \<longrightarrow> la_until st = gu_fail (last al) + l"
      "\<forall>i < length al - n. gu_fail (al ! i) + l < gu_check (al ! (length al - n))"
    and le: "\<And>i. i < length al \<Longrightarrow> gu_check (al ! i) \<le> gu_fail (al ! i) \<and> gu_fail (al ! i) \<le> gu_fail (last al)"
    and sp: "spaced l m al"
    using inv by (auto simp: entry_inv_def)
  have m1: "1 \<le> m" using n by linarith
  have order: "gu_check ((al @ [e]) ! i) \<le> gu_fail ((al @ [e]) ! i) \<and> gu_fail ((al @ [e]) ! i) \<le> gu_fail (last (al @ [e]))"
    if "i < length (al @ [e])" for i
    using that le [of i] c by (cases "i < length al") (auto simp: nth_append)
  show ?thesis
  proof (cases "n = m")
    case True
    then have lock: "gu_fail (last al) + l < gu_check e" using ok n g by simp
    then have early: "gu_fail (al ! i) + l < gu_check e" if "i < length al" for i
      using le [OF that] by linarith
    have "spaced l m (al @ [e])"
      by (rule spaced_snoc [OF sp _ m1]) (use n m1 True in \<open>auto intro!: early\<close>)
    moreover have "count_failure (gu_fail e) g (st\<lparr>la_seen := now\<rparr>) =
        \<lparr>la_fails = 1, la_until = (if 1 \<ge> int m then gu_fail e + l else la_until st), la_seen = gu_fail e\<rparr>"
      using True n g lock c by (simp add: count_failure_def Let_def time_add_def wrap64_id in64_def)
    ultimately show ?thesis
      using order early m1 by (auto simp: entry_inv_def nth_append intro!: exI [of _ 1])
  next
    case False
    with n have nm: "n < m" by simp
    have wr: "wrap64 (int n + 1) = int (Suc n)"
      using m nm by (subst wrap64_id) (auto simp: in64_def)
    have cf: "count_failure (gu_fail e) g (st\<lparr>la_seen := now\<rparr>) =
        \<lparr>la_fails = int (Suc n), la_until = (if Suc n \<ge> m then gu_fail e + l else la_until st), la_seen = gu_fail e\<rparr>"
      using nm n g by (simp add: count_failure_def Let_def time_add_def wr)
    have start: "gu_check (al ! (length al - n)) \<le> gu_check e"
      using le [of "length al - n"] n c by (cases al) auto
    have "spaced l m (al @ [e])"
    proof (rule spaced_snoc [OF sp _ m1])
      assume "m \<le> length al"
      with nm have "length al - m < length al - n" by linarith
      with n(6) start show "gu_fail (al ! (length al - m)) + l < gu_check e" by fastforce
    qed
    moreover have "\<forall>i < length (al @ [e]) - Suc n. gu_fail ((al @ [e]) ! i) + l < gu_check ((al @ [e]) ! (length (al @ [e]) - Suc n))"
      using n by (auto simp: nth_append)
    ultimately show ?thesis
      unfolding entry_inv_def cf using order nm n(4) by (auto intro!: exI [of _ "Suc n"])
  qed
qed

definition of_ip :: "string \<Rightarrow> guess list \<Rightarrow> guess list" where [go_eval]:
  "of_ip ip al = filter (\<lambda>e. gu_ip e = ip) al"

lemma of_ip_snoc: "of_ip ip (al @ [e]) = (if gu_ip e = ip then of_ip ip al @ [e] else of_ip ip al)"
  by (simp add: of_ip_def)

lemma set_of_ip: "set (of_ip ip al) \<subseteq> set al"
  by (auto simp: of_ip_def)

text \<open>The table after a run in which it never fills up.\<close>

definition ip_inv :: "duration \<Rightarrow> nat \<Rightarrow> guess list \<Rightarrow> login_attempt option \<Rightarrow> bool" where
  "ip_inv l m al x \<longleftrightarrow> (case x of None \<Rightarrow> al = [] | Some st \<Rightarrow> entry_inv l m al st)"

lemma ip_inv_simps [simp]: "ip_inv l m al None \<longleftrightarrow> al = []" "ip_inv l m al (Some st) \<longleftrightarrow> entry_inv l m al st"
  by (simp_all add: ip_inv_def)

definition run_inv :: "duration \<Rightarrow> nat \<Rightarrow> guess list \<Rightarrow> guess list \<Rightarrow> login_gate \<Rightarrow> bool" where
  "run_inv l m es al g \<longleftrightarrow>
     gwf (lg_by_ip g) \<and> fst ` set (lg_by_ip g) \<subseteq> gu_ip ` set es \<and> set al \<subseteq> set es
     \<and> lg_max_fails g = int m \<and> lg_lock_for g = l \<and> gate_limit g = login_gate_max_map
     \<and> (\<forall>ip. ip_inv l m (of_ip ip al) (gget (lg_by_ip g) ip))"

lemma gate_room_id: "int (length (lg_by_ip g)) < gate_limit g \<Longrightarrow> gate_room ord now ip g = g"
  by (simp add: gate_room_def Let_def)

lemma run_inv_small:
  assumes "run_inv l m es al g" and "card (gu_ip ` set es) < nat login_gate_max_map"
  shows "int (length (lg_by_ip g)) < gate_limit g"
proof -
  have "length (lg_by_ip g) = card (fst ` set (lg_by_ip g))"
    using assms(1) by (simp add: run_inv_def gwf_def distinct_card flip: set_map)
  also have "\<dots> \<le> card (gu_ip ` set es)"
    using assms(1) by (intro card_mono) (auto simp: run_inv_def)
  finally show ?thesis using assms by (simp add: run_inv_def)
qed

text \<open>What one guess does to the table.\<close>

lemma gate_guess_cases:
  assumes small: "int (length (lg_by_ip g)) < gate_limit g" and run: "gate_guess ord e g = (ok, g')"
  shows "case gget (lg_by_ip g) (gu_ip e) of
      None \<Rightarrow> ok \<and> g' = g\<lparr>lg_by_ip := gset (lg_by_ip g) (gu_ip e)
                (count_failure (gu_fail e) g \<lparr>la_fails = 0, la_until = 0, la_seen = 0\<rparr>)\<rparr>
    | Some st \<Rightarrow> (ok \<longleftrightarrow> la_until st < gu_check e \<or> la_fails st < lg_max_fails g)
        \<and> (\<exists>g1. g1 = g\<lparr>lg_by_ip := gset (lg_by_ip g) (gu_ip e) (st\<lparr>la_seen := gu_check e\<rparr>)\<rparr>
           \<and> g' = (if ok then g1\<lparr>lg_by_ip := gset (lg_by_ip g1) (gu_ip e)
                     (count_failure (gu_fail e) g1 (st\<lparr>la_seen := gu_check e\<rparr>))\<rparr> else g1))"
proof (cases "gget (lg_by_ip g) (gu_ip e)")
  case None
  with run small show ?thesis
    by (auto simp: gate_guess_def gate_allow_def gate_failure_def Let_def gate_room_id)
next
  case (Some st)
  let ?g1 = "g\<lparr>lg_by_ip := gset (lg_by_ip g) (gu_ip e) (st\<lparr>la_seen := gu_check e\<rparr>)\<rparr>"
  have "ghas (lg_by_ip g) (gu_ip e)" using Some by (simp add: ghas_def)
  then have "int (length (lg_by_ip ?g1)) < gate_limit ?g1"
    using small by (auto simp: length_gset_mem gate_limit_def split: if_splits)
  with run Some show ?thesis
    by (auto simp: gate_guess_def gate_allow_def gate_failure_def Let_def gate_room_id)
qed

lemma count_failure_params:
  "lg_max_fails g = lg_max_fails h \<Longrightarrow> lg_lock_for g = lg_lock_for h \<Longrightarrow> count_failure t g = count_failure t h"
  by (rule ext) (simp add: count_failure_def Let_def)

lemma entry_inv_seen: "entry_inv l m al (st\<lparr>la_seen := t\<rparr>) = entry_inv l m al st"
  by (simp add: entry_inv_def)

lemma run_inv_step:
  assumes inv: "run_inv l m es al g" and small: "int (length (lg_by_ip g)) < gate_limit g"
    and m: "1 \<le> m" "in64 (int m)" and l: "0 < l"
    and c: "\<And>d. d \<in> set es \<Longrightarrow> gu_fail d \<le> gu_check e" "gu_check e \<le> gu_fail e"
    and run: "gate_guess ord e g = (ok, g')"
  shows "run_inv l m (es @ [e]) (if ok then al @ [e] else al) g'"
proof -
  note guess = gate_guess_cases [OF small run]
  have g: "lg_max_fails g = int m" "lg_lock_for g = l" using inv by (simp_all add: run_inv_def)
  have limit: "gate_limit (h\<lparr>lg_by_ip := x\<rparr>) = gate_limit h" for h x by (simp add: gate_limit_def)
  show ?thesis
  proof (cases "gget (lg_by_ip g) (gu_ip e)")
    case None
    then have al: "of_ip (gu_ip e) al = []" using inv by (metis ip_inv_simps(1) run_inv_def)
    let ?st = "count_failure (gu_fail e) g \<lparr>la_fails = 0, la_until = 0, la_seen = 0\<rparr>"
    from None guess have ok: ok and g': "g' = g\<lparr>lg_by_ip := gset (lg_by_ip g) (gu_ip e) ?st\<rparr>" by simp_all
    have "entry_inv l m [e] ?st" by (rule entry_first [OF c(2) m(1) l refl g])
    with inv ok al show ?thesis
      by (auto simp: run_inv_def g' limit of_ip_snoc fst_set_gset)
  next
    case (Some st)
    then have e: "entry_inv l m (of_ip (gu_ip e) al) st"
      using inv by (metis ip_inv_simps(2) run_inv_def)
    then have "of_ip (gu_ip e) al \<noteq> []" by (auto simp: entry_inv_def)
    then have "last (of_ip (gu_ip e) al) \<in> set es"
      using set_of_ip [of "gu_ip e" al] inv last_in_set by (fastforce simp: run_inv_def)
    then have "gu_fail (last (of_ip (gu_ip e) al)) \<le> gu_check e" by (rule c(1))
    note next_inv = entry_next [OF e l m(2) g this c(2), of "gu_check e"]
    define g1 where "g1 = g\<lparr>lg_by_ip := gset (lg_by_ip g) (gu_ip e) (st\<lparr>la_seen := gu_check e\<rparr>)\<rparr>"
    have cf: "count_failure (gu_fail e) g1 = count_failure (gu_fail e) g"
      by (rule count_failure_params) (simp_all add: g1_def)
    from Some guess have ok: "ok \<longleftrightarrow> la_until st < gu_check e \<or> la_fails st < lg_max_fails g"
      and g': "g' = (if ok then g1\<lparr>lg_by_ip := gset (lg_by_ip g1) (gu_ip e)
                     (count_failure (gu_fail e) g (st\<lparr>la_seen := gu_check e\<rparr>))\<rparr> else g1)"
      by (simp_all add: g1_def [symmetric] cf)
    have i1: "run_inv l m (es @ [e]) al g1"
      using inv e by (auto simp: run_inv_def g1_def limit fst_set_gset entry_inv_seen)
    show ?thesis
    proof (cases ok)
      case True
      with i1 next_inv ok g' show ?thesis
        by (auto simp: run_inv_def limit of_ip_snoc fst_set_gset)
    qed (use i1 g' in simp)
  qed
qed


section \<open>Concrete instances\<close>

definition table_order :: "login_gate \<Rightarrow> string list" where [go_eval]:
  "table_order g = map fst (lg_by_ip g)"

theorem gate_bounded_witness:
  "\<exists>g'. gate_failure table_order 5 ''b'' (Some \<lparr>lg_by_ip = [(''a'', \<lparr>la_fails = 1, la_until = 0, la_seen = 4\<rparr>)],
       lg_max_fails = 2, lg_lock_for = minute, lg_max_map = 1\<rparr>) = Some g' \<and> length (lg_by_ip g') = 1"
proof -
  let ?g = "\<lparr>lg_by_ip = [(''a'', \<lparr>la_fails = 1, la_until = 0, la_seen = 4\<rparr>)],
       lg_max_fails = 2, lg_lock_for = minute, lg_max_map = 1\<rparr>"
  have "gate_limit ?g = 1" by (simp add: gate_limit_def)
  with gate_bounded [of ?g table_order 5 "''b''"] show ?thesis
    by (auto simp: gwf_def table_order_def ghas_def le_Suc_eq)
qed

text \<open>Two guesses lock the address for 30 seconds; the next one passes after that.\<close>

definition guess_at :: "int \<Rightarrow> guess" where [go_eval]:
  "guess_at t = \<lparr>gu_check = t * second, gu_fail = t * second, gu_ip = ''a''\<rparr>"

definition example_gate :: login_gate where
  "example_gate = new_login_gate 2 (30 * second)"

lemma example_gate_params: "nat (lg_max_fails example_gate) = 2" "lg_lock_for example_gate = 30000000000"
    "in64 2"
  by (simp_all add: example_gate_def go_eval)

lemma example_guesses_run:
  "fst (gate_run table_order [guess_at 1, guess_at 2, guess_at 3, guess_at 33] example_gate) =
     [guess_at 1, guess_at 2, guess_at 33]"
proof -
  have room: "gate_room table_order t ip g = g" if "length (lg_by_ip g) < 2" "lg_max_map g = 10000" for t ip g
    using that by (intro gate_room_id) (simp add: gate_limit_def)
  show ?thesis
    by (simp add: gate_run_def gate_guess_def gate_allow_def gate_failure_def room count_failure_def Let_def
        example_gate_def new_login_gate_def login_gate_max_map_def guess_at_def gset_def time_add_def
        wrap64_id in64_def)
qed


end
