(* ===== verification/Access.thy ===== *)
theory Access
  imports Complex_Main Go_Strings
begin

text \<open>
  The rate limiter of \<open>internal/httpserver/access.go\<close>: one token bucket per address. A
  \<open>float64\<close> is a rational number, infinity or not-a-number; every operation rounds its exact
  result with the rounding function of the machine, which is a parameter. What the theorems need
  of it is that rounding keeps the integers of the bucket and never turns a positive number
  into a negative one.
\<close>

section \<open>Floating-point numbers\<close>

datatype f64 = Num rat | Inf | NaN

record floats =
  fl_round :: "rat \<Rightarrow> rat"
  fl_int :: "f64 \<Rightarrow> int"

definition f_of_int :: "floats \<Rightarrow> int \<Rightarrow> f64" where [go_eval]:
  "f_of_int fl i = Num (fl_round fl (of_int i))"

text \<open>Only non-negative factors occur, so the only infinity is the positive one.\<close>

fun f_mul :: "floats \<Rightarrow> f64 \<Rightarrow> f64 \<Rightarrow> f64" where
  "f_mul fl (Num a) (Num b) = Num (fl_round fl (a * b))"
| "f_mul fl NaN y = NaN"
| "f_mul fl x NaN = NaN"
| "f_mul fl Inf (Num b) = (if b = 0 then NaN else Inf)"
| "f_mul fl (Num a) Inf = (if a = 0 then NaN else Inf)"
| "f_mul fl Inf Inf = Inf"

fun f_add :: "floats \<Rightarrow> f64 \<Rightarrow> f64 \<Rightarrow> f64" where
  "f_add fl (Num a) (Num b) = Num (fl_round fl (a + b))"
| "f_add fl NaN y = NaN"
| "f_add fl x NaN = NaN"
| "f_add fl x y = Inf"

fun f_sub1 :: "floats \<Rightarrow> f64 \<Rightarrow> f64" where
  "f_sub1 fl (Num a) = Num (fl_round fl (a - 1))"
| "f_sub1 fl x = x"

text \<open>A comparison with not-a-number is false.\<close>

fun f_less :: "f64 \<Rightarrow> f64 \<Rightarrow> bool" where
  "f_less (Num a) (Num b) \<longleftrightarrow> a < b"
| "f_less NaN y \<longleftrightarrow> False"
| "f_less x NaN \<longleftrightarrow> False"
| "f_less Inf y \<longleftrightarrow> False"
| "f_less (Num a) Inf \<longleftrightarrow> True"

fun f_le0 :: "f64 \<Rightarrow> bool" where
  "f_le0 (Num a) \<longleftrightarrow> a \<le> 0"
| "f_le0 x \<longleftrightarrow> False"

text \<open>Conversion to \<open>int\<close> truncates; out of range its result depends on the machine.\<close>

definition f_to_int :: "floats \<Rightarrow> f64 \<Rightarrow> int" where [go_eval]:
  "f_to_int fl x =
     (case x of Num a \<Rightarrow> (let t = (if a < 0 then - floor (- a) else floor a) in
                          if in64 t then t else fl_int fl x)
      | _ \<Rightarrow> fl_int fl x)"

text \<open>\<open>Duration.Seconds\<close>.\<close>

definition seconds :: "floats \<Rightarrow> duration \<Rightarrow> f64" where [go_eval]:
  "seconds fl d =
     (let sec = go_div d second; nsec = go_mod d second in
      f_add fl (f_of_int fl sec) (Num (fl_round fl (fl_round fl (of_int nsec) / 1000000000))))"

section \<open>The limiter\<close>

record ip_bucket =
  ib_tokens :: f64
  ib_last :: time

record ip_limiter =
  il_rps :: f64
  il_burst :: f64
  il_by_ip :: "(string, ip_bucket) gomap"

definition new_ip_limiter :: "floats \<Rightarrow> f64 \<Rightarrow> int \<Rightarrow> ip_limiter option" where [go_eval]:
  "new_ip_limiter fl rps burst =
     (if f_le0 rps then None
      else let b = (if burst < 1 then (let t = f_to_int fl rps in if t < 1 then 1 else t) else burst)
        in Some \<lparr>il_rps = rps, il_burst = f_of_int fl b, il_by_ip = []\<rparr>)"

definition limiter_gc :: "time \<Rightarrow> ip_limiter \<Rightarrow> ip_limiter" where [go_eval]:
  "limiter_gc now l =
     l\<lparr>il_by_ip := filter (\<lambda>(ip, b). \<not> time_sub now (ib_last b) > 2 * minute) (il_by_ip l)\<rparr>"

definition refill :: "floats \<Rightarrow> ip_limiter \<Rightarrow> time \<Rightarrow> ip_bucket \<Rightarrow> ip_bucket" where [go_eval]:
  "refill fl l now b =
     (let elapsed = seconds fl (time_sub now (ib_last b)) in
      if f_less (Num 0) elapsed
      then (let t = f_add fl (ib_tokens b) (f_mul fl elapsed (il_rps l));
                t' = (if f_less (il_burst l) t then il_burst l else t)
            in b\<lparr>ib_tokens := t', ib_last := now\<rparr>)
      else b)"

definition limiter_allow ::
  "floats \<Rightarrow> time \<Rightarrow> string \<Rightarrow> ip_limiter option \<Rightarrow> bool \<times> ip_limiter option" where [go_eval]:
  "limiter_allow fl now ip lo =
     (case lo of
        None \<Rightarrow> (True, None)
      | Some l \<Rightarrow>
          let b0 = (case gget (il_by_ip l) ip of
                      None \<Rightarrow> \<lparr>ib_tokens = il_burst l, ib_last = now\<rparr> | Some b \<Rightarrow> b);
              b = refill fl l now b0;
              deny = f_less (ib_tokens b) (Num 1);
              b' = (if deny then b else b\<lparr>ib_tokens := f_sub1 fl (ib_tokens b)\<rparr>);
              l' = l\<lparr>il_by_ip := gset (il_by_ip l) ip b'\<rparr>
          in (\<not> deny, Some (if length (il_by_ip l') > 10000 then limiter_gc now l' else l')))"

lemmas [go_eval] = f_mul.simps f_add.simps f_sub1.simps f_less.simps f_le0.simps

section \<open>Bursts\<close>

text \<open>
  What rounding keeps: the integers up to the size of a bucket (every integer below
  \<open>2 ^ 53\<close> is a \<open>float64\<close>).
\<close>

definition exact_to :: "floats \<Rightarrow> int \<Rightarrow> bool" where
  "exact_to fl n \<longleftrightarrow> (\<forall>i. 0 \<le> i \<and> i \<le> n \<longrightarrow> fl_round fl (of_int i) = of_int i)"

definition limiter_run :: "floats \<Rightarrow> time \<Rightarrow> string \<Rightarrow> nat \<Rightarrow> ip_limiter \<Rightarrow> bool list \<times> ip_limiter" where [go_eval]:
  "limiter_run fl now ip n l =
     ((\<lambda>(oks, l). case limiter_allow fl now ip (Some l) of (ok, lo) \<Rightarrow> (oks @ [ok], the lo)) ^^ n) ([], l)"

lemma exact_to_zero: "exact_to fl n \<Longrightarrow> 0 \<le> n \<Longrightarrow> fl_round fl 0 = 0"
  unfolding exact_to_def by (drule spec [of _ 0]) simp

lemma seconds_zero: "exact_to fl n \<Longrightarrow> 0 \<le> n \<Longrightarrow> seconds fl 0 = Num 0"
  by (simp add: seconds_def f_of_int_def Let_def go_div_def go_mod_def exact_to_zero)

lemma refill_now: "exact_to fl n \<Longrightarrow> 0 \<le> n \<Longrightarrow> ib_last b = now \<Longrightarrow> refill fl l now b = b"
  by (simp add: refill_def time_sub_def clamp64_id in64_def seconds_zero Let_def)

lemma limiter_gc_keeps:
  "gwf m \<Longrightarrow> gget m ip = Some b \<Longrightarrow> ib_last b = now \<Longrightarrow> gget (il_by_ip (limiter_gc now (l\<lparr>il_by_ip := m\<rparr>))) ip = Some b"
  by (induction m) (auto simp: limiter_gc_def time_sub_def clamp64_id in64_def gwf_def)

text \<open>The bucket after \<open>k\<close> requests at one instant.\<close>

definition burst_inv :: "int \<Rightarrow> string \<Rightarrow> time \<Rightarrow> f64 \<Rightarrow> nat \<Rightarrow> ip_limiter \<Rightarrow> bool" where
  "burst_inv n ip now rps k l \<longleftrightarrow>
     gwf (il_by_ip l) \<and> il_burst l = Num (of_int n) \<and> il_rps l = rps
     \<and> (case gget (il_by_ip l) ip of
          None \<Rightarrow> k = 0
        | Some b \<Rightarrow> ib_tokens b = Num (of_int (max 0 (n - int k))) \<and> ib_last b = now)"

lemma burst_step:
  assumes fl: "exact_to fl n" "1 \<le> n" and inv: "burst_inv n ip now rps k l"
  shows "\<exists>l'. limiter_allow fl now ip (Some l) = (int k < n, Some l') \<and> burst_inv n ip now rps (Suc k) l'"
proof -
  define b where "b = (case gget (il_by_ip l) ip of
      None \<Rightarrow> \<lparr>ib_tokens = il_burst l, ib_last = now\<rparr> | Some b \<Rightarrow> b)"
  have b: "ib_tokens b = Num (of_int (max 0 (n - int k)))" "ib_last b = now"
    using inv fl(2) by (auto simp: b_def burst_inv_def split: option.splits)
  have r: "refill fl l now b = b" using refill_now [OF fl(1) _ b(2)] fl(2) by simp
  let ?deny = "f_less (ib_tokens b) (Num 1)"
  let ?b' = "if ?deny then b else b\<lparr>ib_tokens := f_sub1 fl (ib_tokens b)\<rparr>"
  let ?m = "gset (il_by_ip l) ip ?b'"
  have deny: "?deny \<longleftrightarrow> \<not> int k < n" by (auto simp: b)
  have "ib_tokens ?b' = Num (of_int (max 0 (n - int (Suc k))))"
  proof (cases "int k < n")
    case True
    have "fl_round fl (of_int (n - int k) - 1) = of_int (n - int (Suc k))"
      using fl(1) [unfolded exact_to_def, THEN spec, of "n - int (Suc k)"] True by (simp add: algebra_simps)
    then show ?thesis using True deny by (simp add: b)
  next
    case False
    then show ?thesis using deny by (simp add: b max_def)
  qed
  moreover have "ib_last ?b' = now" by (simp add: b)
  moreover have "gwf ?m" "gget ?m ip = Some ?b'" using inv by (simp_all add: burst_inv_def)
  moreover have "gwf (il_by_ip (limiter_gc now (l\<lparr>il_by_ip := ?m\<rparr>)))"
    using \<open>gwf ?m\<close> by (simp add: limiter_gc_def gwf_def distinct_map_filter)
  ultimately have "burst_inv n ip now rps (Suc k)
      (if length ?m > 10000 then limiter_gc now (l\<lparr>il_by_ip := ?m\<rparr>) else l\<lparr>il_by_ip := ?m\<rparr>)"
    using inv limiter_gc_keeps [of ?m ip ?b' now l]
    by (auto simp: burst_inv_def limiter_gc_def)
  moreover have "limiter_allow fl now ip (Some l) = (int k < n,
      Some (if length ?m > 10000 then limiter_gc now (l\<lparr>il_by_ip := ?m\<rparr>) else l\<lparr>il_by_ip := ?m\<rparr>))"
    unfolding limiter_allow_def Let_def option.case b_def [symmetric] r deny
    using deny by simp
  ultimately show ?thesis by blast
qed

lemma burst_run:
  assumes fl: "exact_to fl n" "1 \<le> n" and inv: "burst_inv n ip now rps 0 l"
  shows "\<exists>l'. limiter_run fl now ip k l = (map (\<lambda>i. int i < n) [0..<k], l') \<and> burst_inv n ip now rps k l'"
proof (induction k)
  case 0
  then show ?case using inv by (simp add: limiter_run_def)
next
  case (Suc k)
  then obtain l' where l': "limiter_run fl now ip k l = (map (\<lambda>i. int i < n) [0..<k], l')"
      "burst_inv n ip now rps k l'" by blast
  from burst_step [OF fl l'(2)] l'(1) show ?case by (auto simp: limiter_run_def)
qed


lemma f_less_NaN [simp]: "\<not> f_less x NaN"
  by (cases x) simp_all

lemma f_add_NaN [simp]: "f_add fl x NaN = NaN"
  by (cases x) simp_all

lemma f_mul_NaN [simp]: "f_mul fl x NaN = NaN"
  by (cases x) simp_all

text \<open>
  A rate that is not a number switches the limiter off. The constructor accepts it; the first
  refill of a bucket makes its content not-a-number too, and from then on it stays so and every
  request passes.
\<close>

theorem nan_rate_never_limits:
  assumes "new_ip_limiter fl NaN burst = Some l0"
  shows "(f_less (Num 0) (seconds fl (time_sub now (ib_last b))) \<longrightarrow>
            ib_tokens (refill fl (l0\<lparr>il_by_ip := m\<rparr>) now b) = NaN)
    \<and> (gget m ip = Some b \<and> ib_tokens b = NaN \<longrightarrow> fst (limiter_allow fl now ip (Some (l0\<lparr>il_by_ip := m\<rparr>))))"
proof -
  have r: "il_rps l0 = NaN" using assms by (auto simp: new_ip_limiter_def Let_def)
  then have "ib_tokens (refill fl (l0\<lparr>il_by_ip := m\<rparr>) now b) =
      (if f_less (Num 0) (seconds fl (time_sub now (ib_last b))) then NaN else ib_tokens b)"
    by (simp add: refill_def Let_def)
  then show ?thesis by (simp add: limiter_allow_def Let_def)
qed

definition exact_floats :: floats where [go_eval]:
  "exact_floats = \<lparr>fl_round = (\<lambda>x. x), fl_int = (\<lambda>_. 0)\<rparr>"


theorem nan_rate_never_limits_witness:
  "fst (limiter_allow exact_floats 9 ''a'' (Some \<lparr>il_rps = NaN, il_burst = Num 1,
     il_by_ip = [(''a'', \<lparr>ib_tokens = NaN, ib_last = 8\<rparr>)]\<rparr>))"
proof -
  have l0: "new_ip_limiter exact_floats NaN 1 = Some \<lparr>il_rps = NaN, il_burst = Num 1, il_by_ip = []\<rparr>"
    by (simp add: new_ip_limiter_def f_of_int_def exact_floats_def)
  from nan_rate_never_limits [OF l0, of _ "\<lparr>ib_tokens = NaN, ib_last = 8\<rparr>" "[(''a'', \<lparr>ib_tokens = NaN, ib_last = 8\<rparr>)]" "''a''"]
  show ?thesis by simp
qed

end
