(* ===== verification/Config.thy ===== *)
theory Config
  imports Access Go_Net
begin

text \<open>
  \<open>internal/config/config.go\<close>: the configuration read from the environment, with the parsers of
  the standard library it uses. \<open>strconv.ParseFloat\<close> and the random generator are parameters;
  everything the server may rely on in a loaded configuration is proved in \<open>config_is_valid\<close>.
\<close>

section \<open>Errors and parsers\<close>

datatype config_error =
  Invalid_Bool string string
| Invalid_Duration string string
| Invalid_Int string string
| Invalid_Number string string
| Invalid_CIDR string string
| Invalid_IP string string
| Rejected string

definition chain :: "'e + 'a \<Rightarrow> ('a \<Rightarrow> 'e + 'b) \<Rightarrow> 'e + 'b" where [go_eval]:
  "chain x f = (case x of Inl e \<Rightarrow> Inl e | Inr a \<Rightarrow> f a)"

lemma chain_Inr: "chain x f = Inr b \<longleftrightarrow> (\<exists>a. x = Inr a \<and> f a = Inr b)"
  by (cases x) (simp_all add: chain_def)

definition parse_bool :: "string \<Rightarrow> bool option" where [go_eval]:
  "parse_bool s =
     (if s \<in> set [''1'', ''t'', ''T'', ''true'', ''TRUE'', ''True''] then Some True
      else if s \<in> set [''0'', ''f'', ''F'', ''false'', ''FALSE'', ''False''] then Some False
      else None)"

text \<open>\<open>time.ParseDuration\<close>: a sign and a sequence of decimal numbers with units.\<close>

definition unit_of :: "string \<Rightarrow> nat option" where [go_eval]:
  "unit_of s =
     map_of [(''ns'', 1), (''us'', 1000), ([byte 194, byte 181, CHR ''s''], 1000),
       ([byte 206, byte 188, CHR ''s''], 1000), (''ms'', 1000000), (''s'', 1000000000),
       (''m'', 60000000000), (''h'', 3600000000000)] s"

definition digits_front :: "string \<Rightarrow> string \<times> string" where [go_eval]:
  "digits_front s = (takeWhile is_digit s, dropWhile is_digit s)"

text \<open>The fraction keeps the digits that fit; the digits beyond are skipped.\<close>

fun leading_fraction :: "string \<Rightarrow> nat \<Rightarrow> nat \<Rightarrow> bool \<Rightarrow> nat \<times> nat" where
  "leading_fraction [] x scale over = (x, scale)"
| "leading_fraction (c # s) x scale over =
     (if over \<or> x > (2 ^ 63 - 1) div 10 then leading_fraction s x scale True
      else let y = x * 10 + digit_val c in
        if y > 2 ^ 63 then leading_fraction s x scale True
        else leading_fraction s y (scale * 10) False)"

text \<open>One number with its unit: its nanoseconds and the rest of the text.\<close>

definition duration_part :: "floats \<Rightarrow> string \<Rightarrow> (nat \<times> string) option" where [go_eval]:
  "duration_part fl s =
     (case digits_front s of
        (ds, s1) \<Rightarrow>
          let v = digits_val ds;
              dot = (s1 \<noteq> [] \<and> s1 ! 0 = CHR ''.'');
              frac = (if dot then digits_front (tl s1) else ([], s1));
              fx = leading_fraction (fst frac) 0 1 False;
              u = takeWhile (\<lambda>c. c \<noteq> CHR ''.'' \<and> \<not> is_digit c) (snd frac);
              rest = dropWhile (\<lambda>c. c \<noteq> CHR ''.'' \<and> \<not> is_digit c) (snd frac)
          in if v > 2 ^ 63 \<or> (ds = [] \<and> fst frac = []) \<or> u = [] then None
             else (case unit_of u of
               None \<Rightarrow> None
             | Some unit \<Rightarrow>
                 if v > 2 ^ 63 div unit then None
                 else let w = v * unit +
                        (if fst fx > 0
                         then nat (floor (fl_round fl (fl_round fl (of_nat (fst fx))
                                * fl_round fl (of_nat unit / of_nat (snd fx)))))
                         else 0)
                   in if w > 2 ^ 63 then None else Some (w, rest)))"

lemma duration_part_shorter: "duration_part fl s = Some (w, rest) \<Longrightarrow> length rest < length s"
proof -
  assume a: "duration_part fl s = Some (w, rest)"
  define p where "p = (\<lambda>c. c \<noteq> CHR ''.'' \<and> \<not> is_digit c)"
  define s1 where "s1 = dropWhile is_digit s"
  define s2 where "s2 = (if s1 \<noteq> [] \<and> s1 ! 0 = CHR ''.'' then dropWhile is_digit (tl s1) else s1)"
  have "length s2 \<le> length s1" by (auto simp: s2_def intro: order_trans [OF length_dropWhile_le])
  also have "length s1 \<le> length s" by (simp add: s1_def length_dropWhile_le)
  finally have l: "length s2 \<le> length s" .
  from a have r: "rest = dropWhile p s2" "takeWhile p s2 \<noteq> []"
    by (auto simp: duration_part_def digits_front_def Let_def p_def s2_def s1_def split: option.splits if_splits)
  have "length (takeWhile p s2) + length (dropWhile p s2) = length s2"
    by (metis length_append takeWhile_dropWhile_id)
  moreover have "0 < length (takeWhile p s2)" using r(2) by simp
  ultimately show ?thesis using l unfolding r(1) by linarith
qed

function duration_sum :: "floats \<Rightarrow> string \<Rightarrow> nat \<Rightarrow> nat option" where
  "duration_sum fl s d =
     (if s = [] then Some d
      else case duration_part fl s of
        None \<Rightarrow> None
      | Some (w, rest) \<Rightarrow> if d + w > 2 ^ 63 then None else duration_sum fl rest (d + w))"
  by pat_completeness auto

termination
  by (relation "measure (\<lambda>(_, s, _). length s)") (auto dest: duration_part_shorter)

declare duration_sum.simps [simp del]

definition parse_duration :: "floats \<Rightarrow> string \<Rightarrow> duration option" where [go_eval]:
  "parse_duration fl s =
     (let neg = (s \<noteq> [] \<and> s ! 0 = CHR ''-'');
          s1 = (if s \<noteq> [] \<and> (s ! 0 = CHR ''-'' \<or> s ! 0 = CHR ''+'') then tl s else s)
      in if s1 = ''0'' then Some 0 else if s1 = [] then None
         else (case duration_sum fl s1 0 of
           None \<Rightarrow> None
         | Some d \<Rightarrow> if neg then Some (wrap64 (- int d))
                     else if d > 2 ^ 63 - 1 then None else Some (int d)))"

lemmas [go_eval] = leading_fraction.simps

section \<open>Environment variables\<close>

type_synonym environment = "string \<Rightarrow> string"

definition env :: "environment \<Rightarrow> string \<Rightarrow> string \<Rightarrow> string" where [go_eval]:
  "env getenv key fallback = (let v = trim_space (getenv key) in if v \<noteq> [] then v else fallback)"

definition env_bool :: "environment \<Rightarrow> string \<Rightarrow> bool \<Rightarrow> config_error + bool" where [go_eval]:
  "env_bool getenv key fallback =
     (let v = trim_space (getenv key) in
      if v = [] then Inr fallback
      else case parse_bool v of None \<Rightarrow> Inl (Invalid_Bool key v) | Some b \<Rightarrow> Inr b)"

definition env_duration :: "floats \<Rightarrow> environment \<Rightarrow> string \<Rightarrow> duration \<Rightarrow> config_error + duration" where [go_eval]:
  "env_duration fl getenv key fallback =
     (let v = trim_space (getenv key) in
      if v = [] then Inr fallback
      else case parse_duration fl v of None \<Rightarrow> Inl (Invalid_Duration key v) | Some d \<Rightarrow> Inr d)"

definition env_int64 :: "environment \<Rightarrow> string \<Rightarrow> int \<Rightarrow> config_error + int" where [go_eval]:
  "env_int64 getenv key fallback =
     (let v = trim_space (getenv key) in
      if v = [] then Inr fallback
      else case parse_int v of (n, err) \<Rightarrow> if err \<noteq> None then Inl (Invalid_Int key v) else Inr n)"

text \<open>
  \<open>pf\<close> is \<open>strconv.ParseFloat\<close>. Negative infinity, which \<open>Load\<close> refuses with every other
  negative number, is given as a negative number.
\<close>

definition env_float64 :: "(string \<Rightarrow> f64 option) \<Rightarrow> environment \<Rightarrow> string \<Rightarrow> f64 \<Rightarrow> config_error + f64" where [go_eval]:
  "env_float64 pf getenv key fallback =
     (let v = trim_space (getenv key) in
      if v = [] then Inr fallback
      else case pf v of None \<Rightarrow> Inl (Invalid_Number key v) | Some x \<Rightarrow> Inr x)"

definition parse_log_level :: "unicode_tables \<Rightarrow> string \<Rightarrow> config_error + string" where [go_eval]:
  "parse_log_level u s =
     (let l = to_lower u (trim_space s) in
      if l = [] \<or> l = ''info'' then Inr ''info''
      else if l = ''debug'' then Inr ''debug''
      else if l = ''warn'' \<or> l = ''warning'' then Inr ''warn''
      else if l = ''error'' then Inr ''error''
      else Inl (Rejected ''LOG_LEVEL must be debug, info, warn, or error''))"

section \<open>Lists of networks\<close>

definition host_net :: "ip \<Rightarrow> ip_net" where [go_eval]:
  "host_net b =
     (case to4 b of
        Some q \<Rightarrow> \<lparr>ne_ip = q, ne_mask = cidr_mask 32 32\<rparr>
      | None \<Rightarrow> \<lparr>ne_ip = b, ne_mask = cidr_mask 128 128\<rparr>)"

fun parse_net_parts :: "string \<Rightarrow> string list \<Rightarrow> config_error + ip_net list" where
  "parse_net_parts fld [] = Inr []"
| "parse_net_parts fld (p # ps) =
     (let part = trim_space p in
      if part = [] then parse_net_parts fld ps
      else chain
        (if contains part ''/''
         then (case parse_cidr part of None \<Rightarrow> Inl (Invalid_CIDR fld part) | Some n \<Rightarrow> Inr n)
         else (case parse_ip part of None \<Rightarrow> Inl (Invalid_IP fld part) | Some b \<Rightarrow> Inr (host_net b)))
        (\<lambda>n. chain (parse_net_parts fld ps) (\<lambda>ns. Inr (n # ns))))"

definition parse_ip_nets :: "string \<Rightarrow> string \<Rightarrow> config_error + ip_net list" where [go_eval]:
  "parse_ip_nets fld s =
     (let t = trim_space s in if t = [] then Inr [] else parse_net_parts fld (split_at (CHR '','') t))"

lemmas [go_eval] = parse_net_parts.simps

section \<open>The configuration\<close>

record config =
  cf_port :: string
  cf_log_level :: string
  cf_log_format :: string
  cf_aws_region :: string
  cf_aws_key_id :: string
  cf_aws_secret :: string
  cf_s3_bucket :: string
  cf_s3_endpoint :: string
  cf_s3_prefix :: string
  cf_s3_force_path :: bool
  cf_create_bucket :: bool
  cf_access_token :: string
  cf_read_token :: string
  cf_ui_username :: string
  cf_ui_password :: string
  cf_session_secret :: string
  cf_secret_random :: bool
  cf_session_secure :: bool
  cf_trust_forwarded :: bool
  cf_trusted_proxies :: "ip_net list"
  cf_allow_nets :: "ip_net list"
  cf_rate_rps :: f64
  cf_rate_burst :: int
  cf_sqlite_path :: string
  cf_storage :: string
  cf_catalog :: string
  cf_catalog_flush :: duration
  cf_cache_ttl :: duration
  cf_cleanup_interval :: duration
  cf_cleanup_on_save :: bool
  cf_max_upload :: int

definition hex_encode :: "string \<Rightarrow> string" where [go_eval]:
  "hex_encode s = concat (map (\<lambda>c. [hex_char (bval c div 16), hex_char (bval c mod 16)]) s)"

definition guard :: "bool \<Rightarrow> string \<Rightarrow> config_error + unit" where [go_eval]:
  "guard bad msg = (if bad then Inl (Rejected msg) else Inr ())"

lemma guard_Inr [simp]: "guard bad msg = Inr x \<longleftrightarrow> \<not> bad"
  by (simp add: guard_def)

text \<open>The defaults that depend on other fields.\<close>

definition slash_prefix :: "config \<Rightarrow> config" where [go_eval]:
  "slash_prefix c =
     (if \<not> has_suffix (cf_s3_prefix c) ''/'' \<and> cf_s3_prefix c \<noteq> []
      then c\<lparr>cf_s3_prefix := cf_s3_prefix c @ ''/''\<rparr> else c)"

definition default_catalog :: "config \<Rightarrow> config" where [go_eval]:
  "default_catalog c = (if cf_catalog c = [] then c\<lparr>cf_catalog := ''s3''\<rparr> else c)"

definition default_path :: "config \<Rightarrow> config" where [go_eval]:
  "default_path c =
     (if cf_catalog c = ''sqlite'' \<and> trim_space (cf_sqlite_path c) = []
      then c\<lparr>cf_sqlite_path := ''data/nx-cache.db''\<rparr> else c)"

definition with_secret :: "config_error + string \<Rightarrow> config \<Rightarrow> config_error + config" where [go_eval]:
  "with_secret random c =
     (if trim_space (cf_session_secret c) = []
      then chain random (\<lambda>buf. Inr (c\<lparr>cf_session_secret := hex_encode buf, cf_secret_random := True\<rparr>))
      else Inr c)"

text \<open>The checks after the fields have been read.\<close>

definition finish_config :: "config_error + string \<Rightarrow> config \<Rightarrow> config_error + config" where [go_eval]:
  "finish_config random c0 =
     (let c1 = slash_prefix c0; c2 = default_catalog c1; c3 = default_path c2 in
      chain (guard (cf_access_token c1 = []) ''NX_CACHE_ACCESS_TOKEN is required'') (\<lambda>_.
      chain (guard (cf_storage c1 \<noteq> ''s3'' \<and> cf_storage c1 \<noteq> ''memory'')
               ''STORAGE_BACKEND must be s3 or memory'') (\<lambda>_.
      chain (guard (cf_storage c1 = ''s3'' \<and> cf_s3_bucket c1 = []) ''S3_BUCKET_NAME is required'') (\<lambda>_.
      chain (guard (cf_catalog c2 \<noteq> ''s3'' \<and> cf_catalog c2 \<noteq> ''sqlite'')
               ''CATALOG_BACKEND must be s3 or sqlite'') (\<lambda>_.
      chain (guard (cf_ui_password c3 = []) ''UI_PASSWORD is required'') (\<lambda>_.
      chain (with_secret random c3) (\<lambda>c4.
      chain (guard (cf_cache_ttl c4 \<le> 0) ''CACHE_TTL must be positive'') (\<lambda>_.
      chain (guard (cf_catalog_flush c4 < 0) ''CATALOG_FLUSH_INTERVAL cannot be negative'') (\<lambda>_.
      chain (guard (cf_log_format c4 \<noteq> ''text'' \<and> cf_log_format c4 \<noteq> ''json'')
               ''LOG_FORMAT must be text or json'') (\<lambda>_.
      Inr c4))))))))))"

definition load ::
  "unicode_tables \<Rightarrow> floats \<Rightarrow> (string \<Rightarrow> f64 option) \<Rightarrow> config_error + string \<Rightarrow> environment \<Rightarrow>
   config_error + config" where [go_eval]:
  "load u fl pf random getenv =
     chain (env_bool getenv ''S3_FORCE_PATH_STYLE'' (getenv ''S3_ENDPOINT_URL'' \<noteq> [])) (\<lambda>force_path.
     chain (env_bool getenv ''S3_CREATE_BUCKET'' False) (\<lambda>create_bucket.
     chain (env_duration fl getenv ''CATALOG_FLUSH_INTERVAL'' (30 * second)) (\<lambda>flush.
     chain (env_duration fl getenv ''CACHE_TTL'' (72 * hour)) (\<lambda>ttl.
     chain (env_duration fl getenv ''CLEANUP_INTERVAL'' hour) (\<lambda>cleanup_every.
     chain (env_bool getenv ''CLEANUP_ON_SAVE'' True) (\<lambda>cleanup_on_save.
     chain (env_int64 getenv ''MAX_UPLOAD_BYTES'' (2 * 1024 * 1024 * 1024)) (\<lambda>max_upload.
     chain (env_bool getenv ''SESSION_SECURE'' True) (\<lambda>session_secure.
     chain (env_bool getenv ''TRUST_FORWARDED_IP'' False) (\<lambda>trust_fwd.
     chain (env_float64 pf getenv ''RATE_LIMIT_RPS'' (Num 0)) (\<lambda>rate_rps.
     chain (env_int64 getenv ''RATE_LIMIT_BURST'' 0) (\<lambda>rate_burst.
     chain (guard (f_less rate_rps (Num 0)) ''RATE_LIMIT_RPS cannot be negative'') (\<lambda>_.
     chain (guard (rate_burst < 0) ''RATE_LIMIT_BURST cannot be negative'') (\<lambda>_.
     chain (parse_ip_nets ''ALLOW_IPS'' (getenv ''ALLOW_IPS'')) (\<lambda>allow_nets.
     chain (parse_ip_nets ''TRUSTED_PROXY_CIDRS'' (getenv ''TRUSTED_PROXY_CIDRS'')) (\<lambda>trusted_proxies.
     chain (guard (trust_fwd \<and> trusted_proxies = [])
              ''TRUSTED_PROXY_CIDRS is required when TRUST_FORWARDED_IP is true'') (\<lambda>_.
     chain (parse_log_level u (env getenv ''LOG_LEVEL'' ''info'')) (\<lambda>log_level.
     finish_config random
       \<lparr>cf_port = env getenv ''PORT'' ''8080'',
        cf_log_level = log_level,
        cf_log_format = to_lower u (env getenv ''LOG_FORMAT'' ''text''),
        cf_aws_region = env getenv ''AWS_REGION'' ''us-east-1'',
        cf_aws_key_id = getenv ''AWS_ACCESS_KEY_ID'',
        cf_aws_secret = getenv ''AWS_SECRET_ACCESS_KEY'',
        cf_s3_bucket = env getenv ''S3_BUCKET_NAME'' ''nx-cache'',
        cf_s3_endpoint = getenv ''S3_ENDPOINT_URL'',
        cf_s3_prefix = env getenv ''S3_PREFIX'' ''nx-cache/'',
        cf_s3_force_path = force_path,
        cf_create_bucket = create_bucket,
        cf_access_token = env getenv ''NX_CACHE_ACCESS_TOKEN''
                            (getenv ''NX_SELF_HOSTED_REMOTE_CACHE_ACCESS_TOKEN''),
        cf_read_token = getenv ''NX_CACHE_READ_TOKEN'',
        cf_ui_username = env getenv ''UI_USERNAME'' ''admin'',
        cf_ui_password = getenv ''UI_PASSWORD'',
        cf_session_secret = getenv ''SESSION_SECRET'',
        cf_secret_random = False,
        cf_session_secure = session_secure,
        cf_trust_forwarded = trust_fwd,
        cf_trusted_proxies = trusted_proxies,
        cf_allow_nets = allow_nets,
        cf_rate_rps = rate_rps,
        cf_rate_burst = rate_burst,
        cf_sqlite_path = getenv ''SQLITE_PATH'',
        cf_storage = to_lower u (env getenv ''STORAGE_BACKEND'' ''s3''),
        cf_catalog = to_lower u (env getenv ''CATALOG_BACKEND'' ''s3''),
        cf_catalog_flush = flush,
        cf_cache_ttl = ttl,
        cf_cleanup_interval = cleanup_every,
        cf_cleanup_on_save = cleanup_on_save,
        cf_max_upload = max_upload\<rparr>)))))))))))))))))"

section \<open>What a loaded configuration guarantees\<close>

lemma parse_log_level_ok: "parse_log_level u s = Inr l \<Longrightarrow> l \<in> {''debug'', ''info'', ''warn'', ''error''}"
  by (auto simp: parse_log_level_def Let_def split: if_splits)

lemma length_hex_encode [simp]: "length (hex_encode s) = 2 * length s"
  by (induction s) (simp_all add: hex_encode_def)

definition config_ok :: "config \<Rightarrow> bool" where [go_eval]:
  "config_ok c \<longleftrightarrow>
     cf_access_token c \<noteq> [] \<and> cf_ui_password c \<noteq> [] \<and> cf_session_secret c \<noteq> []
     \<and> (cf_storage c = ''s3'' \<or> cf_storage c = ''memory'')
     \<and> (cf_storage c = ''s3'' \<longrightarrow> cf_s3_bucket c \<noteq> [])
     \<and> (cf_catalog c = ''s3'' \<or> cf_catalog c = ''sqlite'')
     \<and> (cf_catalog c = ''sqlite'' \<longrightarrow> trim_space (cf_sqlite_path c) \<noteq> [])
     \<and> (cf_s3_prefix c = [] \<or> has_suffix (cf_s3_prefix c) ''/'')
     \<and> 0 < cf_cache_ttl c \<and> 0 \<le> cf_catalog_flush c
     \<and> (cf_log_format c = ''text'' \<or> cf_log_format c = ''json'')"

lemma default_fields:
  "cf_s3_prefix (slash_prefix c) = [] \<or> has_suffix (cf_s3_prefix (slash_prefix c)) ''/''"
  "cf_catalog (default_path c) = ''sqlite'' \<longrightarrow> trim_space (cf_sqlite_path (default_path c)) \<noteq> []"
proof -
  have "trim_space ''data/nx-cache.db'' \<noteq> []" by (simp add: go_eval)
  then show "cf_catalog (default_path c) = ''sqlite'' \<longrightarrow> trim_space (cf_sqlite_path (default_path c)) \<noteq> []"
    by (simp add: default_path_def)
  show "cf_s3_prefix (slash_prefix c) = [] \<or> has_suffix (cf_s3_prefix (slash_prefix c)) ''/''"
    by (auto simp: slash_prefix_def has_suffix_iff)
qed

lemma default_keeps:
  "cf_access_token (slash_prefix c) = cf_access_token c" "cf_storage (slash_prefix c) = cf_storage c"
  "cf_s3_bucket (slash_prefix c) = cf_s3_bucket c"
  "cf_catalog (default_path c) = cf_catalog c"
  by (simp_all add: slash_prefix_def default_path_def)

text \<open>The fields that only their own step may change.\<close>

definition same_fields :: "config \<Rightarrow> config \<Rightarrow> bool" where
  "same_fields c d \<longleftrightarrow>
     cf_access_token d = cf_access_token c \<and> cf_storage d = cf_storage c \<and> cf_s3_bucket d = cf_s3_bucket c
     \<and> cf_log_level d = cf_log_level c \<and> cf_trust_forwarded d = cf_trust_forwarded c
     \<and> cf_trusted_proxies d = cf_trusted_proxies c \<and> cf_rate_rps d = cf_rate_rps c
     \<and> cf_rate_burst d = cf_rate_burst c \<and> cf_ui_password d = cf_ui_password c"

lemma same_fields_steps:
  "same_fields c (slash_prefix c)" "same_fields c (default_catalog c)" "same_fields c (default_path c)"
  by (simp_all add: same_fields_def slash_prefix_def default_catalog_def default_path_def)

lemma same_fields_trans: "same_fields c d \<Longrightarrow> same_fields d e \<Longrightarrow> same_fields c e"
  by (simp add: same_fields_def)

lemma with_secret_ok:
  assumes "with_secret random c = Inr d" and "\<And>buf. random = Inr buf \<Longrightarrow> length buf = 32"
  shows "same_fields c d \<and> cf_session_secret d \<noteq> [] \<and> cf_catalog d = cf_catalog c
    \<and> cf_sqlite_path d = cf_sqlite_path c \<and> cf_s3_prefix d = cf_s3_prefix c
    \<and> (cf_secret_random d \<and> \<not> cf_secret_random c \<longrightarrow> length (cf_session_secret d) = 64)"
proof (cases "trim_space (cf_session_secret c) = []")
  case True
  with assms(1) obtain buf where buf: "random = Inr buf"
      "d = c\<lparr>cf_session_secret := hex_encode buf, cf_secret_random := True\<rparr>"
    by (auto simp: with_secret_def chain_Inr)
  with assms(2) have l: "length (hex_encode buf) = 64" by simp
  then have "hex_encode buf \<noteq> []" by force
  with buf l show ?thesis by (simp add: same_fields_def)
next
  case False
  moreover have "trim_space [] = []" by (simp add: go_eval)
  ultimately have "cf_session_secret c \<noteq> []" "d = c" using assms(1) by (auto simp: with_secret_def)
  then show ?thesis by (simp add: same_fields_def)
qed

lemma finish_config_ok:
  assumes "finish_config random c0 = Inr c"
    and "\<And>buf. random = Inr buf \<Longrightarrow> length buf = 32"
  shows "config_ok c \<and> same_fields c0 c
    \<and> (cf_secret_random c \<and> \<not> cf_secret_random c0 \<longrightarrow> length (cf_session_secret c) = 64)"
proof -
  let ?c1 = "slash_prefix c0" let ?c2 = "default_catalog ?c1" let ?c3 = "default_path ?c2"
  from assms(1) obtain c4 where a4: "with_secret random ?c3 = Inr c4" "c4 = c"
      "cf_access_token ?c1 \<noteq> []" "\<not> (cf_storage ?c1 \<noteq> ''s3'' \<and> cf_storage ?c1 \<noteq> ''memory'')"
      "\<not> (cf_storage ?c1 = ''s3'' \<and> cf_s3_bucket ?c1 = [])"
      "\<not> (cf_catalog ?c2 \<noteq> ''s3'' \<and> cf_catalog ?c2 \<noteq> ''sqlite'')"
      "cf_ui_password ?c3 \<noteq> []" "\<not> cf_cache_ttl c4 \<le> 0" "\<not> cf_catalog_flush c4 < 0"
      "\<not> (cf_log_format c4 \<noteq> ''text'' \<and> cf_log_format c4 \<noteq> ''json'')"
    unfolding finish_config_def Let_def
    by (simp only: chain_Inr guard_Inr sum.inject) (elim exE conjE, rule that; assumption)
  have a: "cf_access_token ?c1 \<noteq> []" "cf_storage ?c1 = ''s3'' \<or> cf_storage ?c1 = ''memory''"
      "cf_storage ?c1 = ''s3'' \<longrightarrow> cf_s3_bucket ?c1 \<noteq> []"
      "cf_catalog ?c2 = ''s3'' \<or> cf_catalog ?c2 = ''sqlite''"
      "cf_ui_password ?c3 \<noteq> []" "with_secret random ?c3 = Inr c"
      "0 < cf_cache_ttl c" "0 \<le> cf_catalog_flush c"
      "cf_log_format c = ''text'' \<or> cf_log_format c = ''json''"
    using a4 by (simp_all add: not_le not_less)
  note w = with_secret_ok [OF a(6) assms(2)]
  from w have s3: "same_fields ?c3 c" by blast
  have s1: "same_fields ?c1 c"
    by (rule same_fields_trans [OF same_fields_trans [OF same_fields_steps(2,3)] s3])
  note s = same_fields_trans [OF same_fields_steps(1) s1] s1 s3
  have "cf_s3_prefix c = cf_s3_prefix ?c1"
    using w by (simp add: default_path_def default_catalog_def)
  moreover have "cf_secret_random ?c3 = cf_secret_random c0"
    by (simp add: default_path_def default_catalog_def slash_prefix_def)
  ultimately show ?thesis
    using a w s default_fields(1) [of c0] default_fields(2) [of ?c2] default_keeps(4) [of ?c2]
    unfolding config_ok_def same_fields_def by metis
qed

text \<open>
  C31: what the server may rely on. A configuration that loads has a write token, a password and
  a session secret (a generated one has 64 digits), a positive retention time, a non-negative
  flush interval and burst, a rate that is not negative, known backends with the settings they
  need, a prefix that is empty or ends in a slash, a known log level and format, and it trusts
  forwarding headers only with a list of trusted proxies.
\<close>

theorem config_is_valid:
  assumes "load u fl pf random getenv = Inr c" and "\<And>buf. random = Inr buf \<Longrightarrow> length buf = 32"
  shows "config_ok c
    \<and> (cf_trust_forwarded c \<longrightarrow> cf_trusted_proxies c \<noteq> [])
    \<and> \<not> f_less (cf_rate_rps c) (Num 0) \<and> 0 \<le> cf_rate_burst c
    \<and> cf_log_level c \<in> {''debug'', ''info'', ''warn'', ''error''}
    \<and> (cf_secret_random c \<longrightarrow> length (cf_session_secret c) = 64)"
proof -
  from assms(1) obtain c0 where c0: "finish_config random c0 = Inr c" "\<not> cf_secret_random c0"
      "cf_trust_forwarded c0 \<longrightarrow> cf_trusted_proxies c0 \<noteq> []" "\<not> f_less (cf_rate_rps c0) (Num 0)"
      "0 \<le> cf_rate_burst c0"
      "cf_log_level c0 \<in> {''debug'', ''info'', ''warn'', ''error''}"
    unfolding load_def
    by (simp only: chain_Inr guard_Inr)
       (elim exE conjE, rule that, assumption, simp_all, drule parse_log_level_ok, simp)
  from finish_config_ok [OF c0(1) assms(2)] c0 show ?thesis by (simp add: same_fields_def)
qed

definition example_env :: environment where [go_eval]:
  "example_env k =
     (if k = ''NX_CACHE_ACCESS_TOKEN'' then ''t'' else if k = ''UI_PASSWORD'' then ''p'' else [])"

lemma example_config_load: "\<exists>c. load ascii_tables exact_floats (\<lambda>_. None) (Inr (replicate 32 (CHR ''x''))) example_env = Inr c"
  by (simp add: go_eval ascii_tables_def)

theorem config_is_valid_witness:
  "\<exists>c. load ascii_tables exact_floats (\<lambda>_. None) (Inr (replicate 32 (CHR ''x''))) example_env = Inr c
     \<and> config_ok c \<and> cf_log_level c \<in> {''debug'', ''info'', ''warn'', ''error''}"
proof -
  obtain c where c: "load ascii_tables exact_floats (\<lambda>_. None) (Inr (replicate 32 (CHR ''x''))) example_env = Inr c"
    using example_config_load by blast
  from config_is_valid [OF this] have "config_ok c \<and> cf_log_level c \<in> {''debug'', ''info'', ''warn'', ''error''}"
    by simp
  with c show ?thesis by blast
qed

end
