(* ===== verification/Sql_Store.thy ===== *)
theory Sql_Store
  imports Object_Store Notifying
begin

text \<open>
  \<open>internal/store/store.go\<close>: the catalog \<open>DB\<close> on SQLite. The statements of the source are
  functions on the three tables; the engine decides whether a statement runs (\<open>db_plan\<close> gives
  the outcome of the next statements) and refuses one with too many parameters. A statement that
  fails changes nothing. Times are stored in whole seconds.
\<close>

section \<open>Tables and statements\<close>

record row =
  ro_size :: int
  ro_created :: int
  ro_accessed :: int
  ro_hits :: int
  ro_task :: task_info

record sqldb =
  db_rows :: "(string, row) gomap"
  db_counters :: "(string, int) gomap"
  db_days :: "(string, day_stat) gomap"
  db_columns :: "string list"
  db_plan :: "goerr option list"
  db_max_vars :: nat

text \<open>The outcome of the next statement, which has \<open>n\<close> parameters.\<close>

definition sql_outcome :: "nat \<Rightarrow> sqldb \<Rightarrow> goerr option" where [go_eval]:
  "sql_outcome n db =
     (if n > db_max_vars db then Some (OtherErr ''too many SQL variables'')
      else case db_plan db of [] \<Rightarrow> None | r # _ \<Rightarrow> r)"

definition sql_exec :: "nat \<Rightarrow> (sqldb \<Rightarrow> sqldb) \<Rightarrow> sqldb \<Rightarrow> goerr option \<times> sqldb" where [go_eval]:
  "sql_exec n f db =
     (let db' = db\<lparr>db_plan := tl (db_plan db)\<rparr> in
      case sql_outcome n db of Some e \<Rightarrow> (Some e, db') | None \<Rightarrow> (None, f db'))"

text \<open>The expression \<open>CASE WHEN new = '' THEN old ELSE new END\<close> on the four task columns.\<close>

definition sql_case :: "string \<Rightarrow> string \<Rightarrow> string" where [go_eval]:
  "sql_case new old = (if new = [] then old else new)"

definition sql_task :: "task_info \<Rightarrow> task_info \<Rightarrow> task_info" where [go_eval]:
  "sql_task new old =
     \<lparr>ti_project = sql_case (ti_project new) (ti_project old), ti_target = sql_case (ti_target new) (ti_target old),
      ti_config = sql_case (ti_config new) (ti_config old), ti_kind = sql_case (ti_kind new) (ti_kind old)\<rparr>"

lemma sql_task_overlay: "sql_task = overlay"
  by (intro ext) (simp add: sql_task_def sql_case_def overlay_def)

section \<open>Opening\<close>

definition sql_dsn :: "string \<Rightarrow> string \<Rightarrow> string" where [go_eval]:
  "sql_dsn random_hex path =
     (if path = '':memory:'' \<or> path = [] then ''file:nxcache-'' @ random_hex @ ''?mode=memory&cache=shared''
      else ''file:'' @ path @ ''?_pragma=busy_timeout(5000)&_pragma=foreign_keys(1)&_pragma=journal_mode(WAL)'')"

definition is_duplicate_column :: "unicode_tables \<Rightarrow> goerr \<Rightarrow> bool" where [go_eval]:
  "is_duplicate_column u e =
     (case e of OtherErr msg \<Rightarrow> contains (to_lower u msg) ''duplicate column name'' | _ \<Rightarrow> False)"

definition insert_ignore :: "'k \<Rightarrow> 'v \<Rightarrow> ('k, 'v) gomap \<Rightarrow> ('k, 'v) gomap" where [go_eval]:
  "insert_ignore k v m = (if ghas m k then m else gset m k v)"

definition create_tables :: "sqldb \<Rightarrow> sqldb" where [go_eval]:
  "create_tables db =
     db\<lparr>db_counters := insert_ignore ''stores'' 0 (insert_ignore ''misses'' 0
          (insert_ignore ''hits'' 0 (db_counters db)))\<rparr>"

definition add_column :: "string \<Rightarrow> sqldb \<Rightarrow> goerr option \<times> sqldb" where [go_eval]:
  "add_column col db =
     (if col \<in> set (db_columns db) \<and> sql_outcome 0 db = None
      then (Some (OtherErr (''duplicate column name: '' @ col)), db\<lparr>db_plan := tl (db_plan db)\<rparr>)
      else sql_exec 0 (\<lambda>db. db\<lparr>db_columns := db_columns db @ [col]\<rparr>) db)"

fun add_columns :: "unicode_tables \<Rightarrow> string list \<Rightarrow> sqldb \<Rightarrow> goerr option \<times> sqldb" where
  "add_columns u [] db = (None, db)"
| "add_columns u (col # cols) db =
     (case add_column col db of
        (Some e, db') \<Rightarrow> if is_duplicate_column u e then add_columns u cols db' else (Some e, db')
      | (None, db') \<Rightarrow> add_columns u cols db')"

definition sql_migrate :: "unicode_tables \<Rightarrow> sqldb \<Rightarrow> goerr option \<times> sqldb" where [go_eval]:
  "sql_migrate u db =
     (case sql_exec 0 create_tables db of
        (Some e, db') \<Rightarrow> (Some e, db')
      | (None, db') \<Rightarrow> add_columns u [''project'', ''target'', ''config'', ''kind''] db')"

section \<open>Operations\<close>

definition upsert_row :: "string \<Rightarrow> row \<Rightarrow> sqldb \<Rightarrow> sqldb" where [go_eval]:
  "upsert_row h new db =
     db\<lparr>db_rows := gset (db_rows db) h
        (case gget (db_rows db) h of
           None \<Rightarrow> new
         | Some old \<Rightarrow> old\<lparr>ro_size := ro_size new, ro_task := sql_task (ro_task new) (ro_task old)\<rparr>)\<rparr>"

definition bump_counter :: "string \<Rightarrow> sqldb \<Rightarrow> sqldb" where [go_eval]:
  "bump_counter key db =
     (case gget (db_counters db) key of
        None \<Rightarrow> db | Some n \<Rightarrow> db\<lparr>db_counters := gset (db_counters db) key (wrap64 (n + 1))\<rparr>)"

definition bump_day_row :: "string \<Rightarrow> string \<Rightarrow> sqldb \<Rightarrow> sqldb" where [go_eval]:
  "bump_day_row key day db =
     db\<lparr>db_days := gset (db_days db) day
        (bump_day key (case gget (db_days db) day of None \<Rightarrow> new_day day | Some d \<Rightarrow> d))\<rparr>"

definition sql_bump :: "string \<Rightarrow> time \<Rightarrow> sqldb \<Rightarrow> goerr option \<times> sqldb" where [go_eval]:
  "sql_bump key at db =
     (case sql_exec 1 (bump_counter key) db of
        (Some e, db') \<Rightarrow> (Some e, db')
      | (None, db') \<Rightarrow>
          if key \<in> set [''hits'', ''misses'', ''stores'']
          then sql_exec 1 (bump_day_row key (format_day at)) db'
          else (Some (OtherErr (''unknown counter '' @ key)), db'))"

definition sql_upsert :: "string \<Rightarrow> int \<Rightarrow> time \<Rightarrow> task_info \<Rightarrow> sqldb \<Rightarrow> goerr option \<times> sqldb" where [go_eval]:
  "sql_upsert h n at info db =
     (case sql_exec 8 (upsert_row h \<lparr>ro_size = n, ro_created = unix at, ro_accessed = unix at, ro_hits = 0,
                                    ro_task = info\<rparr>) db of
        (Some e, db') \<Rightarrow> (Some e, db') | (None, db') \<Rightarrow> sql_bump ''stores'' at db')"

definition hit_row :: "string \<Rightarrow> int \<Rightarrow> sqldb \<Rightarrow> sqldb" where [go_eval]:
  "hit_row h at db =
     (case gget (db_rows db) h of
        None \<Rightarrow> db
      | Some r \<Rightarrow> db\<lparr>db_rows := gset (db_rows db) h (r\<lparr>ro_hits := wrap64 (ro_hits r + 1), ro_accessed := at\<rparr>)\<rparr>)"

definition sql_record_hit :: "string \<Rightarrow> time \<Rightarrow> sqldb \<Rightarrow> goerr option \<times> sqldb" where [go_eval]:
  "sql_record_hit h at db =
     (case sql_exec 2 (hit_row h (unix at)) db of
        (Some e, db') \<Rightarrow> (Some e, db') | (None, db') \<Rightarrow> sql_bump ''hits'' at db')"

definition sql_record_miss :: "time \<Rightarrow> sqldb \<Rightarrow> goerr option \<times> sqldb" where [go_eval]:
  "sql_record_miss at db = sql_bump ''misses'' at db"

definition row_entry :: "string \<Rightarrow> row \<Rightarrow> entry" where [go_eval]:
  "row_entry h r =
     \<lparr>en_hash = h, en_size = ro_size r, en_created = of_unix (ro_created r), en_accessed = of_unix (ro_accessed r),
      en_hits = ro_hits r, en_task = ro_task r\<rparr>"

text \<open>\<open>LIKE\<close> with an escape character: letters match in either case, ASCII only.\<close>

function sql_like :: "string \<Rightarrow> string \<Rightarrow> bool" where
  "sql_like p s =
     (case p of
        [] \<Rightarrow> s = []
      | c # p' \<Rightarrow>
          if c = CHR ''%'' then (if s = [] then sql_like p' s else sql_like p' s \<or> sql_like p (tl s))
          else if s = [] then False
          else if c = CHR ''_'' then sql_like p' (drop (snd (decode_rune (hd s) (tl s))) s)
          else if c = backslash
               then (case p' of [] \<Rightarrow> False
                     | d # p'' \<Rightarrow> ascii_lower d = ascii_lower (hd s) \<and> sql_like p'' (tl s))
          else ascii_lower c = ascii_lower (hd s) \<and> sql_like p' (tl s))"
  by pat_completeness auto

termination
  by (relation "measures [\<lambda>(p, s). length p + length s]") auto

declare sql_like.simps [simp del]

definition row_matches :: "string \<Rightarrow> string \<Rightarrow> row \<Rightarrow> bool" where [go_eval]:
  "row_matches like h r \<longleftrightarrow>
     sql_like like h \<or> sql_like like (ti_project (ro_task r)) \<or> sql_like like (ti_target (ro_task r))
     \<or> sql_like like (ti_kind (ro_task r))
     \<or> sql_like like (ti_project (ro_task r) @ '':'' @ ti_target (ro_task r))"

text \<open>
  The two statements of \<open>List\<close>. Rows with the same second come in any order; SQLite reads a
  negative offset as 0.
\<close>

definition sql_list ::
  "string list \<Rightarrow> string \<Rightarrow> int \<Rightarrow> int \<Rightarrow> sqldb \<Rightarrow> (entry list \<times> int) outcome" where [go_eval]:
  "sql_list ord query limit offset db =
     (let lim = (if limit \<le> 0 then 25 else limit);
          q = trim_space query;
          rows = gvisit ord (db_rows db);
          sel = (if q \<noteq> [] then filter (\<lambda>(h, r). row_matches (like_contains q) h r) rows else rows);
          sorted = sort_key (\<lambda>(h, r). - ro_created r) sel
      in case sql_outcome 7 db of
           Some e \<Rightarrow> Fail e
         | None \<Rightarrow> Ret (map (\<lambda>(h, r). row_entry h r) (take (nat lim) (drop (nat offset) sorted)), int (length sel)))"

definition sql_list_older :: "string list \<Rightarrow> time \<Rightarrow> sqldb \<Rightarrow> goerr + entry list" where [go_eval]:
  "sql_list_older ord cutoff db =
     (case sql_outcome 1 db of
        Some e \<Rightarrow> Inl e
      | None \<Rightarrow> Inr (map (\<lambda>(h, r). row_entry h r)
                       (filter (\<lambda>(h, r). ro_created r < unix cutoff) (gvisit ord (db_rows db)))))"

definition sql_delete :: "string list \<Rightarrow> sqldb \<Rightarrow> goerr option \<times> sqldb" where [go_eval]:
  "sql_delete hs db =
     (if hs = [] then (None, db)
      else sql_exec (length hs) (\<lambda>db. db\<lparr>db_rows := gdels (db_rows db) hs\<rparr>) db)"

text \<open>\<open>SUM\<close> of integers fails when the result is not a 64-bit integer.\<close>

definition sql_stats :: "visits \<Rightarrow> time \<Rightarrow> sqldb \<Rightarrow> goerr + stats" where [go_eval]:
  "sql_stats vs now db =
     (let rows = gvisit (vs_entries vs) (db_rows db);
          total = sum_list (map (\<lambda>(h, r). ro_size r) rows);
          counts = foldl (\<lambda>m (h, r). add_count (kind_or_unknown (ti_kind (ro_task r))) 1 m) [] rows;
          since = stats_since now
      in case sql_outcome 1 db of
           Some e \<Rightarrow> Inl e
         | None \<Rightarrow>
             if \<not> in64 total then Inl (OtherErr ''integer overflow'')
             else (case (gget (db_counters db) ''hits'', gget (db_counters db) ''misses'',
                         gget (db_counters db) ''stores'') of
               (Some hits, Some misses, Some stores) \<Rightarrow>
                 Inr \<lparr>sa_entries = int (length rows), sa_total_size = total, sa_hits = hits,
                      sa_misses = misses, sa_stores = stores,
                      sa_days = sort_key ds_day (filter (\<lambda>d. since \<le> ds_day d)
                                  (map snd (gvisit (vs_days vs) (db_days db)))),
                      sa_by_kind = kind_counts_from_map (vs_kinds vs) counts\<rparr>
             | _ \<Rightarrow> Inl (OtherErr ''sql: no rows in result set'')))"

definition sql_ensure :: "string \<Rightarrow> int \<Rightarrow> time \<Rightarrow> sqldb \<Rightarrow> goerr option \<times> sqldb" where [go_eval]:
  "sql_ensure h n at db =
     sql_exec 4 (\<lambda>db. db\<lparr>db_rows := insert_ignore h \<lparr>ro_size = n, ro_created = unix at, ro_accessed = unix at,
        ro_hits = 0, ro_task = empty_task\<rparr> (db_rows db)\<rparr>) db"

definition sql_update_task :: "string \<Rightarrow> task_info \<Rightarrow> sqldb \<Rightarrow> goerr option \<times> sqldb" where [go_eval]:
  "sql_update_task h info db =
     sql_exec 9 (\<lambda>db. case gget (db_rows db) h of
        None \<Rightarrow> db
      | Some r \<Rightarrow> db\<lparr>db_rows := gset (db_rows db) h (r\<lparr>ro_task := sql_task info (ro_task r)\<rparr>)\<rparr>) db"

definition sql_seed :: "entry \<Rightarrow> sqldb \<Rightarrow> goerr option \<times> sqldb" where [go_eval]:
  "sql_seed e db =
     sql_exec 9 (\<lambda>db. db\<lparr>db_rows := gset (db_rows db) (en_hash e)
        \<lparr>ro_size = en_size e, ro_created = unix (en_created e), ro_accessed = unix (en_accessed e),
         ro_hits = en_hits e, ro_task = en_task e\<rparr>\<rparr>) db"

definition sql_store :: "(sqldb \<Rightarrow> goerr option \<times> sqldb) \<Rightarrow> sqldb store" where [go_eval]:
  "sql_store close =
     \<lparr>st_upsert = sql_upsert, st_record_hit = sql_record_hit, st_record_miss = sql_record_miss,
      st_list = sql_list, st_list_older = sql_list_older, st_delete = sql_delete, st_stats = sql_stats,
      st_ensure = sql_ensure, st_update_task = sql_update_task, st_seed = sql_seed, st_close = close\<rparr>"

lemmas [go_eval] = add_columns.simps

section \<open>The contract of a catalog\<close>

definition sql_ents :: "sqldb \<Rightarrow> (string \<rightharpoonup> entry)" where
  "sql_ents db = (\<lambda>h. map_option (row_entry h) (gget (db_rows db) h))"

definition sql_inv :: "sqldb \<Rightarrow> bool" where
  "sql_inv db \<longleftrightarrow> gwf (db_rows db) \<and> gwf (db_counters db) \<and> gwf (db_days db)"

definition sql_order :: "string list \<Rightarrow> sqldb \<Rightarrow> bool" where
  "sql_order ord db \<longleftrightarrow> visit_order ord (db_rows db)"

definition sql_expired :: "time \<Rightarrow> entry \<Rightarrow> bool" where
  "sql_expired cutoff e \<longleftrightarrow> unix (en_created e) < unix cutoff"

lemma sql_exec_cases:
  assumes "sql_exec n f db = (x, db')"
  shows "(x = None \<and> db' = f (db\<lparr>db_plan := tl (db_plan db)\<rparr>)) \<or> (x \<noteq> None \<and> db' = db\<lparr>db_plan := tl (db_plan db)\<rparr>)"
  using assms by (auto simp: sql_exec_def Let_def split: option.splits)

lemma sql_same_rows: "db_rows db' = db_rows db \<Longrightarrow> sql_ents db' = sql_ents db"
  by (simp add: sql_ents_def)

lemma bump_counter_keeps:
  "db_rows (bump_counter key db) = db_rows db" "db_days (bump_counter key db) = db_days db"
  "gwf (db_counters db) \<Longrightarrow> gwf (db_counters (bump_counter key db))"
  by (auto simp: bump_counter_def split: option.splits)

lemma sql_bump_keeps:
  assumes "sql_inv db" and "sql_bump key at db = (x, db')"
  shows "sql_inv db' \<and> db_rows db' = db_rows db"
proof -
  obtain y db1 where y: "sql_exec 1 (bump_counter key) db = (y, db1)" by force
  have 1: "sql_inv db1 \<and> db_rows db1 = db_rows db"
    using sql_exec_cases [OF y] assms(1) by (auto simp: sql_inv_def bump_counter_keeps)
  show ?thesis
  proof (cases "y = None \<and> key \<in> set [''hits'', ''misses'', ''stores'']")
    case True
    then have "sql_exec 1 (bump_day_row key (format_day at)) db1 = (x, db')"
      using assms(2) y by (auto simp: sql_bump_def split: if_splits)
    from sql_exec_cases [OF this] 1 show ?thesis by (auto simp: sql_inv_def bump_day_row_def)
  next
    case False
    then show ?thesis using assms(2) y 1 by (auto simp: sql_bump_def split: option.splits)
  qed
qed

text \<open>A statement on one row followed by a count.\<close>

lemma exec_bump:
  assumes "sql_inv db"
    and "(case sql_exec n f db of (Some e, db1) \<Rightarrow> (Some e, db1) | (None, db1) \<Rightarrow> sql_bump key at db1) = (x, db')"
    and f: "\<And>d. gwf (db_rows d) \<Longrightarrow> gwf (db_rows (f d))" "\<And>d. db_counters (f d) = db_counters d"
      "\<And>d. db_days (f d) = db_days d"
  shows "sql_inv db'"
    and "db_rows db' = db_rows db \<or> db_rows db' = db_rows (f (db\<lparr>db_plan := tl (db_plan db)\<rparr>))"
    and "x = None \<Longrightarrow> db_rows db' = db_rows (f (db\<lparr>db_plan := tl (db_plan db)\<rparr>))"
proof -
  obtain y db1 where y: "sql_exec n f db = (y, db1)" by force
  note c = sql_exec_cases [OF y]
  have i: "sql_inv db1" using c assms(1) f by (auto simp: sql_inv_def)
  show "sql_inv db'"
    "db_rows db' = db_rows db \<or> db_rows db' = db_rows (f (db\<lparr>db_plan := tl (db_plan db)\<rparr>))"
    "x = None \<Longrightarrow> db_rows db' = db_rows (f (db\<lparr>db_plan := tl (db_plan db)\<rparr>))"
    using c assms(2) y i sql_bump_keeps [OF i, of key at x db'] by (auto split: option.splits)
qed

lemma upsert_row_simps:
  "gwf (db_rows d) \<Longrightarrow> gwf (db_rows (upsert_row h new d))"
  "db_counters (upsert_row h new d) = db_counters d" "db_days (upsert_row h new d) = db_days d"
  by (simp_all add: upsert_row_def)

lemma hit_row_simps:
  "gwf (db_rows d) \<Longrightarrow> gwf (db_rows (hit_row h t d))"
  "db_counters (hit_row h t d) = db_counters d" "db_days (hit_row h t d) = db_days d"
  by (auto simp: hit_row_def split: option.splits)

lemma gwf_insert_ignore [simp]: "gwf m \<Longrightarrow> gwf (insert_ignore k v m)"
  by (simp add: insert_ignore_def)

lemma gget_insert_ignore: "gget (insert_ignore k v m) j = (if j = k \<and> \<not> ghas m k then Some v else gget m j)"
  by (simp add: insert_ignore_def)

lemma sql_older_ok:
  assumes "sql_inv db" and "sql_order ord db" and "sql_list_older ord cutoff db = Inr es"
  shows "set es = {e. \<exists>h. sql_ents db h = Some e \<and> sql_expired cutoff e}"
proof -
  have m: "(h, r) \<in> set (gvisit ord (db_rows db)) \<longleftrightarrow> gget (db_rows db) h = Some r" for h r
    using assms(1,2) by (auto simp: set_gvisit gwf_gget sql_inv_def sql_order_def simp del: map_of_eq_Some_iff)
  have es: "es = map (\<lambda>(h, r). row_entry h r) (filter (\<lambda>(h, r). ro_created r < unix cutoff) (gvisit ord (db_rows db)))"
    using assms(3) by (simp add: sql_list_older_def split: option.splits)
  show ?thesis
  proof (intro set_eqI iffI)
    fix e assume "e \<in> set es"
    then obtain h r where "gget (db_rows db) h = Some r" "ro_created r < unix cutoff" "e = row_entry h r"
      unfolding es by (auto simp: m)
    then show "e \<in> {e. \<exists>h. sql_ents db h = Some e \<and> sql_expired cutoff e}"
      by (auto simp: sql_ents_def sql_expired_def row_entry_def)
  next
    fix e assume "e \<in> {e. \<exists>h. sql_ents db h = Some e \<and> sql_expired cutoff e}"
    then obtain h r where "gget (db_rows db) h = Some r" "e = row_entry h r" "ro_created r < unix cutoff"
      by (auto simp: sql_ents_def sql_expired_def row_entry_def)
    then have "(h, r) \<in> set (filter (\<lambda>(h, r). ro_created r < unix cutoff) (gvisit ord (db_rows db)))"
      by (simp add: m)
    with \<open>e = row_entry h r\<close> show "e \<in> set es" unfolding es by force
  qed
qed

lemma sql_store_sel [simp]:
  "st_upsert (sql_store c) = sql_upsert" "st_record_hit (sql_store c) = sql_record_hit"
  "st_record_miss (sql_store c) = sql_record_miss" "st_list (sql_store c) = sql_list"
  "st_list_older (sql_store c) = sql_list_older" "st_delete (sql_store c) = sql_delete"
  "st_stats (sql_store c) = sql_stats" "st_ensure (sql_store c) = sql_ensure"
  "st_update_task (sql_store c) = sql_update_task" "st_seed (sql_store c) = sql_seed"
  by (simp_all add: sql_store_def)

text \<open>What \<open>UpsertEntry\<close> and \<open>RecordHit\<close> do to the entries.\<close>

lemma sql_upsert_rows:
  assumes "sql_inv db" and "sql_upsert h n at info db = (x, db')"
  shows "sql_inv db'"
    and "k \<noteq> h \<Longrightarrow> gget (db_rows db') k = gget (db_rows db) k"
    and "x = None \<Longrightarrow> gget (db_rows db') h = Some (case gget (db_rows db) h of
          None \<Rightarrow> \<lparr>ro_size = n, ro_created = unix at, ro_accessed = unix at, ro_hits = 0, ro_task = info\<rparr>
        | Some r \<Rightarrow> r\<lparr>ro_size := n, ro_task := overlay info (ro_task r)\<rparr>)"
proof -
  note e = exec_bump [OF assms(1) assms(2) [unfolded sql_upsert_def] upsert_row_simps]
  show "sql_inv db'" by (rule e(1))
  show "k \<noteq> h \<Longrightarrow> gget (db_rows db') k = gget (db_rows db) k"
    using e(2) by (auto simp: upsert_row_def)
  show "x = None \<Longrightarrow> gget (db_rows db') h = Some (case gget (db_rows db) h of
          None \<Rightarrow> \<lparr>ro_size = n, ro_created = unix at, ro_accessed = unix at, ro_hits = 0, ro_task = info\<rparr>
        | Some r \<Rightarrow> r\<lparr>ro_size := n, ro_task := overlay info (ro_task r)\<rparr>)"
    using e(3) by (auto simp: upsert_row_def sql_task_overlay split: option.splits)
qed

lemma sql_hit_rows:
  assumes "sql_inv db" and "sql_record_hit h at db = (x, db')"
  shows "sql_inv db'"
    and "k \<noteq> h \<Longrightarrow> gget (db_rows db') k = gget (db_rows db) k"
    and "x = None \<Longrightarrow> gget (db_rows db') h =
        map_option (\<lambda>r. r\<lparr>ro_hits := wrap64 (ro_hits r + 1), ro_accessed := unix at\<rparr>) (gget (db_rows db) h)"
proof -
  note e = exec_bump [OF assms(1) assms(2) [unfolded sql_record_hit_def] hit_row_simps]
  show "sql_inv db'" by (rule e(1))
  show "k \<noteq> h \<Longrightarrow> gget (db_rows db') k = gget (db_rows db) k"
    using e(2) by (auto simp: hit_row_def split: option.splits)
  show "x = None \<Longrightarrow> gget (db_rows db') h =
        map_option (\<lambda>r. r\<lparr>ro_hits := wrap64 (ro_hits r + 1), ro_accessed := unix at\<rparr>) (gget (db_rows db) h)"
    using e(3) by (auto simp: hit_row_def split: option.splits)
qed

lemma sql_delete_rows:
  assumes "sql_inv db" and "sql_delete hs db = (x, db')"
  shows "sql_inv db' \<and> sql_ents db' = (if x = None then sql_ents db |` (- set hs) else sql_ents db)"
proof (cases "hs = []")
  case True
  with assms show ?thesis by (auto simp: sql_delete_def restrict_map_def)
next
  case False
  with assms(2) have "sql_exec (length hs) (\<lambda>db. db\<lparr>db_rows := gdels (db_rows db) hs\<rparr>) db = (x, db')"
    by (simp add: sql_delete_def)
  from sql_exec_cases [OF this] assms(1) show ?thesis
    by (auto simp: sql_inv_def sql_ents_def gomap_simps restrict_map_def)
qed

lemma sql_ensure_rows:
  assumes "sql_inv db" and "sql_ensure h n at db = (x, db')"
  shows "sql_inv db'" and "ghas (db_rows db) k \<or> k \<noteq> h \<Longrightarrow> gget (db_rows db') k = gget (db_rows db) k"
    and "x = None \<Longrightarrow> ghas (db_rows db') h"
  using sql_exec_cases [OF assms(2) [unfolded sql_ensure_def]] assms(1)
  by (auto simp: sql_inv_def gget_insert_ignore ghas_def)

interpretation sql: artifact_catalog "sql_store close" sql_ents sql_inv sql_order sql_expired for close
proof (unfold_locales, goal_cases)
  case (1 w h e)
  then show ?case by (auto simp: sql_ents_def row_entry_def)
next
  case (2 w h n at info x w')
  then show ?case using sql_upsert_rows(1) [of w h n at info x w'] by simp
next
  case (3 w h n at info w')
  then show ?case using sql_upsert_rows(3) [of w h n at info None w']
    by (auto simp: sql_ents_def row_entry_def overlay_def empty_task_def split: option.splits)
next
  case (4 w h n at info x w' k)
  then show ?case using sql_upsert_rows(2) [of w h n at info x w' k] by (simp add: sql_ents_def)
next
  case (5 w h at x w')
  then show ?case using sql_hit_rows(1) [of w h at x w'] by simp
next
  case (6 w h at w' e)
  then show ?case using sql_hit_rows(3) [of w h at None w'] by (auto simp: sql_ents_def row_entry_def)
next
  case (7 w h at x w' k)
  then show ?case using sql_hit_rows(2) [of w h at x w' k] by (simp add: sql_ents_def)
next
  case (8 w at x w')
  then show ?case using sql_bump_keeps [of w "''misses''" at x w'] by (simp add: sql_record_miss_def sql_ents_def)
next
  case (9 w ord cutoff es)
  then show ?case using sql_older_ok [of w ord cutoff es] by simp
next
  case (10 w hs w')
  then show ?case using sql_delete_rows [of w hs None w'] by simp
next
  case (11 w hs ee w')
  then show ?case using sql_delete_rows [of w hs "Some ee" w'] by simp
next
  case (12 w h n at x w')
  then show ?case using sql_ensure_rows(1) [of w h n at x w'] by simp
next
  case (13 w h n at w')
  then show ?case using sql_ensure_rows(3) [of w h n at None w'] by (auto simp: sql_ents_def ghas_def)
next
  case (14 w h n at x w' k)
  then show ?case using sql_ensure_rows(2) [of w h n at x w' k]
    by (cases "k = h") (auto simp: sql_ents_def ghas_def)
qed

section \<open>Searching\<close>

lemma sql_like_percent: "sql_like (CHR ''%'' # p) s \<longleftrightarrow> (\<exists>a b. s = a @ b \<and> sql_like p b)"
proof (induction s)
  case Nil
  show ?case by (subst sql_like.simps) simp
next
  case (Cons c s)
  have "sql_like (CHR ''%'' # p) (c # s) \<longleftrightarrow> sql_like p (c # s) \<or> sql_like (CHR ''%'' # p) s"
    by (subst sql_like.simps) simp
  also have "\<dots> \<longleftrightarrow> (\<exists>a b. c # s = a @ b \<and> sql_like p b)"
    using Cons by (auto simp: Cons_eq_append_conv)
  finally show ?case .
qed

lemma sql_like_end: "sql_like ''%'' s"
  unfolding sql_like_percent by (intro exI [of _ s] exI [of _ "[]"]) (simp add: sql_like.simps)

text \<open>An escaped byte matches itself, in either case.\<close>

lemma sql_like_escaped:
  "sql_like (escape_like_char c @ p) s \<longleftrightarrow> s \<noteq> [] \<and> ascii_lower c = ascii_lower (hd s) \<and> sql_like p (tl s)"
proof -
  have b [simp]: "backslash \<noteq> CHR ''%''" "backslash \<noteq> CHR ''_''" by (simp_all add: go_eval)
  have esc: "sql_like (backslash # c # p) s \<longleftrightarrow> s \<noteq> [] \<and> ascii_lower c = ascii_lower (hd s) \<and> sql_like p (tl s)"
    by (subst sql_like.simps) auto
  have "sql_like (c # p) s \<longleftrightarrow> s \<noteq> [] \<and> ascii_lower c = ascii_lower (hd s) \<and> sql_like p (tl s)"
    if "c \<noteq> backslash" "c \<noteq> CHR ''%''" "c \<noteq> CHR ''_''"
    using that by (subst sql_like.simps) auto
  with esc show ?thesis by (auto simp: escape_like_char_def)
qed

lemma sql_like_literal:
  "sql_like (concat (map escape_like_char q) @ ''%'') s \<longleftrightarrow> (\<exists>t. map ascii_lower s = map ascii_lower q @ t)"
proof (induction q arbitrary: s)
  case Nil
  show ?case by (simp add: sql_like_end)
next
  case (Cons c q)
  show ?case
    by (cases s) (auto simp: sql_like_escaped Cons.IH)
qed

lemma like_contains_iff:
  "sql_like (like_contains q) s \<longleftrightarrow> contains (map ascii_lower s) (map ascii_lower q)"
proof -
  have "sql_like (like_contains q) s \<longleftrightarrow> (\<exists>a b t. s = a @ b \<and> map ascii_lower b = map ascii_lower q @ t)"
    by (simp add: like_contains_def sql_like_percent sql_like_literal)
  also have "\<dots> \<longleftrightarrow> contains (map ascii_lower s) (map ascii_lower q)"
    (is "?l \<longleftrightarrow> _")
  proof
    assume ?l
    then obtain a b t where "s = a @ b" "map ascii_lower b = map ascii_lower q @ t" by blast
    then have "map ascii_lower s = map ascii_lower a @ map ascii_lower q @ t" by simp
    then show "contains (map ascii_lower s) (map ascii_lower q)" unfolding contains_iff by blast
  next
    assume "contains (map ascii_lower s) (map ascii_lower q)"
    then obtain x t where "map ascii_lower s = x @ map ascii_lower q @ t" unfolding contains_iff by blast
    then obtain a b where "s = a @ b" "map ascii_lower b = map ascii_lower q @ t"
      by (metis map_eq_append_conv)
    then show ?l by blast
  qed
  finally show ?thesis .
qed

text \<open>
  C36: a search finds what it asks for. A row is selected by a non-empty query exactly when, up to
  the case of ASCII letters, the query occurs in its hash, project, target or kind, or in project
  and target joined by a colon; percent, underscore and backslash of the query stand for
  themselves.
\<close>

theorem sql_search_literal:
  "row_matches (like_contains q) h r \<longleftrightarrow>
     (\<exists>s \<in> {h, ti_project (ro_task r), ti_target (ro_task r), ti_kind (ro_task r),
            ti_project (ro_task r) @ '':'' @ ti_target (ro_task r)}.
        contains (map ascii_lower s) (map ascii_lower q))"
  by (auto simp: row_matches_def like_contains_iff)

section \<open>Too many hashes\<close>

text \<open>
  A deletion of more hashes than a statement may have parameters always fails and deletes
  nothing, and so it does when it is repeated: \<open>Delete\<close> puts all hashes into one statement.
\<close>

theorem sql_delete_too_many:
  assumes "db_max_vars db < length hs"
  shows "sql_delete hs db = (Some (OtherErr ''too many SQL variables''), db\<lparr>db_plan := tl (db_plan db)\<rparr>)
    \<and> sql_ents (snd (sql_delete hs db)) = sql_ents db \<and> db_max_vars (snd (sql_delete hs db)) = db_max_vars db"
  using assms by (auto simp: sql_delete_def sql_exec_def sql_outcome_def sql_ents_def Let_def)

section \<open>Concrete instances\<close>

definition empty_db :: "nat \<Rightarrow> sqldb" where [go_eval]:
  "empty_db mx = \<lparr>db_rows = [], db_counters = [], db_days = [], db_columns = [], db_plan = [], db_max_vars = mx\<rparr>"

theorem sql_delete_too_many_witness:
  "sql_ents (snd (sql_delete [''a'', ''b''] (empty_db 1))) = sql_ents (empty_db 1)"
  using sql_delete_too_many [of "empty_db 1" "[''a'', ''b'']"] by (simp add: empty_db_def)

end
