(* ===== verification/Catalog_Refinement.thy ===== *)
theory Catalog_Refinement
  imports Snapshot Sql_Store
begin

text \<open>
  The two catalogs of \<open>internal/store\<close> against each other: as long as times are whole seconds
  and the operations stay on the cases both treat alike, the SQLite tables and the in-memory
  catalog hold the same entries, the same totals and the same days after every sequence of
  operations.
\<close>

fun sql_op :: "cat_op \<Rightarrow> sqldb \<Rightarrow> goerr option \<times> sqldb" where
  "sql_op (Op_Upsert h n at info) d = sql_upsert h n at info d"
| "sql_op (Op_Hit h at) d = sql_record_hit h at d"
| "sql_op (Op_Miss at) d = sql_record_miss at d"
| "sql_op (Op_Delete hs) d = sql_delete hs d"
| "sql_op (Op_Ensure h n at) d = sql_ensure h n at d"
| "sql_op (Op_Update h info) d = sql_update_task h info d"
| "sql_op (Op_Seed e) d = sql_seed e d"

definition whole :: "time \<Rightarrow> bool" where [go_eval]:
  "whole t \<longleftrightarrow> of_unix (unix t) = t"

text \<open>
  The cases the catalogs treat alike: a hit on a known hash (SQLite ignores an unknown one, the
  in-memory catalog creates it), and \<open>EnsureEntry\<close> where there is no size to fill in (only the
  in-memory catalog does that).
\<close>

fun op_fits :: "nat \<Rightarrow> cat_op \<Rightarrow> objcat \<Rightarrow> bool" where
  "op_fits mx (Op_Upsert h n at info) c \<longleftrightarrow> h \<noteq> [] \<and> whole at \<and> at \<noteq> 0"
| "op_fits mx (Op_Hit h at) c \<longleftrightarrow> h \<in> dom (obj_ents c) \<and> whole at"
| "op_fits mx (Op_Miss at) c \<longleftrightarrow> True"
| "op_fits mx (Op_Delete hs) c \<longleftrightarrow> length hs \<le> mx"
| "op_fits mx (Op_Ensure h n at) c \<longleftrightarrow> h \<noteq> [] \<and> whole at \<and> at \<noteq> 0
     \<and> (case obj_ents c h of None \<Rightarrow> True | Some e \<Rightarrow> en_size e \<noteq> 0 \<or> n \<le> 0)"
| "op_fits mx (Op_Update h info) c \<longleftrightarrow> True"
| "op_fits mx (Op_Seed e) c \<longleftrightarrow> en_hash e \<noteq> [] \<and> whole (en_created e) \<and> whole (en_accessed e) \<and> en_created e \<noteq> 0"

definition day_view :: "(string, day_stat option) gomap \<Rightarrow> string \<Rightarrow> day_stat option" where [go_eval]:
  "day_view days day = (case gget days day of Some (Some d) \<Rightarrow> Some d | _ \<Rightarrow> None)"

definition agree :: "nat \<Rightarrow> objcat \<Rightarrow> sqldb \<Rightarrow> bool" where
  "agree mx c d \<longleftrightarrow>
     obj_ents c = sql_ents d \<and> (\<forall>h e. sql_ents d h = Some e \<longrightarrow> h \<noteq> [] \<and> en_created e \<noteq> 0)
     \<and> gget (db_counters d) ''hits'' = Some (os_hits (oc_stats c))
     \<and> gget (db_counters d) ''misses'' = Some (os_misses (oc_stats c))
     \<and> gget (db_counters d) ''stores'' = Some (os_stores (oc_stats c))
     \<and> day_view (os_days (oc_stats c)) = gget (db_days d)
     \<and> db_plan d = [] \<and> db_max_vars d = mx \<and> 9 \<le> mx"

lemma sql_exec_runs: "db_plan d = [] \<Longrightarrow> n \<le> db_max_vars d \<Longrightarrow> sql_exec n f d = (None, f d)"
  by (cases d) (simp add: sql_exec_def sql_outcome_def Let_def)

lemma sql_ents_gset: "sql_ents (d\<lparr>db_rows := gset (db_rows d) h r\<rparr>) = (sql_ents d)(h \<mapsto> row_entry h r)"
  by (rule ext) (simp add: sql_ents_def)

lemma sql_ents_update [simp]:
  "sql_ents (d\<lparr>db_counters := c\<rparr>) = sql_ents d" "sql_ents (d\<lparr>db_days := y\<rparr>) = sql_ents d"
  by (simp_all add: sql_ents_def)

text \<open>Counting one event.\<close>

lemma bump_agrees:
  assumes "key \<in> {''hits'', ''misses'', ''stores''}"
    and "gget (db_counters d) ''hits'' = Some (os_hits s)" "gget (db_counters d) ''misses'' = Some (os_misses s)"
      "gget (db_counters d) ''stores'' = Some (os_stores s)" "day_view (os_days s) = gget (db_days d)"
    and "db_plan d = []" "9 \<le> db_max_vars d"
  shows "\<exists>d'. sql_bump key at d = (None, d') \<and> db_rows d' = db_rows d
     \<and> gget (db_counters d') ''hits'' = Some (os_hits (bump_locked key at s))
     \<and> gget (db_counters d') ''misses'' = Some (os_misses (bump_locked key at s))
     \<and> gget (db_counters d') ''stores'' = Some (os_stores (bump_locked key at s))
     \<and> day_view (os_days (bump_locked key at s)) = gget (db_days d')
     \<and> db_plan d' = [] \<and> db_max_vars d' = db_max_vars d"
proof -
  let ?d1 = "bump_counter key d" let ?d2 = "bump_day_row key (format_day at) ?d1"
  have k: "gget (db_counters d) key \<noteq> None" using assms(1-4) by auto
  have "db_plan ?d1 = []" "9 \<le> db_max_vars ?d1" "db_max_vars ?d1 = db_max_vars d" "db_plan ?d2 = []"
    "db_max_vars ?d2 = db_max_vars d" "db_rows ?d2 = db_rows d"
    using assms(6,7) by (auto simp: bump_counter_def bump_day_row_def split: option.splits)
  moreover from this have "sql_bump key at d = (None, ?d2)"
    using assms(1,6,7) by (auto simp: sql_bump_def sql_exec_runs)
  moreover have "gget (db_counters ?d2) ''hits'' = Some (os_hits (bump_locked key at s))"
    "gget (db_counters ?d2) ''misses'' = Some (os_misses (bump_locked key at s))"
    "gget (db_counters ?d2) ''stores'' = Some (os_stores (bump_locked key at s))"
    using assms(1-4) by (auto simp: bump_counter_def bump_day_row_def bump_locked_def bump_total_def Let_def)
  moreover have "day_view (os_days (bump_locked key at s)) = gget (db_days ?d2)"
  proof (rule ext)
    fix day
    have days: "os_days (bump_total key s) = os_days s" by (simp add: bump_total_def)
    have "day_or_new (os_days s) day = (case gget (db_days d) day of None \<Rightarrow> new_day day | Some x \<Rightarrow> x)" for day
      using fun_cong [OF assms(5), of day] by (auto simp: day_view_def day_or_new_def split: option.splits)
    then show "day_view (os_days (bump_locked key at s)) day = gget (db_days ?d2) day"
      using fun_cong [OF assms(5), of day]
      by (simp add: bump_locked_def Let_def days bump_day_row_def bump_counter_keeps day_view_def)
  qed
  ultimately show ?thesis by blast
qed

lemma row_entry_whole: "whole c \<Longrightarrow> whole a \<Longrightarrow>
    row_entry h \<lparr>ro_size = n, ro_created = unix c, ro_accessed = unix a, ro_hits = k, ro_task = t\<rparr> =
    \<lparr>en_hash = h, en_size = n, en_created = c, en_accessed = a, en_hits = k, en_task = t\<rparr>"
  by (simp add: row_entry_def whole_def)

lemma sql_ents_Some: "sql_ents d h = Some e \<longleftrightarrow> (\<exists>r. gget (db_rows d) h = Some r \<and> e = row_entry h r)"
  by (auto simp: sql_ents_def)

lemma sql_ents_None: "sql_ents d h = None \<longleftrightarrow> gget (db_rows d) h = None"
  by (simp add: sql_ents_def)

text \<open>The entry \<open>UpsertEntry\<close> writes, in both catalogs.\<close>

lemma upsert_row_entry:
  assumes "agree mx c d" and "h \<noteq> []" and "whole at" and "at \<noteq> 0"
  shows "row_entry h (case gget (db_rows d) h of
       None \<Rightarrow> \<lparr>ro_size = n, ro_created = unix at, ro_accessed = unix at, ro_hits = 0, ro_task = info\<rparr>
     | Some old \<Rightarrow> old\<lparr>ro_size := n, ro_task := overlay info (ro_task old)\<rparr>)
     = upsert_entry h n at info (entry_at c h)"
proof (cases "gget (db_rows d) h")
  case None
  then have "obj_ents c h = None" using assms(1) by (simp add: agree_def sql_ents_None)
  then show ?thesis using None assms(2-4)
    by (simp add: entry_at_none row_entry_whole upsert_entry_def Let_def is_zero_def overlay_def zero_entry_def empty_task_def)
next
  case (Some r)
  then have e: "obj_ents c h = Some (row_entry h r)" using assms(1) by (simp add: agree_def sql_ents_Some)
  moreover have "en_created (row_entry h r) \<noteq> 0"
    using assms(1) Some by (auto simp: agree_def sql_ents_Some)
  ultimately show ?thesis using Some assms(2)
    by (simp add: entry_at_ents [OF e] upsert_entry_def Let_def is_zero_def row_entry_def)
qed

lemma agree_upsert:
  assumes a: "agree mx c d" and "h \<noteq> []" and "whole at" and "at \<noteq> 0"
  shows "\<exists>d'. sql_upsert h n at info d = (None, d') \<and> agree mx (snd (obj_upsert h n at info c)) d'"
proof -
  let ?new = "\<lparr>ro_size = n, ro_created = unix at, ro_accessed = unix at, ro_hits = 0, ro_task = info\<rparr>"
  let ?d1 = "upsert_row h ?new d"
  have run: "sql_exec 8 (upsert_row h ?new) d = (None, ?d1)"
    using a by (intro sql_exec_runs) (auto simp: agree_def)
  have ents: "sql_ents ?d1 = (obj_ents c)(h \<mapsto> upsert_entry h n at info (entry_at c h))"
    using a upsert_row_entry [OF assms, of n info]
    by (cases "gget (db_rows d) h") (simp_all add: upsert_row_def sql_ents_gset agree_def sql_task_overlay)
  have created: "en_created (upsert_entry h n at info (entry_at c h)) \<noteq> 0"
    using assms(4) by (simp add: upsert_entry_fields)
  obtain d' where d': "sql_bump ''stores'' at ?d1 = (None, d')" "db_rows d' = db_rows ?d1"
     "gget (db_counters d') ''hits'' = Some (os_hits (bump_locked ''stores'' at (oc_stats c)))"
     "gget (db_counters d') ''misses'' = Some (os_misses (bump_locked ''stores'' at (oc_stats c)))"
     "gget (db_counters d') ''stores'' = Some (os_stores (bump_locked ''stores'' at (oc_stats c)))"
     "day_view (os_days (bump_locked ''stores'' at (oc_stats c))) = gget (db_days d')"
     "db_plan d' = []" "db_max_vars d' = db_max_vars ?d1"
    using bump_agrees [of "''stores''" ?d1 "oc_stats c" at] a by (auto simp: agree_def upsert_row_def)
  have "sql_ents d' = sql_ents ?d1" by (rule sql_same_rows [OF d'(2)])
  then have "agree mx (snd (obj_upsert h n at info c)) d'"
    using a d' ents created assms(2) by (auto simp: agree_def obj_upsert_def obj_ents_def upsert_row_def)
  with run d'(1) show ?thesis by (simp add: sql_upsert_def)
qed

lemma agree_hit:
  assumes a: "agree mx c d" and "h \<in> dom (obj_ents c)" and "whole at"
  shows "\<exists>d'. sql_record_hit h at d = (None, d') \<and> agree mx (snd (obj_record_hit h at c)) d'"
proof -
  obtain r where r: "gget (db_rows d) h = Some r" using a assms(2) by (auto simp: agree_def sql_ents_Some dom_def)
  then have e: "obj_ents c h = Some (row_entry h r)" "h \<noteq> []" "en_created (row_entry h r) \<noteq> 0"
    using a by (auto simp: agree_def sql_ents_Some)
  let ?d1 = "hit_row h (unix at) d"
  have run: "sql_exec 2 (hit_row h (unix at)) d = (None, ?d1)"
    using a by (intro sql_exec_runs) (auto simp: agree_def)
  have he: "hit_entry h at (entry_at c h) = row_entry h (r\<lparr>ro_hits := wrap64 (ro_hits r + 1), ro_accessed := unix at\<rparr>)"
    using assms(3) e(2) by (simp add: entry_at_ents [OF e(1)] hit_entry_def Let_def row_entry_def whole_def)
  have ents: "sql_ents ?d1 = (obj_ents c)(h \<mapsto> hit_entry h at (entry_at c h))"
    using a r by (simp add: hit_row_def sql_ents_gset agree_def he)
  obtain d' where d': "sql_bump ''hits'' at ?d1 = (None, d')" "db_rows d' = db_rows ?d1"
     "gget (db_counters d') ''hits'' = Some (os_hits (bump_locked ''hits'' at (oc_stats c)))"
     "gget (db_counters d') ''misses'' = Some (os_misses (bump_locked ''hits'' at (oc_stats c)))"
     "gget (db_counters d') ''stores'' = Some (os_stores (bump_locked ''hits'' at (oc_stats c)))"
     "day_view (os_days (bump_locked ''hits'' at (oc_stats c))) = gget (db_days d')"
     "db_plan d' = []" "db_max_vars d' = db_max_vars ?d1"
    using bump_agrees [of "''hits''" ?d1 "oc_stats c" at] a r by (auto simp: agree_def hit_row_def)
  have "sql_ents d' = sql_ents ?d1" by (rule sql_same_rows [OF d'(2)])
  moreover have "en_created (hit_entry h at (entry_at c h)) \<noteq> 0"
    using e by (simp add: hit_entry_fields entry_at_ents row_entry_def)
  ultimately have "agree mx (snd (obj_record_hit h at c)) d'"
    using a d' ents e(2) r by (auto simp: agree_def obj_record_hit_def obj_ents_def hit_row_def)
  with run d'(1) show ?thesis by (simp add: sql_record_hit_def)
qed

text \<open>Operations on entries alone.\<close>

lemma agree_entries:
  assumes "agree mx c d" and "obj_ents c' = sql_ents d'" and "oc_stats c' = oc_stats c"
    and "\<And>h e. sql_ents d' h = Some e \<Longrightarrow> sql_ents d h = Some e \<or> h \<noteq> [] \<and> en_created e \<noteq> 0"
    and "db_counters d' = db_counters d" "db_days d' = db_days d" "db_plan d' = db_plan d"
      "db_max_vars d' = db_max_vars d"
  shows "agree mx c' d'"
  using assms by (fastforce simp: agree_def)

lemma agree_step:
  assumes a: "agree mx c d" and fits: "op_fits mx op c"
  shows "\<exists>d'. sql_op op d = (None, d') \<and> agree mx (snd (obj_op op c)) d'"
proof (cases op)
  case (Op_Upsert h n at info)
  with agree_upsert [OF a, of h at n info] fits show ?thesis by simp
next
  case (Op_Hit h at)
  with agree_hit [OF a, of h at] fits show ?thesis by simp
next
  case (Op_Miss at)
  obtain d' where d': "sql_bump ''misses'' at d = (None, d')" "db_rows d' = db_rows d"
     "gget (db_counters d') ''hits'' = Some (os_hits (bump_locked ''misses'' at (oc_stats c)))"
     "gget (db_counters d') ''misses'' = Some (os_misses (bump_locked ''misses'' at (oc_stats c)))"
     "gget (db_counters d') ''stores'' = Some (os_stores (bump_locked ''misses'' at (oc_stats c)))"
     "day_view (os_days (bump_locked ''misses'' at (oc_stats c))) = gget (db_days d')"
     "db_plan d' = []" "db_max_vars d' = db_max_vars d"
    using bump_agrees [of "''misses''" d "oc_stats c" at] a by (auto simp: agree_def)
  have "sql_ents d' = sql_ents d" by (rule sql_same_rows [OF d'(2)])
  then have "agree mx (snd (obj_record_miss at c)) d'"
    using a d' by (auto simp: agree_def obj_record_miss_def obj_ents_def)
  with Op_Miss d'(1) show ?thesis by (simp add: sql_record_miss_def)
next
  case (Op_Delete hs)
  show ?thesis
  proof (cases "hs = []")
    case True
    with a Op_Delete show ?thesis by (simp add: sql_delete_def obj_delete_def)
  next
    case False
    let ?d1 = "d\<lparr>db_rows := gdels (db_rows d) hs\<rparr>"
    have "sql_delete hs d = (None, ?d1)"
      using a fits False Op_Delete by (simp add: sql_delete_def sql_exec_runs agree_def)
    moreover have "agree mx (snd (obj_delete hs c)) ?d1"
    proof (rule agree_entries [OF a])
      have "sql_ents ?d1 = sql_ents d |` (- set hs)"
        by (rule ext) (simp add: sql_ents_def gomap_simps restrict_map_def)
      moreover have "obj_ents (snd (obj_delete hs c)) = obj_ents c |` (- set hs)"
        using False by (simp add: obj_delete_def obj_ents_def gget_gdels_fun)
      ultimately show "obj_ents (snd (obj_delete hs c)) = sql_ents ?d1" using a by (simp add: agree_def)
    qed (auto simp: obj_delete_def sql_ents_Some gomap_simps split: if_splits)
    ultimately show ?thesis using Op_Delete by simp
  qed
next
  case (Op_Ensure h n at)
  let ?new = "\<lparr>ro_size = n, ro_created = unix at, ro_accessed = unix at, ro_hits = 0, ro_task = empty_task\<rparr>"
  let ?d1 = "d\<lparr>db_rows := insert_ignore h ?new (db_rows d)\<rparr>"
  have run: "sql_ensure h n at d = (None, ?d1)"
    using a by (simp add: sql_ensure_def sql_exec_runs agree_def)
  have "agree mx (snd (obj_ensure h n at c)) ?d1"
  proof (cases "gget (db_rows d) h")
    case None
    then have "obj_ents c h = None" using a by (simp add: agree_def sql_ents_None)
    with None a fits Op_Ensure show ?thesis
      by (intro agree_entries [OF a])
         (auto simp: obj_ensure_def obj_ents_def insert_ignore_def ghas_def sql_ents_gset agree_def row_entry_whole zero_entry_def
           split: if_splits)
  next
    case (Some r)
    then have "obj_ents c h = Some (row_entry h r)" using a by (simp add: agree_def sql_ents_Some)
    with Some a fits Op_Ensure show ?thesis
      by (intro agree_entries [OF a])
         (auto simp: obj_ensure_def obj_ents_def insert_ignore_def ghas_def agree_def sql_ents_def)
  qed
  with run Op_Ensure show ?thesis by simp
next
  case (Op_Update h info)
  let ?f = "\<lambda>db. case gget (db_rows db) h of
        None \<Rightarrow> db
      | Some r \<Rightarrow> db\<lparr>db_rows := gset (db_rows db) h (r\<lparr>ro_task := sql_task info (ro_task r)\<rparr>)\<rparr>"
  have run: "sql_update_task h info d = (None, ?f d)"
    unfolding sql_update_task_def using a by (intro sql_exec_runs) (auto simp: agree_def)
  have "agree mx (snd (obj_update_task h info c)) (?f d)"
  proof (cases "gget (db_rows d) h")
    case None
    then have "obj_ents c h = None" using a by (simp add: agree_def sql_ents_None)
    with None a show ?thesis by (simp add: obj_update_task_def obj_ents_def)
  next
    case (Some r)
    then have e: "obj_ents c h = Some (row_entry h r)" using a by (simp add: agree_def sql_ents_Some)
    have "h \<noteq> []" "en_created (row_entry h r) \<noteq> 0" using a Some by (auto simp: agree_def sql_ents_Some)
    moreover have "row_entry h (r\<lparr>ro_task := sql_task info (ro_task r)\<rparr>) =
        (row_entry h r)\<lparr>en_task := overlay info (en_task (row_entry h r))\<rparr>"
      by (simp add: row_entry_def sql_task_overlay)
    moreover have "en_created (row_entry h (r\<lparr>ro_task := t\<rparr>)) = en_created (row_entry h r)" for t
      by (simp add: row_entry_def)
    ultimately show ?thesis using Some e a
      by (intro agree_entries [OF a]) (auto simp: obj_update_task_def obj_ents_def sql_ents_gset agree_def split: if_splits)
  qed
  with run Op_Update show ?thesis by simp
next
  case (Op_Seed e)
  let ?row = "\<lparr>ro_size = en_size e, ro_created = unix (en_created e), ro_accessed = unix (en_accessed e),
         ro_hits = en_hits e, ro_task = en_task e\<rparr>"
  let ?d1 = "d\<lparr>db_rows := gset (db_rows d) (en_hash e) ?row\<rparr>"
  have run: "sql_seed e d = (None, ?d1)"
    using a by (simp add: sql_seed_def sql_exec_runs agree_def)
  have row: "row_entry (en_hash e) ?row = e" using fits Op_Seed by (cases e) (simp add: row_entry_whole)
  have "agree mx (snd (obj_seed e c)) ?d1"
    using a fits Op_Seed
    by (intro agree_entries [OF a]) (auto simp: obj_seed_def obj_ents_def sql_ents_gset agree_def row split: if_splits)
  with run Op_Seed show ?thesis by simp
qed

text \<open>Runs of operations; each must fit the state it meets.\<close>

primrec run_fits :: "nat \<Rightarrow> cat_op list \<Rightarrow> objcat \<Rightarrow> bool" where
  "run_fits mx [] c \<longleftrightarrow> True"
| "run_fits mx (op # ops) c \<longleftrightarrow> op_fits mx op c \<and> run_fits mx ops (snd (obj_op op c))"

definition obj_run :: "cat_op list \<Rightarrow> objcat \<Rightarrow> objcat" where [go_eval]:
  "obj_run ops c = foldl (\<lambda>c op. snd (obj_op op c)) c ops"

definition sql_run :: "cat_op list \<Rightarrow> sqldb \<Rightarrow> sqldb" where [go_eval]:
  "sql_run ops d = foldl (\<lambda>d op. snd (sql_op op d)) d ops"

lemma agree_run: "agree mx c d \<Longrightarrow> run_fits mx ops c \<Longrightarrow> agree mx (obj_run ops c) (sql_run ops d)"
proof (induction ops arbitrary: c d)
  case (Cons op ops)
  from agree_step [OF Cons.prems(1)] Cons.prems(2) obtain d'
    where "sql_op op d = (None, d')" "agree mx (snd (obj_op op c)) d'" by auto
  with Cons.IH [of "snd (obj_op op c)" d'] Cons.prems(2) show ?case by (simp add: obj_run_def sql_run_def)
qed (simp add: obj_run_def sql_run_def)

text \<open>The empty catalog and the freshly created tables.\<close>

lemma sql_migrate_empty:
  "sql_migrate u (empty_db mx) = (None, (create_tables (empty_db mx))
     \<lparr>db_columns := [''project'', ''target'', ''config'', ''kind'']\<rparr>)"
  by (simp add: sql_migrate_def sql_exec_runs empty_db_def add_column_def create_tables_def sql_outcome_def)

lemma agree_empty: "9 \<le> mx \<Longrightarrow> sql_migrate u (empty_db mx) = (None, d) \<Longrightarrow> agree mx new_object d"
  unfolding sql_migrate_empty
  by (auto simp: agree_def new_object_def obj_ents_def sql_ents_def empty_db_def
      create_tables_def insert_ignore_def day_view_def ghas_def fun_eq_iff)



end
