(* ===== verification/S3_Backend.thy ===== *)
theory S3_Backend
  imports Storage
begin

text \<open>
  \<open>internal/storage/s3.go\<close>: the backend on an S3 bucket. The client of the AWS SDK is a record
  of operations, a parameter of the model; what the service documents about them is stated as
  hypotheses where a theorem needs it. Modelled are the keys, the classification of errors, the
  conditional upload, deletion in batches and listing page by page.
\<close>

section \<open>The client\<close>

datatype s3_kind = NotFound | NoSuchKey | NoSuchBucket | BucketAlreadyOwnedByYou | BucketAlreadyExists

text \<open>What \<open>errors.As\<close> can find in an error: a typed error, an API code, an HTTP status.\<close>

record s3_error =
  er_kind :: "s3_kind option"
  er_code :: "string option"
  er_status :: "int option"
  er_text :: string

record s3_object =
  so_key :: "string option"
  so_size :: "int option"
  so_modified :: "time option"

record s3_page =
  sp_contents :: "s3_object list"
  sp_truncated :: "bool option"
  sp_next :: "string option"

record put_input =
  pi_key :: string
  pi_body :: reader
  pi_length :: int
  pi_type :: string
  pi_if_none_match :: "string option"

text \<open>
  Every operation is on the bucket of the backend. \<open>s3_put_object\<close> also gives the bytes it took from
  the body, \<open>s3_get_object\<close> the body, how reading it ends, and its declared length.
\<close>

record 'w s3_client =
  s3_head_object :: "string \<Rightarrow> 'w \<Rightarrow> s3_error option \<times> 'w"
  s3_put_object :: "put_input \<Rightarrow> 'w \<Rightarrow> s3_error option \<times> string \<times> 'w"
  s3_get_object :: "string \<Rightarrow> 'w \<Rightarrow> (s3_error + reader \<times> int option) \<times> 'w"
  s3_delete_objects :: "string list \<Rightarrow> 'w \<Rightarrow> s3_error option \<times> 'w"
  s3_list_objects :: "string \<Rightarrow> string option \<Rightarrow> 'w \<Rightarrow> (s3_error + s3_page) \<times> 'w"
  s3_head_bucket :: "'w \<Rightarrow> s3_error option \<times> 'w"
  s3_create_bucket :: "'w \<Rightarrow> s3_error option \<times> 'w"

definition is_not_found :: "s3_error \<Rightarrow> bool" where [go_eval]:
  "is_not_found e \<longleftrightarrow>
     er_kind e \<in> {Some NotFound, Some NoSuchKey, Some NoSuchBucket}
     \<or> er_code e \<in> {Some ''NotFound'', Some ''NoSuchKey'', Some ''NoSuchBucket''}
     \<or> er_status e = Some 404"

definition is_precondition_failed :: "s3_error \<Rightarrow> bool" where [go_eval]:
  "is_precondition_failed e \<longleftrightarrow>
     er_code e \<in> {Some ''PreconditionFailed'', Some ''412''} \<or> er_status e = Some 412"

definition s3_err :: "s3_error \<Rightarrow> goerr" where [go_eval]:
  "s3_err e = OtherErr (er_text e)"

section \<open>Configuration\<close>

record s3_config =
  sc_region :: string
  sc_key_id :: string
  sc_secret :: string
  sc_bucket :: string
  sc_endpoint :: string
  sc_prefix :: string
  sc_force_path :: bool

text \<open>What \<open>NewS3\<close> asks of the SDK, and the backend it makes of the loaded client.\<close>

record sdk_options =
  sd_region :: "string option"
  sd_credentials :: "(string \<times> string) option"
  sd_endpoint :: "string option"
  sd_checksums_when_required :: bool
  sd_path_style :: bool
  sd_unsigned_payload :: bool

definition sdk_options_of :: "s3_config \<Rightarrow> sdk_options" where [go_eval]:
  "sdk_options_of c =
     \<lparr>sd_region = (if sc_region c \<noteq> [] then Some (sc_region c) else None),
      sd_credentials = (if sc_key_id c \<noteq> [] then Some (sc_key_id c, sc_secret c) else None),
      sd_endpoint = (if sc_endpoint c \<noteq> [] then Some (sc_endpoint c) else None),
      sd_checksums_when_required = (sc_endpoint c \<noteq> []),
      sd_path_style = sc_force_path c,
      sd_unsigned_payload = True\<rparr>"

record s3_backend_cfg =
  sb_bucket :: string
  sb_prefix :: string

definition new_s3 :: "(sdk_options \<Rightarrow> s3_error option) \<Rightarrow> s3_config \<Rightarrow> goerr + s3_backend_cfg" where [go_eval]:
  "new_s3 load_config c =
     (case load_config (sdk_options_of c) of
        Some e \<Rightarrow> Inl (OtherErr (''load aws config: '' @ er_text e))
      | None \<Rightarrow>
          Inr \<lparr>sb_bucket = sc_bucket c,
               sb_prefix = (if sc_prefix c \<noteq> [] \<and> \<not> has_suffix (sc_prefix c) ''/''
                            then sc_prefix c @ ''/'' else sc_prefix c)\<rparr>)"

definition s3_key :: "s3_backend_cfg \<Rightarrow> string \<Rightarrow> string" where [go_eval]:
  "s3_key s h = sb_prefix s @ h"

definition meta_key :: "s3_backend_cfg \<Rightarrow> string \<Rightarrow> string" where [go_eval]:
  "meta_key s k = sb_prefix s @ ''.meta/'' @ trim_prefix k ''/''"

section \<open>Operations\<close>

definition s3_exists :: "'w s3_client \<Rightarrow> s3_backend_cfg \<Rightarrow> string \<Rightarrow> 'w \<Rightarrow> (goerr + bool) \<times> 'w" where [go_eval]:
  "s3_exists cl s h w =
     (case s3_head_object cl (s3_key s h) w of
        (Some e, w') \<Rightarrow> (if is_not_found e then Inr False else Inl (s3_err e), w')
      | (None, w') \<Rightarrow> (Inr True, w'))"

text \<open>One request per batch of at most 1000 keys; the first failure ends the loop.\<close>

definition delete_batch :: nat where [go_eval]: "delete_batch = 1000"

function batches :: "'a list \<Rightarrow> 'a list list" where
  "batches xs = (if xs = [] then [] else take delete_batch xs # batches (drop delete_batch xs))"
  by pat_completeness auto

termination
  by (relation "measure length") (auto simp: delete_batch_def)

declare batches.simps [simp del]

fun delete_keys :: "'w s3_client \<Rightarrow> string list list \<Rightarrow> 'w \<Rightarrow> goerr option \<times> 'w" where
  "delete_keys cl [] w = (None, w)"
| "delete_keys cl (b # bs) w =
     (case s3_delete_objects cl b w of
        (Some e, w') \<Rightarrow> (Some (s3_err e), w') | (None, w') \<Rightarrow> delete_keys cl bs w')"

definition s3_delete :: "'w s3_client \<Rightarrow> s3_backend_cfg \<Rightarrow> string list \<Rightarrow> 'w \<Rightarrow> goerr option \<times> 'w" where [go_eval]:
  "s3_delete cl s hs w = delete_keys cl (map (map (s3_key s)) (batches hs)) w"

definition s3_delete_meta :: "'w s3_client \<Rightarrow> s3_backend_cfg \<Rightarrow> string list \<Rightarrow> 'w \<Rightarrow> goerr option \<times> 'w" where [go_eval]:
  "s3_delete_meta cl s ks w = delete_keys cl (map (map (meta_key s)) (batches ks)) w"

definition limited_reader :: "int \<Rightarrow> reader \<Rightarrow> reader" where [go_eval]:
  "limited_reader n r =
     \<lparr>rd_data = limited n (rd_data r),
      rd_err = (if n \<le> int (length (rd_data r)) then None else rd_err r)\<rparr>"

definition s3_put ::
  "'w s3_client \<Rightarrow> s3_backend_cfg \<Rightarrow> string \<Rightarrow> reader \<Rightarrow> int \<Rightarrow> time \<Rightarrow> 'w \<Rightarrow> goerr option \<times> string \<times> 'w" where [go_eval]:
  "s3_put cl s h r sz now w =
     (case s3_put_object cl \<lparr>pi_key = s3_key s h, pi_body = limited_reader sz r, pi_length = sz,
                        pi_type = ''application/octet-stream'', pi_if_none_match = Some ''*''\<rparr> w of
        (Some e, c, w') \<Rightarrow> (Some (if is_precondition_failed e then ErrExists else s3_err e), c, w')
      | (None, c, w') \<Rightarrow>
          if int (length c) \<noteq> sz
          then (case s3_delete cl s [h] w' of (_, w'') \<Rightarrow> (Some ErrIncomplete, c, w''))
          else (None, c, w'))"

definition s3_get :: "'w s3_client \<Rightarrow> s3_backend_cfg \<Rightarrow> string \<Rightarrow> 'w \<Rightarrow> (goerr + string \<times> int) \<times> 'w" where [go_eval]:
  "s3_get cl s h w =
     (case s3_get_object cl (s3_key s h) w of
        (Inl e, w') \<Rightarrow> (Inl (if is_not_found e then ErrNotFound else s3_err e), w')
      | (Inr (body, len), w') \<Rightarrow> (Inr (rd_data body, case len of None \<Rightarrow> 0 | Some n \<Rightarrow> n), w'))"

text \<open>The objects of one page that are artifacts.\<close>

definition page_item :: "s3_backend_cfg \<Rightarrow> s3_object \<Rightarrow> object option" where [go_eval]:
  "page_item s ob =
     (case so_key ob of
        None \<Rightarrow> None
      | Some k \<Rightarrow>
          let h = trim_prefix k (sb_prefix s) in
          if h = [] \<or> contains h ''/'' then None
          else Some \<lparr>ob_hash = h, ob_size = (case so_size ob of None \<Rightarrow> 0 | Some n \<Rightarrow> n),
                     ob_last_modified = (case so_modified ob of None \<Rightarrow> 0 | Some t \<Rightarrow> t)\<rparr>)"

partial_function (option) s3_list_from ::
  "'w s3_client \<Rightarrow> s3_backend_cfg \<Rightarrow> string option \<Rightarrow> object list \<Rightarrow> 'w \<Rightarrow> ((goerr + object list) \<times> 'w) option" where
  "s3_list_from cl s token out w =
     (case s3_list_objects cl (sb_prefix s) token w of
        (Inl e, w') \<Rightarrow> Some (Inl (s3_err e), w')
      | (Inr p, w') \<Rightarrow>
          let out' = out @ List.map_filter (page_item s) (sp_contents p) in
          if sp_truncated p = Some True \<and> sp_next p \<noteq> None then s3_list_from cl s (sp_next p) out' w'
          else Some (Inr out', w'))"

definition s3_list :: "'w s3_client \<Rightarrow> s3_backend_cfg \<Rightarrow> 'w \<Rightarrow> ((goerr + object list) \<times> 'w) option" where [go_eval]:
  "s3_list cl s w = s3_list_from cl s None [] w"

definition s3_ensure_bucket :: "'w s3_client \<Rightarrow> 'w \<Rightarrow> goerr option \<times> 'w" where [go_eval]:
  "s3_ensure_bucket cl w =
     (case s3_head_bucket cl w of
        (None, w1) \<Rightarrow> (None, w1)
      | (Some e, w1) \<Rightarrow>
          if \<not> is_not_found e then (Some (s3_err e), w1)
          else (case s3_create_bucket cl w1 of
            (None, w2) \<Rightarrow> (None, w2)
          | (Some e2, w2) \<Rightarrow>
              if er_kind e2 \<in> {Some BucketAlreadyOwnedByYou, Some BucketAlreadyExists} then (None, w2)
              else (Some (s3_err e2), w2)))"

definition s3_put_meta :: "'w s3_client \<Rightarrow> s3_backend_cfg \<Rightarrow> string \<Rightarrow> string \<Rightarrow> 'w \<Rightarrow> goerr option \<times> 'w" where [go_eval]:
  "s3_put_meta cl s k d w =
     (case s3_put_object cl \<lparr>pi_key = meta_key s k, pi_body = \<lparr>rd_data = d, rd_err = None\<rparr>,
                        pi_length = int (length d), pi_type = ''application/json'', pi_if_none_match = None\<rparr> w of
        (err, c, w') \<Rightarrow> (map_option s3_err err, w'))"

definition s3_get_meta :: "'w s3_client \<Rightarrow> s3_backend_cfg \<Rightarrow> string \<Rightarrow> 'w \<Rightarrow> (goerr + string) \<times> 'w" where [go_eval]:
  "s3_get_meta cl s k w =
     (case s3_get_object cl (meta_key s k) w of
        (Inl e, w') \<Rightarrow> (Inl (if is_not_found e then ErrNotFound else s3_err e), w')
      | (Inr (body, len), w') \<Rightarrow>
          (case rd_err body of None \<Rightarrow> (Inr (rd_data body), w') | Some e \<Rightarrow> (Inl e, w')))"

section \<open>Batches\<close>

lemma batches_spec: "concat (batches xs) = xs \<and> (\<forall>b \<in> set (batches xs). b \<noteq> [] \<and> length b \<le> delete_batch)"
proof (induction xs rule: batches.induct)
  case (1 xs)
  show ?case
  proof (cases "xs = []")
    case True
    then show ?thesis by (simp add: batches.simps)
  next
    case False
    then have "batches xs = take delete_batch xs # batches (drop delete_batch xs)"
      by (subst batches.simps) simp
    moreover have "take delete_batch xs \<noteq> []" using False by (simp add: delete_batch_def)
    ultimately show ?thesis using 1 [OF False] by simp
  qed
qed

lemma batches_short: "xs \<noteq> [] \<Longrightarrow> length xs \<le> delete_batch \<Longrightarrow> batches xs = [xs]"
  by (subst batches.simps, subst batches.simps) simp

text \<open>
  What the service documents of \<open>DeleteObjects\<close>, when no key of the request fails on its own:
  at most 1000 keys per request; a successful one removes exactly those keys, a failed one removes
  some of them. \<open>files\<close> reads the content of the bucket off the state.
\<close>

definition deletes_named :: "('w \<Rightarrow> (string \<rightharpoonup> string)) \<Rightarrow> 'w s3_client \<Rightarrow> bool" where
  "deletes_named files cl \<longleftrightarrow>
     (\<forall>ks w. ks \<noteq> [] \<and> length ks \<le> 1000 \<longrightarrow>
        (case s3_delete_objects cl ks w of
           (None, w') \<Rightarrow> files w' = files w |` (- set ks)
         | (Some e, w') \<Rightarrow> \<exists>gone \<subseteq> set ks. files w' = files w |` (- gone)))"

lemma deletes_namedD:
  assumes "deletes_named files cl" "ks \<noteq> []" "length ks \<le> 1000" "s3_delete_objects cl ks w = (e, w')"
  shows "\<exists>gone \<subseteq> set ks. files w' = files w |` (- gone) \<and> (e = None \<longrightarrow> gone = set ks)"
proof -
  have "case s3_delete_objects cl ks w of
           (None, w') \<Rightarrow> files w' = files w |` (- set ks)
         | (Some e, w') \<Rightarrow> \<exists>gone \<subseteq> set ks. files w' = files w |` (- gone)"
    using assms(1) [unfolded deletes_named_def, THEN spec, of ks, THEN spec, of w] assms(2,3)
    by (elim mp) simp
  then have c: "case e of None \<Rightarrow> files w' = files w |` (- set ks)
      | Some x \<Rightarrow> \<exists>gone \<subseteq> set ks. files w' = files w |` (- gone)"
    by (simp add: assms(4))
  show ?thesis
  proof (cases e)
    case None
    with c show ?thesis by (intro exI [of _ "set ks"]) simp
  next
    case (Some x)
    with c show ?thesis by simp
  qed
qed

lemma delete_keys_spec:
  assumes "deletes_named files cl" and "\<forall>b \<in> set bs. b \<noteq> [] \<and> length b \<le> 1000"
    and "delete_keys cl bs w = (e, w')"
  shows "\<exists>gone \<subseteq> set (concat bs). files w' = files w |` (- gone) \<and> (e = None \<longrightarrow> gone = set (concat bs))"
  using assms(2,3)
proof (induction bs arbitrary: w)
  case Nil
  then show ?case by (auto simp: restrict_map_def fun_eq_iff)
next
  case (Cons b bs)
  obtain e1 w1 where d: "s3_delete_objects cl b w = (e1, w1)" by fastforce
  from Cons.prems deletes_namedD [OF assms(1) _ _ d] obtain g1 where
    g1: "g1 \<subseteq> set b" "files w1 = files w |` (- g1)" "e1 = None \<longrightarrow> g1 = set b" by auto
  show ?case
  proof (cases e1)
    case (Some x)
    with Cons.prems d have "w' = w1" "e \<noteq> None" by auto
    with g1 show ?thesis by (intro exI [of _ g1]) auto
  next
    case None
    with Cons.prems d have "delete_keys cl bs w1 = (e, w')" by simp
    with Cons.IH [of w1] Cons.prems obtain g2 where
      g2: "g2 \<subseteq> set (concat bs)" "files w' = files w1 |` (- g2)" "e = None \<longrightarrow> g2 = set (concat bs)" by auto
    have "files w' = files w |` (- (g1 \<union> g2))"
      using g1 g2 by (simp add: restrict_restrict Int_commute)
    with g1 g2 None show ?thesis by (intro exI [of _ "g1 \<union> g2"]) auto
  qed
qed

lemma s3_delete_spec:
  assumes "deletes_named files cl" and "s3_delete cl s hs w = (e, w')"
  shows "\<exists>gone \<subseteq> set hs. files w' = files w |` (- s3_key s ` gone) \<and> (e = None \<longrightarrow> gone = set hs)"
proof -
  have c: "concat (map (map (s3_key s)) (batches hs)) = map (s3_key s) hs"
    using batches_spec [of hs] by (metis map_concat)
  have b: "\<forall>b \<in> set (map (map (s3_key s)) (batches hs)). b \<noteq> [] \<and> length b \<le> 1000"
    using batches_spec [of hs] by (auto simp: delete_batch_def)
  from delete_keys_spec [OF assms(1) b assms(2) [unfolded s3_delete_def]] c obtain gone where
    g: "gone \<subseteq> s3_key s ` set hs" "files w' = files w |` (- gone)"
       "e = None \<longrightarrow> gone = s3_key s ` set hs" by auto
  from g(1) obtain sub where "sub \<subseteq> set hs" "gone = s3_key s ` sub" by (auto simp: subset_image_iff)
  moreover have "inj (s3_key s)" by (simp add: inj_def s3_key_def)
  ultimately show ?thesis using g by (intro exI [of _ sub]) (auto simp: inj_image_eq_iff)
qed

lemma meta_key_not_artifact:
  assumes "\<not> contains h ''/''"
  shows "meta_key s k \<noteq> s3_key s h"
proof
  assume "meta_key s k = s3_key s h"
  then have "h = ''.meta/'' @ trim_prefix k ''/''" by (simp add: meta_key_def s3_key_def)
  with assms show False by (simp add: has_prefix_def)
qed

section \<open>Uploading\<close>

text \<open>
  What the service documents of \<open>PutObject\<close> with \<open>If-None-Match: *\<close>: it stores what it took from
  the body only under a key that is absent; a failed request stores nothing, and it fails the
  precondition only when the key is present.
\<close>

definition puts_if_absent :: "('w \<Rightarrow> (string \<rightharpoonup> string)) \<Rightarrow> 'w s3_client \<Rightarrow> bool" where
  "puts_if_absent files cl \<longleftrightarrow>
     (\<forall>pi w. pi_if_none_match pi = Some ''*'' \<longrightarrow>
        (case s3_put_object cl pi w of
           (None, c, w') \<Rightarrow> files w (pi_key pi) = None \<and> c = rd_data (pi_body pi)
                            \<and> files w' = (files w)(pi_key pi \<mapsto> c)
         | (Some e, c, w') \<Rightarrow> files w' = files w
                              \<and> (is_precondition_failed e \<longrightarrow> files w (pi_key pi) \<noteq> None)))"

lemma puts_if_absentD:
  assumes "puts_if_absent files cl" "pi_if_none_match pi = Some ''*''" "s3_put_object cl pi w = (e, c, w')"
  shows "case e of None \<Rightarrow> files w (pi_key pi) = None \<and> c = rd_data (pi_body pi)
                           \<and> files w' = (files w)(pi_key pi \<mapsto> c)
         | Some x \<Rightarrow> files w' = files w \<and> (is_precondition_failed x \<longrightarrow> files w (pi_key pi) \<noteq> None)"
  using assms(1) [unfolded puts_if_absent_def, THEN spec, of pi, THEN spec, of w, THEN mp, OF assms(2)] assms(3)
  by (cases e) simp_all

lemma restrict_fresh: "m k = None \<Longrightarrow> (m(k \<mapsto> c)) |` (- {k}) = m"
  by (auto simp: fun_eq_iff restrict_map_def)

lemma restrict_absent: "m k = None \<Longrightarrow> m |` (- {k}) = m"
  by (auto simp: fun_eq_iff restrict_map_def)


text \<open>A client that keeps the bucket in a finite map behaves as documented.\<close>

definition ideal_client :: "(string \<rightharpoonup> string) s3_client" where [go_eval]:
  "ideal_client =
     \<lparr>s3_head_object = (\<lambda>k w.
        (if w k = None
         then Some \<lparr>er_kind = Some NotFound, er_code = Some ''NotFound'', er_status = Some 404, er_text = ''Not Found''\<rparr>
         else None, w)),
      s3_put_object = (\<lambda>pi w.
        if w (pi_key pi) \<noteq> None \<and> pi_if_none_match pi = Some ''*''
        then (Some \<lparr>er_kind = None, er_code = Some ''PreconditionFailed'', er_status = Some 412,
                    er_text = ''At least one of the pre-conditions you specified did not hold''\<rparr>, [], w)
        else (None, rd_data (pi_body pi), w(pi_key pi \<mapsto> rd_data (pi_body pi)))),
      s3_get_object = (\<lambda>k w.
        case w k of
          None \<Rightarrow> (Inl \<lparr>er_kind = Some NoSuchKey, er_code = Some ''NoSuchKey'', er_status = Some 404,
                        er_text = ''The specified key does not exist.''\<rparr>, w)
        | Some d \<Rightarrow> (Inr (\<lparr>rd_data = d, rd_err = None\<rparr>, Some (int (length d))), w)),
      s3_delete_objects = (\<lambda>ks w. (None, w |` (- set ks))),
      s3_list_objects = (\<lambda>p tok w. (Inr \<lparr>sp_contents = [], sp_truncated = None, sp_next = None\<rparr>, w)),
      s3_head_bucket = (\<lambda>w. (None, w)),
      s3_create_bucket = (\<lambda>w. (None, w))\<rparr>"

lemma ideal_client_documented: "puts_if_absent (\<lambda>w. w) ideal_client" "deletes_named (\<lambda>w. w) ideal_client"
  by (auto simp: puts_if_absent_def deletes_named_def ideal_client_def is_precondition_failed_def)

definition example_bucket :: s3_backend_cfg where [go_eval]:
  "example_bucket = \<lparr>sb_bucket = ''nx-cache'', sb_prefix = ''p/''\<rparr>"

definition example_body :: reader where [go_eval]:
  "example_body = \<lparr>rd_data = ''xyzw'', rd_err = None\<rparr>"


section \<open>Listing\<close>

text \<open>
  The pages the service serves from a token on. Every page that says it is truncated and names a
  next token is followed by the page of that token.
\<close>

inductive page_chain :: "'w s3_client \<Rightarrow> string \<Rightarrow> string option \<Rightarrow> 'w \<Rightarrow> s3_page list \<Rightarrow> 'w \<Rightarrow> bool"
  for cl p where
  last_page: "s3_list_objects cl p tok w = (Inr pg, w') \<Longrightarrow>
      \<not> (sp_truncated pg = Some True \<and> sp_next pg \<noteq> None) \<Longrightarrow> page_chain cl p tok w [pg] w'"
| next_page: "s3_list_objects cl p tok w = (Inr pg, w1) \<Longrightarrow> sp_truncated pg = Some True \<Longrightarrow>
      sp_next pg = Some t \<Longrightarrow> page_chain cl p (Some t) w1 pgs w' \<Longrightarrow> page_chain cl p tok w (pg # pgs) w'"

lemma s3_list_from_chain:
  assumes "page_chain cl (sb_prefix s) tok w pgs w'"
  shows "s3_list_from cl s tok out w
         = Some (Inr (out @ List.map_filter (page_item s) (concat (map sp_contents pgs))), w')"
  using assms
proof (induction arbitrary: out rule: page_chain.induct)
  case (last_page tok w pg w')
  then show ?case by (subst s3_list_from.simps) (auto simp: Let_def)
next
  case (next_page tok w pg w1 t pgs w')
  then show ?case
    by (subst s3_list_from.simps) (simp add: Let_def List.map_filter_def)
qed

lemma page_item_artifact:
  assumes "so_key ob = Some (s3_key s h)" "h \<noteq> []" "\<not> contains h ''/''"
  shows "map_option ob_hash (page_item s ob) = Some h"
  using assms by (simp add: page_item_def s3_key_def)

lemma contains_meta: "contains (''.meta/'' @ k) ''/''"
  by (simp add: has_prefix_def)

lemma page_item_meta:
  assumes "so_key ob = Some (meta_key s k)"
  shows "page_item s ob = None"
  using assms contains_meta [of "trim_prefix k ''/''"]
  by (simp add: page_item_def meta_key_def del: contains.simps)

text \<open>What a page of the listing holds: the keys of artifacts and of metadata.\<close>

definition lists_keys :: "s3_backend_cfg \<Rightarrow> string set \<Rightarrow> string set \<Rightarrow> s3_object list \<Rightarrow> bool" where
  "lists_keys s H M obs \<longleftrightarrow> (\<forall>h \<in> H. h \<noteq> [] \<and> \<not> contains h ''/'')
     \<and> so_key ` set obs = Some ` (s3_key s ` H \<union> meta_key s ` M)"

lemma listed_item:
  assumes "lists_keys s H M obs" and "ob \<in> set obs" and "page_item s ob = Some x"
  shows "ob_hash x \<in> H \<and> so_key ob = Some (s3_key s (ob_hash x))"
proof -
  from assms(1) have "so_key ` set obs = Some ` (s3_key s ` H \<union> meta_key s ` M)" by (simp add: lists_keys_def)
  with assms(2) have "so_key ob \<in> Some ` (s3_key s ` H \<union> meta_key s ` M)" by blast
  then consider (art) h where "h \<in> H" "so_key ob = Some (s3_key s h)"
    | (meta) k where "so_key ob = Some (meta_key s k)" by blast
  then show ?thesis
  proof cases
    case art
    with assms(1) have "h \<noteq> [] \<and> \<not> contains h ''/''" by (simp add: lists_keys_def)
    with page_item_artifact [OF art(2)] have "map_option ob_hash (page_item s ob) = Some h" by blast
    with assms(3) art show ?thesis by simp
  next
    case meta
    with assms(3) show ?thesis by (simp add: page_item_meta)
  qed
qed

lemma listed_hashes:
  assumes "lists_keys s H M obs"
  shows "set (map ob_hash (List.map_filter (page_item s) obs)) = H"
proof
  show "set (map ob_hash (List.map_filter (page_item s) obs)) \<subseteq> H"
    using listed_item [OF assms] by (auto simp: List.map_filter_def)
  show "H \<subseteq> set (map ob_hash (List.map_filter (page_item s) obs))"
  proof
    fix h assume h: "h \<in> H"
    with assms have "Some (s3_key s h) \<in> so_key ` set obs" by (simp add: lists_keys_def)
    then obtain ob where ob: "ob \<in> set obs" "so_key ob = Some (s3_key s h)" by (metis imageE)
    from assms h have "h \<noteq> [] \<and> \<not> contains h ''/''" by (simp add: lists_keys_def)
    with page_item_artifact [OF ob(2)] obtain x where "page_item s ob = Some x" "ob_hash x = h" by auto
    with ob(1) show "h \<in> set (map ob_hash (List.map_filter (page_item s) obs))"
      by (force simp: List.map_filter_def)
  qed
qed

lemma distinct_map_filter_key:
  "(\<And>ob x. ob \<in> set obs \<Longrightarrow> f ob = Some x \<Longrightarrow> key ob = Some (g (name x))) \<Longrightarrow> distinct (map key obs)
     \<Longrightarrow> distinct (map name (List.map_filter f obs))"
proof (induction obs)
  case (Cons ob obs)
  have ih: "distinct (map name (List.map_filter f obs))" using Cons by simp
  show ?case
  proof (cases "f ob")
    case None
    with ih show ?thesis by (simp add: List.map_filter_simps)
  next
    case (Some x)
    have "name y \<noteq> name x" if "y \<in> set (List.map_filter f obs)" for y
    proof
      from that obtain o2 where o2: "o2 \<in> set obs" "f o2 = Some y" by (auto simp: List.map_filter_def)
      assume "name y = name x"
      with Cons.prems(1) [of ob x] Cons.prems(1) [of o2 y] o2 Some have "key o2 = key ob" by simp
      with o2(1) Cons.prems(2) show False by (metis distinct.simps(2) image_eqI list.map(2) list.set_map)
    qed
    with ih Some show ?thesis by (simp add: List.map_filter_simps) (metis imageE)
  qed
qed (simp add: List.map_filter_simps)


definition example_pages :: "nat s3_client" where [go_eval]:
  "example_pages =
     \<lparr>s3_head_object = (\<lambda>k w. (None, w)),
      s3_put_object = (\<lambda>pi w. (None, [], w)),
      s3_get_object = (\<lambda>k w. (Inr (\<lparr>rd_data = [], rd_err = None\<rparr>, None), w)),
      s3_delete_objects = (\<lambda>ks w. (None, w)),
      s3_list_objects = (\<lambda>p tok w.
        if tok = None
        then (Inr \<lparr>sp_contents = [\<lparr>so_key = Some ''p/.meta/catalog.json'', so_size = Some 2, so_modified = None\<rparr>,
                                    \<lparr>so_key = Some ''p/ab'', so_size = Some 3, so_modified = Some 7\<rparr>],
                   sp_truncated = Some True, sp_next = Some ''p/ab''\<rparr>, w + 1)
        else (Inr \<lparr>sp_contents = [\<lparr>so_key = Some ''p/cd'', so_size = Some 5, so_modified = Some 9\<rparr>],
                   sp_truncated = Some False, sp_next = None\<rparr>, w + 1)),
      s3_head_bucket = (\<lambda>w. (None, w)),
      s3_create_bucket = (\<lambda>w. (None, w))\<rparr>"

lemma example_chain:
  "\<exists>pgs. page_chain example_pages ''p/'' None 0 pgs (Suc (Suc 0))
     \<and> map so_key (concat (map sp_contents pgs))
       = [Some ''p/.meta/catalog.json'', Some ''p/ab'', Some ''p/cd'']"
proof -
  obtain p1 where p1: "s3_list_objects example_pages ''p/'' None 0 = (Inr p1, Suc 0)"
    "sp_truncated p1 = Some True" "sp_next p1 = Some ''p/ab''"
    "map so_key (sp_contents p1) = [Some ''p/.meta/catalog.json'', Some ''p/ab'']"
    by (simp add: example_pages_def)
  obtain p2 where p2: "s3_list_objects example_pages ''p/'' (Some ''p/ab'') (Suc 0) = (Inr p2, Suc (Suc 0))"
    "sp_truncated p2 = Some False" "map so_key (sp_contents p2) = [Some ''p/cd'']"
    by (simp add: example_pages_def)
  have "page_chain example_pages ''p/'' (Some ''p/ab'') (Suc 0) [p2] (Suc (Suc 0))"
    using p2 by (intro last_page) simp_all
  from next_page [OF p1(1) p1(2) p1(3) this]
  have "page_chain example_pages ''p/'' None 0 [p1, p2] (Suc (Suc 0))" .
  with p1 p2 show ?thesis by (intro exI [of _ "[p1, p2]"]) simp
qed


end
