(* ===== verification/Web_Models.thy ===== *)
theory Web_Models
  imports Access Go_Time Catalog Metrics
begin

text \<open>
  \<open>internal/web/models.go\<close>: what the dashboard shows of the catalog and the metrics. Percentages
  and sizes are \<open>float64\<close> values; every operation rounds its exact result (the parameter of
  \<open>Access\<close>; no operations are fused), and no operand here is infinite.
\<close>

section \<open>Formatting numbers\<close>

text \<open>
  \<open>%.pf\<close> prints the decimal nearest to the exact value of a \<open>float64\<close>, an exact tie to the even
  digit.
\<close>

definition round_even :: "rat \<Rightarrow> int" where [go_eval]:
  "round_even q =
     (let f = \<lfloor>q\<rfloor>; r = q - of_int f in
      if r < 1 / 2 then f else if 1 / 2 < r then f + 1 else if even f then f else f + 1)"

definition fixed :: "nat \<Rightarrow> rat \<Rightarrow> string" where [go_eval]:
  "fixed p q =
     (let n = nat (round_even (abs q * 10 ^ p)) in
      (if q < 0 then ''-'' else []) @
      (if p = 0 then nat_str n else nat_str (n div 10 ^ p) @ ''.'' @ pad_zero p (n mod 10 ^ p)))"

definition f_fixed :: "nat \<Rightarrow> f64 \<Rightarrow> string" where [go_eval]:
  "f_fixed p x = (case x of Num q \<Rightarrow> fixed p q | Inf \<Rightarrow> ''+Inf'' | NaN \<Rightarrow> ''NaN'')"

definition f_int :: "floats \<Rightarrow> int \<Rightarrow> rat" where [go_eval]:
  "f_int fl i = fl_round fl (of_int i)"

text \<open>\<open>a / b * 100\<close> on two numbers.\<close>

definition percent_of :: "floats \<Rightarrow> rat \<Rightarrow> rat \<Rightarrow> rat" where [go_eval]:
  "percent_of fl a b = fl_round fl (fl_round fl (a / b) * 100)"

text \<open>\<open>Duration.Minutes\<close> and \<open>Duration.Hours\<close>.\<close>

definition f_units :: "floats \<Rightarrow> int \<Rightarrow> duration \<Rightarrow> f64" where [go_eval]:
  "f_units fl unit d =
     Num (fl_round fl (f_int fl (go_div d unit) + fl_round fl (f_int fl (go_mod d unit) / of_int unit)))"

lemma seconds_units: "seconds fl d = f_units fl second d"
  by (simp add: seconds_def f_units_def f_of_int_def f_int_def Let_def)

text \<open>\<open>Duration.String\<close>: the digits of a fraction without their trailing zeros.\<close>

definition frac_str :: "nat \<Rightarrow> nat \<Rightarrow> string" where [go_eval]:
  "frac_str w n =
     (let ds = rev (dropWhile (\<lambda>c. c = CHR ''0'') (rev (pad_zero w n)))
      in if n = 0 then [] else ''.'' @ ds)"

definition duration_str :: "duration \<Rightarrow> string" where [go_eval]:
  "duration_str d =
     (let u = nat (abs d) in
      (if d < 0 then ''-'' else []) @
      (if u = 0 then ''0s''
       else if u < 1000 then nat_str u @ ''ns''
       else if u < 1000000 then nat_str (u div 1000) @ frac_str 3 (u mod 1000) @ [byte 0xC2, byte 0xB5] @ ''s''
       else if u < 1000000000 then nat_str (u div 1000000) @ frac_str 6 (u mod 1000000) @ ''ms''
       else
         (let s = u div 1000000000; m = s div 60; h = m div 60;
              secs = nat_str (s mod 60) @ frac_str 9 (u mod 1000000000) @ ''s''
          in (if m = 0 then secs
              else (if h = 0 then [] else nat_str h @ ''h'') @ nat_str (m mod 60) @ ''m'' @ secs))))"

section \<open>Text\<close>

definition ellipsis :: string where [go_eval]: "ellipsis = [byte 0xE2, byte 0x80, byte 0xA6]"
definition em_dash :: string where [go_eval]: "em_dash = [byte 0xE2, byte 0x80, byte 0x94]"
definition middle_dot :: string where [go_eval]: "middle_dot = [byte 0xC2, byte 0xB7]"

definition short_hash :: "string \<Rightarrow> string" where [go_eval]:
  "short_hash h = (if length h \<le> 16 then h else take 12 h @ ellipsis)"

definition kind_badge_class :: "string \<Rightarrow> string" where [go_eval]:
  "kind_badge_class k =
     (if k = ''build'' then ''border-emerald-500/30 bg-emerald-500/10 text-emerald-700 dark:text-emerald-400''
      else if k = ''test'' then ''border-sky-500/30 bg-sky-500/10 text-sky-700 dark:text-sky-400''
      else if k = ''lint'' then ''border-amber-500/30 bg-amber-500/10 text-amber-800 dark:text-amber-400''
      else if k = ''e2e'' then ''border-violet-500/30 bg-violet-500/10 text-violet-700 dark:text-violet-400''
      else if k = ''typecheck'' then ''border-cyan-500/30 bg-cyan-500/10 text-cyan-700 dark:text-cyan-400''
      else if k = ''serve'' then ''border-fuchsia-500/30 bg-fuchsia-500/10 text-fuchsia-700 dark:text-fuchsia-400''
      else [])"

definition kind_pie_color :: "string \<Rightarrow> nat \<Rightarrow> string" where [go_eval]:
  "kind_pie_color k i =
     (if k = ''build'' then ''oklch(69.6% .17 162.48)''
      else if k = ''test'' then ''oklch(68.5% .169 237.323)''
      else if k = ''lint'' then ''oklch(76.9% .188 70.08)''
      else if k = ''e2e'' then ''oklch(60.6% .25 292.717)''
      else if k = ''typecheck'' then ''oklch(71.5% .143 215.221)''
      else if k = ''serve'' then ''oklch(65% .2 330)''
      else if k = ''unknown'' \<or> k = [] then ''oklch(55.6% 0 0)''
      else [''oklch(68.5% .169 237.323)'', ''oklch(76.9% .188 70.08)'',
            ''oklch(60.6% .25 292.717)'', ''oklch(65% .2 330)''] ! (i mod 4))"

text \<open>
  The loop of \<open>FormatBytes\<close>: the divisor and the exponent. An exponent beyond the unit letters
  would panic; \<open>bytes_scale_spec\<close> shows that there is none.
\<close>

function bytes_scale :: "int \<Rightarrow> int \<Rightarrow> nat \<Rightarrow> int \<times> nat" where
  "bytes_scale val dv ex =
     (if val \<ge> 1024 then bytes_scale (go_div val 1024) (wrap64 (dv * 1024)) (ex + 1) else (dv, ex))"
  by pat_completeness auto

termination
  by (relation "measure (\<lambda>(val, dv, ex). nat val)") (auto simp: go_div_nonneg)

declare bytes_scale.simps [simp del, go_eval]

definition format_bytes :: "floats \<Rightarrow> int \<Rightarrow> string" where [go_eval]:
  "format_bytes fl n =
     (if n < 1024 then int_str n @ '' B''
      else (case bytes_scale (go_div n 1024) 1024 0 of
        (dv, ex) \<Rightarrow> fixed 1 (fl_round fl (f_int fl n / f_int fl dv)) @ '' ''
                      @ (if ex < 6 then [''KMGTPE'' ! ex] else []) @ ''iB''))"

definition format_age :: "floats \<Rightarrow> duration \<Rightarrow> string" where [go_eval]:
  "format_age fl d0 =
     (let d = (if d0 < 0 then 0 else d0);
          secs = f_to_int fl (seconds fl d);
          mins = f_to_int fl (f_units fl minute d);
          hours = f_to_int fl (f_units fl hour d)
      in if d < minute then int_str secs @ ''s''
         else if d < hour then int_str mins @ ''m''
         else if d < 24 * hour then
           (let m = go_mod mins 60 in
            if m = 0 then int_str hours @ ''h'' else int_str hours @ ''h '' @ int_str m @ ''m'')
         else (let h = go_mod hours 24; days = go_div hours 24 in
            if h = 0 then int_str days @ ''d'' else int_str days @ ''d '' @ int_str h @ ''h''))"

definition hit_rate :: "floats \<Rightarrow> stats \<Rightarrow> rat" where [go_eval]:
  "hit_rate fl s =
     (let total = wrap64 (sa_hits s + sa_misses s) in
      if total = 0 then 0 else percent_of fl (f_int fl (sa_hits s)) (f_int fl total))"

definition format_rate :: "floats \<Rightarrow> stats \<Rightarrow> string" where [go_eval]:
  "format_rate fl s = fixed 1 (hit_rate fl s) @ ''%''"

definition format_latency :: "floats \<Rightarrow> duration \<Rightarrow> string" where [go_eval]:
  "format_latency fl d =
     (if d \<le> 0 then em_dash
      else if d < millisecond then ''<1 ms''
      else if d < second then int_str (go_div d millisecond) @ '' ms''
      else f_fixed 2 (seconds fl d) @ '' s'')"

definition format_latency_pair :: "floats \<Rightarrow> operation_stats \<Rightarrow> string" where [go_eval]:
  "format_latency_pair fl s =
     (if sm_count s = 0 then ''No data''
      else format_latency fl (sm_p50 s) @ '' / '' @ format_latency fl (sm_p95 s))"

definition latency_hint :: "floats \<Rightarrow> string \<Rightarrow> operation_stats \<Rightarrow> string" where [go_eval]:
  "latency_hint fl what s =
     (if sm_count s = 0 then ''No '' @ what @ ''s since startup''
      else int_str (sm_count s) @ '' '' @ what @ ''s '' @ middle_dot @ '' '' @ format_bytes fl (sm_bytes s)
           @ '' '' @ middle_dot @ '' '' @ int_str (sm_samples s) @ '' samples'')"

section \<open>Dates\<close>

text \<open>\<open>t.UTC().Format("2006-01-02 15:04 UTC")\<close>\<close>

definition format_minute :: "time \<Rightarrow> string" where [go_eval]:
  "format_minute t =
     format_day t @ '' '' @ pad_int 2 (t mod (24 * hour) div hour) @ '':'' @ pad_int 2 (t mod hour div minute)
     @ '' UTC''"

definition month_name :: "nat \<Rightarrow> string" where [go_eval]:
  "month_name m =
     (if 1 \<le> m \<and> m \<le> 12
      then [''Jan'', ''Feb'', ''Mar'', ''Apr'', ''May'', ''Jun'', ''Jul'', ''Aug'', ''Sep'', ''Oct'', ''Nov'', ''Dec''] ! (m - 1)
      else [])"

text \<open>
  \<open>time.Parse("2006-01-02", s)\<close> followed by \<open>Format("Jan 02")\<close>: four, two and two digits that name
  a day; any other text is shown as it is.
\<close>

definition day_label :: "string \<Rightarrow> string" where [go_eval]:
  "day_label s =
     (if length s = 10 \<and> s ! 4 = CHR ''-'' \<and> s ! 7 = CHR ''-''
         \<and> list_all is_digit (take 4 s @ take 2 (drop 5 s) @ drop 8 s)
      then (let y = int (digits_val (take 4 s)); m = digits_val (take 2 (drop 5 s)); d = digits_val (drop 8 s)
            in if 1 \<le> m \<and> m \<le> 12 \<and> 1 \<le> d \<and> int d \<le> month_lengths (leap_after (y - 1)) ! (m - 1)
               then month_name m @ '' '' @ pad_zero 2 d else s)
      else s)"

section \<open>The dashboard\<close>

record login_data =
  ld_error :: string
  ld_username :: string

record day_bar =
  bar_label :: string
  bar_hits :: int
  bar_misses :: int
  bar_hit_width :: rat
  bar_miss_width :: rat

record kind_legend =
  kl_kind :: string
  kl_count :: int
  kl_percent :: string
  kl_color_style :: string

record entry_view =
  ev_hash :: string
  ev_hash_short :: string
  ev_label :: string
  ev_kind :: string
  ev_project :: string
  ev_target :: string
  ev_config :: string
  ev_size :: string
  ev_age :: string
  ev_hits :: int
  ev_last_access :: string
  ev_created :: string

record dashboard_model =
  dd_username :: string
  dd_csrf_token :: string
  dd_ttl :: string
  dd_query :: string
  dd_page :: int
  dd_pages :: int
  dd_total :: int
  dd_message :: string
  dd_stats :: stats
  dd_kinds :: "kind_count list"
  dd_entries :: "entry_view list"
  dd_hit_bar_width :: rat
  dd_miss_bar_width :: rat
  dd_latency :: metrics_snapshot
  dd_day_bars :: "day_bar list"
  dd_kind_pie_style :: string
  dd_kind_legend :: "kind_legend list"

definition entry_view_of :: "floats \<Rightarrow> time \<Rightarrow> entry \<Rightarrow> entry_view" where [go_eval]:
  "entry_view_of fl now e =
     \<lparr>ev_hash = en_hash e, ev_hash_short = short_hash (en_hash e), ev_label = task_label (en_task e),
      ev_kind = ti_kind (en_task e), ev_project = ti_project (en_task e), ev_target = ti_target (en_task e),
      ev_config = ti_config (en_task e), ev_size = format_bytes fl (en_size e),
      ev_age = format_age fl (time_sub now (en_created e)), ev_hits = en_hits e,
      ev_last_access = format_age fl (time_sub now (en_accessed e)) @ '' ago'',
      ev_created = format_minute (en_created e)\<rparr>"

text \<open>The widths of the two bars under the totals.\<close>

definition total_bars :: "floats \<Rightarrow> stats \<Rightarrow> rat \<times> rat" where [go_eval]:
  "total_bars fl s =
     (let hits = f_int fl (sa_hits s); misses = f_int fl (sa_misses s); sum = fl_round fl (hits + misses)
      in if sum = 0 then (0, 0) else (percent_of fl hits sum, percent_of fl misses sum))"

definition max_day :: "day_stat list \<Rightarrow> int" where [go_eval]:
  "max_day days =
     foldl (\<lambda>m d. let total = wrap64 (ds_hits d + ds_misses d) in if total > m then total else m) 0 days"

definition day_bar_of :: "floats \<Rightarrow> int \<Rightarrow> day_stat \<Rightarrow> day_bar" where [go_eval]:
  "day_bar_of fl mx d =
     \<lparr>bar_label = day_label (ds_day d), bar_hits = ds_hits d, bar_misses = ds_misses d,
      bar_hit_width = (if mx > 0 then percent_of fl (f_int fl (ds_hits d)) (f_int fl mx) else 0),
      bar_miss_width = (if mx > 0 then percent_of fl (f_int fl (ds_misses d)) (f_int fl mx) else 0)\<rparr>"

text \<open>The slices of the pie from a start on, and the legend.\<close>

fun pie_slices :: "floats \<Rightarrow> int \<Rightarrow> nat \<Rightarrow> rat \<Rightarrow> kind_count list \<Rightarrow> (string \<times> kind_legend) list" where
  "pie_slices fl whole i start [] = []"
| "pie_slices fl whole i start (k # ks) =
     (let share = percent_of fl (f_int fl (kc_count k)) (f_int fl whole);
          stop = fl_round fl (start + share);
          color = kind_pie_color (kc_kind k) i
      in (color @ '' '' @ fixed 2 start @ ''% '' @ fixed 2 stop @ ''%'',
          \<lparr>kl_kind = kc_kind k, kl_count = kc_count k, kl_percent = fixed 0 share @ ''%'',
           kl_color_style = ''background-color: '' @ color\<rparr>)
         # pie_slices fl whole (i + 1) stop ks)"

definition kind_total :: "kind_count list \<Rightarrow> int" where [go_eval]:
  "kind_total ks = foldl (\<lambda>n k. wrap64 (n + kc_count k)) 0 ks"

definition kind_slices :: "floats \<Rightarrow> kind_count list \<Rightarrow> (string \<times> kind_legend) list" where [go_eval]:
  "kind_slices fl ks = (if kind_total ks = 0 then [] else pie_slices fl (kind_total ks) 0 0 ks)"

definition page_count :: "int \<Rightarrow> int \<Rightarrow> int" where [go_eval]:
  "page_count found page_size =
     (let pages = go_div (wrap64 (wrap64 (found + page_size) - 1)) page_size in if pages < 1 then 1 else pages)"

definition new_dashboard ::
  "floats \<Rightarrow> time \<Rightarrow> string \<Rightarrow> string \<Rightarrow> string \<Rightarrow> string \<Rightarrow> string \<Rightarrow> int \<Rightarrow> int \<Rightarrow> stats \<Rightarrow>
   entry list \<Rightarrow> int \<Rightarrow> metrics_snapshot \<Rightarrow> dashboard_model" where [go_eval]:
  "new_dashboard fl now username csrf ttl query message page page_size st entries found latency =
     (let bars = total_bars fl st; slices = kind_slices fl (sa_by_kind st) in
      \<lparr>dd_username = username, dd_csrf_token = csrf, dd_ttl = ttl, dd_query = query,
       dd_page = (if page < 1 then 1 else page), dd_pages = page_count found page_size, dd_total = found,
       dd_message = message, dd_stats = st, dd_kinds = sa_by_kind st,
       dd_entries = map (entry_view_of fl now) entries,
       dd_hit_bar_width = fst bars, dd_miss_bar_width = snd bars, dd_latency = latency,
       dd_day_bars = map (day_bar_of fl (max_day (sa_days st))) (sa_days st),
       dd_kind_pie_style =
         (if slices = [] then ''background: var(--muted)''
          else ''background: conic-gradient('' @ join_with '', '' (map fst slices) @ '')''),
       dd_kind_legend = map snd slices\<rparr>)"

lemmas [go_eval] = pie_slices.simps

section \<open>Sizes\<close>

lemma bytes_scale_spec:
  assumes "n < 2 ^ 63" and "dv = 1024 ^ (ex + 1)" and "val = n div dv" and "1 \<le> val"
    and "bytes_scale val dv ex = (dv', ex')"
  shows "dv' = 1024 ^ (ex' + 1) \<and> dv' \<le> n \<and> n < 1024 * dv'"
  using assms(2-5)
proof (induction val dv ex rule: bytes_scale.induct)
  case (1 val dv ex)
  have pos: "0 < dv" by (simp add: 1(2))
  have n: "n = dv * val + n mod dv" "0 \<le> n mod dv" "n mod dv < dv" using pos by (simp_all add: 1(3))
  have le: "dv * c \<le> n" if "c \<le> val" for c
    using mult_left_mono [OF that, of dv] pos n by linarith
  show ?case
  proof (cases "val \<ge> 1024")
    case False
    then have r: "dv' = dv" "ex' = ex" using 1(5) by (auto simp: bytes_scale.simps)
    have "dv * val \<le> dv * 1023" using False pos by (intro mult_left_mono) simp_all
    with n have "n < 1024 * dv" by linarith
    then show ?thesis using r 1(2) le [of 1] 1(4) by simp
  next
    case True
    then have le: "dv * 1024 \<le> n" by (rule le)
    with assms(1) pos have w: "wrap64 (dv * 1024) = dv * 1024" by (intro wrap64_id) (simp add: in64_def)
    have d: "go_div val 1024 = n div (dv * 1024)" using 1(3) True pos
      by (simp add: go_div_nonneg zdiv_zmult2_eq)
    have "bytes_scale (go_div val 1024) (wrap64 (dv * 1024)) (ex + 1) = (dv', ex')"
      using 1(5) True by (subst (asm) bytes_scale.simps) simp
    moreover have "1 \<le> go_div val 1024" using True by (simp add: go_div_nonneg)
    ultimately show ?thesis using 1(1) [OF True _ _ _ ] 1(2) d w by simp
  qed
qed

text \<open>
  Sizes on the dashboard. From one KiB on, a size is shown in the unit whose power of 1024 it reaches
  and not exceeds by another factor of 1024; the exponent never runs out of the six unit letters, and
  the divisor never overflows.
\<close>

theorem format_bytes_unit:
  assumes "1024 \<le> n" and "n < 2 ^ 63"
  shows "\<exists>ex < 6. 1024 ^ (ex + 1) \<le> n \<and> n < 1024 ^ (ex + 2)
    \<and> format_bytes fl n = fixed 1 (fl_round fl (f_int fl n / f_int fl (1024 ^ (ex + 1)))) @ '' ''
         @ [''KMGTPE'' ! ex] @ ''iB''"
proof -
  obtain dv ex where b: "bytes_scale (go_div n 1024) 1024 0 = (dv, ex)" by fastforce
  from assms have g: "go_div n 1024 = n div 1024" "1 \<le> n div 1024" by (simp_all add: go_div_nonneg)
  from bytes_scale_spec [OF assms(2) _ _ _ b] g have r: "dv = 1024 ^ (ex + 1)" "dv \<le> n" "n < 1024 * dv" by simp_all
  have "ex < 6"
  proof (rule ccontr)
    assume "\<not> ex < 6"
    then have "(1024 :: int) ^ 7 \<le> 1024 ^ (ex + 1)" by (intro power_increasing) simp_all
    with r assms(2) show False by simp
  qed
  with r b assms show ?thesis by (intro exI [of _ ex]) (simp add: format_bytes_def)
qed

theorem format_bytes_unit_witness:
  "\<exists>ex < 6. format_bytes exact_floats 1536 = fixed 1 (1536 / 1024 ^ (ex + 1)) @ '' '' @ [''KMGTPE'' ! ex] @ ''iB''"
  using format_bytes_unit [of 1536 exact_floats] by (auto simp: exact_floats_def f_int_def)

section \<open>Ages\<close>

text \<open>
  Rounding to nearest: an integer of at most 53 bits is exact, and any other result that is not
  subnormal is off by at most one part in \<open>2 ^ 53\<close>.
\<close>

definition to_nearest :: "floats \<Rightarrow> bool" where
  "to_nearest fl \<longleftrightarrow>
     (\<forall>i. \<bar>i\<bar> \<le> 2 ^ 53 \<longrightarrow> fl_round fl (of_int i) = of_int i)
     \<and> (\<forall>q. 1 / 2 ^ 1022 \<le> \<bar>q\<bar> \<longrightarrow> \<bar>fl_round fl q - q\<bar> \<le> \<bar>q\<bar> / 2 ^ 53)"

lemma f_units_floor:
  assumes fl: "to_nearest fl" and u: "0 < unit" and d: "0 \<le> d" and small: "d + 3 * unit < 2 ^ 53"
  shows "f_to_int fl (f_units fl unit d) = d div unit"
proof -
  define k m where "k = d div unit" and "m = d mod unit"
  have km: "0 \<le> k" "0 \<le> m" "m < unit" using u d by (simp_all add: k_def m_def pos_imp_zdiv_nonneg_iff)
  have dm: "go_div d unit = k" "go_mod d unit = m" using u d
    by (simp_all add: k_def m_def go_div_nonneg go_mod_nonneg)
  have "k * unit \<le> d" using km(2) div_mult_mod_eq [of d unit] unfolding k_def m_def by linarith
  then have k3: "(k + 3) * unit < 2 ^ 53" using small by (simp add: distrib_right)
  have kb: "k < 2 ^ 53" "unit < 2 ^ 53"
  proof -
    have "(k + 3) * 1 \<le> (k + 3) * unit" "1 * unit \<le> (k + 3) * unit"
      using km u by (intro mult_left_mono mult_right_mono; simp)+
    then have "k + 3 < 2 ^ 53" "unit < 2 ^ 53" using k3 by (simp_all add: mult.commute)
    then show "k < 2 ^ 53" "unit < 2 ^ 53" by simp_all
  qed
  have ex: "f_int fl k = of_int k" "f_int fl m = of_int m"
    using fl km kb unfolding to_nearest_def f_int_def by simp_all
  define x where "x = fl_round fl (of_int k + fl_round fl (of_int m / of_int unit))"
  have fx: "f_units fl unit d = Num x" by (simp add: f_units_def dm ex x_def)
  have "\<lfloor>x\<rfloor> = k \<and> 0 \<le> x"
  proof (cases "m = 0")
    case True
    from fl have z: "fl_round fl (of_int 0) = of_int 0" "fl_round fl (of_int k) = of_int k"
      using km kb unfolding to_nearest_def by (metis abs_zero zero_le_numeral zero_le_power, simp)
    with True km show ?thesis by (simp add: x_def)
  next
    case False
    define a :: rat where "a = of_int m / of_int unit"
    define e :: rat where "e = 1 / of_int unit"
    define t :: rat where "t = 1 / 2 ^ 53"
    have up: "0 < (of_int unit :: rat)" using u by simp
    have e0: "0 < e" using up by (simp add: e_def)
    have ae: "e \<le> a" "a \<le> 1 - e"
      using False km up by (simp_all add: a_def e_def field_simps flip: of_int_add of_int_diff)
    have et: "(of_int k + 3) * t < e"
    proof -
      have "(of_int k + 3) * of_int unit < (2 ^ 53 :: rat)" using k3
        by (metis of_int_add of_int_less_iff of_int_mult of_int_numeral of_int_power)
      then show ?thesis using up by (simp add: t_def e_def field_simps)
    qed
    have tiny: "1 / 2 ^ 1022 \<le> t" by (simp add: t_def)
    have t0: "0 < t" by (simp add: t_def)
    have k0: "0 \<le> (of_int k :: rat)" using km by simp
    have "3 * t \<le> (of_int k + 3) * t" using k0 t0 by (intro mult_right_mono) simp_all
    with et have te: "3 * t < e" by linarith
    have near: "\<bar>fl_round fl q - q\<bar> \<le> q * t" if "t \<le> q" for q
    proof -
      from that tiny t0 have "1 / 2 ^ 1022 \<le> \<bar>q\<bar>" by linarith
      with fl have "\<bar>fl_round fl q - q\<bar> \<le> \<bar>q\<bar> / 2 ^ 53" unfolding to_nearest_def by blast
      also have "\<bar>q\<bar> / 2 ^ 53 = q * t" using that t0 by (simp add: t_def)
      finally show ?thesis .
    qed
    define r where "r = fl_round fl a"
    have r: "\<bar>r - a\<bar> \<le> t"
    proof -
      have "\<bar>r - a\<bar> \<le> a * t" unfolding r_def using te ae t0 by (intro near) linarith
      also have "a * t \<le> 1 * t" using ae e0 t0 by (intro mult_right_mono) linarith+
      finally show ?thesis by simp
    qed
    have sm: "t \<le> of_int k + r" "of_int k + r \<le> of_int k + 2" using r ae te k0 e0 t0 by linarith+
    have "\<bar>x - (of_int k + r)\<bar> \<le> (of_int k + r) * t"
      unfolding x_def using near [OF sm(1)] by (simp add: r_def a_def)
    also have "(of_int k + r) * t \<le> (of_int k + 2) * t" using sm(2) t0 by (intro mult_right_mono) simp_all
    finally have "\<bar>x - (of_int k + a)\<bar> \<le> (of_int k + 2) * t + t" using r by linarith
    also have "\<dots> = (of_int k + 3) * t" by (simp add: algebra_simps)
    finally have "\<bar>x - (of_int k + a)\<bar> < e" using et by linarith
    with ae have "of_int k < x" "x < of_int k + 1" by linarith+
    with k0 show ?thesis by (auto simp: floor_eq_iff)
  qed
  moreover have "in64 k" using km kb by (simp add: in64_def)
  ultimately show ?thesis by (simp add: fx f_to_int_def k_def)
qed

lemma mod_then_div: "0 < u \<Longrightarrow> 0 \<le> n \<Longrightarrow> e div u mod n = e mod (u * n) div (u :: int)"
  by (simp add: zmod_zmult2_eq)

text \<open>The age in whole units of integer arithmetic.\<close>

definition age_text :: "duration \<Rightarrow> string" where [go_eval]:
  "age_text d =
     (if d < minute then int_str (d div second) @ ''s''
      else if d < hour then int_str (d div minute) @ ''m''
      else if d < 24 * hour then
        (if d mod hour div minute = 0 then int_str (d div hour) @ ''h''
         else int_str (d div hour) @ ''h '' @ int_str (d mod hour div minute) @ ''m'')
      else if d mod (24 * hour) div hour = 0 then int_str (d div (24 * hour)) @ ''d''
      else int_str (d div (24 * hour)) @ ''d '' @ int_str (d mod (24 * hour) div hour) @ ''h'')"

text \<open>
  Ages on the dashboard. The code divides in floating point and truncates; for every age of up to
  2000 hours the text is nevertheless the one of integer arithmetic, so no rounding ever shows a unit that
  is not complete. A negative age is shown as zero.
\<close>

theorem format_age_exact:
  assumes "to_nearest fl" and "d < 2000 * hour"
  shows "format_age fl d = age_text (if d < 0 then 0 else d)"
proof -
  define e where "e = (if d < 0 then 0 else d)"
  have e: "0 \<le> e" "e < 2000 * hour" using assms(2) by (simp_all add: e_def)
  have units: "f_to_int fl (seconds fl e) = e div second" "f_to_int fl (f_units fl minute e) = e div minute"
    "f_to_int fl (f_units fl hour e) = e div hour"
    unfolding seconds_units using e by (simp_all add: f_units_floor [OF assms(1)])
  have h: "go_mod (e div minute) 60 = e mod hour div minute" "go_mod (e div hour) 24 = e mod (24 * hour) div hour"
    "go_div (e div hour) 24 = e div (24 * hour)"
  proof -
    have n: "0 \<le> e div minute" "0 \<le> e div hour" using e(1) by (simp_all add: pos_imp_zdiv_nonneg_iff)
    have "minute * 60 = hour" "hour * 24 = 24 * hour" by simp_all
    then show "go_mod (e div minute) 60 = e mod hour div minute" "go_mod (e div hour) 24 = e mod (24 * hour) div hour"
      "go_div (e div hour) 24 = e div (24 * hour)"
      using mod_then_div [of minute 60 e] mod_then_div [of hour 24 e] zdiv_zmult2_eq [of 24 e hour]
        go_mod_nonneg [OF n(1), of 60] go_mod_nonneg [OF n(2), of 24] go_div_nonneg [OF n(2), of 24]
      by (simp_all only: zero_less_numeral zero_le_numeral simp_thms)
  qed
  show ?thesis
    unfolding format_age_def Let_def e_def [symmetric] units h age_text_def by simp
qed

lemma exact_to_nearest: "to_nearest exact_floats"
  by (simp add: to_nearest_def exact_floats_def)

theorem format_age_exact_witness: "format_age exact_floats (26 * hour + 59 * minute) = ''1d 2h''"
proof -
  have "int_str 1 = ''1''" "int_str 2 = ''2''" by (simp_all add: go_eval)
  then show ?thesis
    using format_age_exact [OF exact_to_nearest, of "26 * hour + 59 * minute"] by (simp add: age_text_def)
qed

end
