(* ===== verification/Middleware.thy ===== *)
theory Middleware
  imports Cache_Api Auth Client_Ip Login_Gate Access Config
begin

text \<open>
  The middleware of \<open>internal/httpserver\<close> (\<open>slog.go\<close>, \<open>access.go\<close>, \<open>login.go\<close>, \<open>server.go\<close>): request
  log, recovery from panics, security headers, allow list, rate limit, time-outs, bearer tokens and
  sessions. A handler takes the request, the response so far and the state; it may end in a panic.
  A middleware turns a handler into a handler.
\<close>

section \<open>Handlers\<close>

text \<open>The value of a panic: \<open>http.ErrAbortHandler\<close>, or anything else.\<close>

datatype go_panic = AbortHandler | OtherPanic

datatype log_level = Debug | Info | Warn | Error

text \<open>The state of the server behind its handlers; of the log only levels and messages are kept.\<close>

record 'w site_state =
  ss_api :: "'w api_state"
  ss_limiter :: "ip_limiter option"
  ss_logins :: "login_gate option"
  ss_log :: "(log_level \<times> string) list"

type_synonym 's handler = "request \<Rightarrow> writer \<Rightarrow> 's \<Rightarrow> go_panic option \<times> writer \<times> 's"

definition site_log :: "log_level \<Rightarrow> string \<Rightarrow> 'w site_state \<Rightarrow> 'w site_state" where [go_eval]:
  "site_log lv msg s = s\<lparr>ss_log := ss_log s @ [(lv, msg)]\<rparr>"

text \<open>A handler that does not panic.\<close>

definition reply :: "writer \<times> 's \<Rightarrow> go_panic option \<times> writer \<times> 's" where [go_eval]:
  "reply ws = (None, ws)"

section \<open>Request log and recovery\<close>

definition is_quiet :: "request \<Rightarrow> bool" where [go_eval]:
  "is_quiet r \<longleftrightarrow> rq_path r = ''/health'' \<or> has_prefix (rq_path r) ''/static/''"

definition status_level :: "request \<Rightarrow> int \<Rightarrow> log_level" where [go_eval]:
  "status_level r st =
     (if is_quiet r then Debug else if st \<ge> 500 then Error else if st \<ge> 400 then Warn else Info)"

definition request_log :: "'w site_state handler \<Rightarrow> 'w site_state handler" where [go_eval]:
  "request_log next r w s =
     (case next r w s of
        (Some p, w', s') \<Rightarrow> (Some p, w', s')
      | (None, w', s') \<Rightarrow> (None, w', site_log (status_level r (status w')) ''http'' s'))"

definition recoverer :: "'w site_state handler \<Rightarrow> 'w site_state handler" where [go_eval]:
  "recoverer next r w s =
     (case next r w s of
        (None, w', s') \<Rightarrow> (None, w', s')
      | (Some p, w', s') \<Rightarrow>
          if p = AbortHandler then (Some p, w', s')
          else (None, http_error ''Internal Server Error'' 500 w', site_log Error ''panic'' s'))"

section \<open>Headers and time-outs\<close>

definition csp :: string where [go_eval]:
  "csp = ''default-src 'self'; style-src 'self' 'unsafe-inline'; script-src 'self'; img-src 'self' data:; frame-ancestors 'none'' @ [CHR 0x27]"

definition security_headers :: "'s handler \<Rightarrow> 's handler" where [go_eval]:
  "security_headers next r w s =
     (let w1 = set_header ''Content-Security-Policy'' csp
                 (set_header ''Referrer-Policy'' ''no-referrer''
                   (set_header ''X-Frame-Options'' ''DENY''
                     (set_header ''X-Content-Type-Options'' ''nosniff'' w)));
          w2 = (if rq_tls r
                then set_header ''Strict-Transport-Security'' ''max-age=31536000; includeSubDomains'' w1 else w1)
      in next r w2 s)"

text \<open>\<open>context.WithTimeout\<close>: the earlier of the two deadlines.\<close>

definition with_timeout :: "time \<Rightarrow> duration \<Rightarrow> request \<Rightarrow> request" where [go_eval]:
  "with_timeout now d r =
     (let t = time_add now d in
      r\<lparr>rq_deadline := Some (case rq_deadline r of None \<Rightarrow> t | Some t0 \<Rightarrow> min t0 t)\<rparr>)"

definition request_timeout :: "time \<Rightarrow> duration \<Rightarrow> 's handler \<Rightarrow> 's handler" where [go_eval]:
  "request_timeout now d next r w s =
     (if rq_method r = ''PUT'' \<or> has_prefix (rq_path r) ''/v1/cache/'' then next r w s
      else next (with_timeout now (if has_prefix (rq_path r) ''/ui/'' then 60 * second else d) r) w s)"

section \<open>Who may pass\<close>

definition site_ip :: "config \<Rightarrow> request \<Rightarrow> string" where [go_eval]:
  "site_ip cfg r = client_ip r (cf_trust_forwarded cfg) (cf_trusted_proxies cfg)"

definition allowlist :: "config \<Rightarrow> 'w site_state handler \<Rightarrow> 'w site_state handler" where [go_eval]:
  "allowlist cfg next r w s =
     (if rq_path r = ''/health'' \<or> cf_allow_nets cfg = [] then next r w s
      else if \<not> ip_allowed (cf_allow_nets cfg) (site_ip cfg r)
           then reply (http_error ''Forbidden'' 403 w, site_log Warn ''ip not allowed'' s)
      else next r w s)"

definition rate_limit :: "floats \<Rightarrow> time \<Rightarrow> config \<Rightarrow> 'w site_state handler \<Rightarrow> 'w site_state handler" where [go_eval]:
  "rate_limit fl now cfg next r w s =
     (if ss_limiter s = None \<or> rq_path r = ''/health'' then next r w s
      else (case limiter_allow fl now (site_ip cfg r) (ss_limiter s) of
        (ok, l') \<Rightarrow>
          let s1 = s\<lparr>ss_limiter := l'\<rparr> in
          if \<not> ok then reply (http_error ''Too many requests'' 429 (set_header ''Retry-After'' ''1'' w),
                             site_log Warn ''rate limited'' s1)
          else next r w s1))"

definition is_write :: "request \<Rightarrow> bool" where [go_eval]:
  "is_write r \<longleftrightarrow> rq_method r = ''PUT'' \<or> rq_method r = ''DELETE''"

definition token_check :: "crypto \<Rightarrow> config \<Rightarrow> request \<Rightarrow> bool \<times> int \<times> string" where [go_eval]:
  "token_check cr cfg r =
     bearer_ok cr (header_value r ''Authorization'') (cf_access_token cfg) (cf_read_token cfg) (is_write r)"

definition bearer :: "crypto \<Rightarrow> config \<Rightarrow> 's handler \<Rightarrow> 's handler" where [go_eval]:
  "bearer cr cfg next r w s =
     (case token_check cr cfg r of
        (ok, code, msg) \<Rightarrow> if \<not> ok then reply (http_error msg code w, s) else next r w s)"

definition require_session :: "crypto \<Rightarrow> sessions \<Rightarrow> time \<Rightarrow> 's handler \<Rightarrow> 's handler" where [go_eval]:
  "require_session cr se now next r w s =
     (if username_from_request cr se now r = None
      then if has_prefix (rq_path r) ''/ui/''
           then reply (http_error ''authentication required'' 401 (set_header ''HX-Redirect'' ''/login'' w), s)
           else reply (http_redirect ''/login'' 303 w, s)
      else next r w s)"

end
