(* ===== verification/Http_Server.thy ===== *)
theory Http_Server
  imports Middleware Web_Models Cache_Protocol
begin

text \<open>
  \<open>internal/httpserver/server.go\<close>: the handlers of the dashboard and the composition of all routes
  and middleware into one function on requests. The router, the file server and the HTML pages (which
  templ generates) are parameters.
\<close>

section \<open>Parameters of the server\<close>

text \<open>
  What the router makes of a request: the method and the pattern of a registered route with the value
  of its parameter, or none. A page is its text and whether rendering failed.
\<close>

datatype route_match = Route string string string | NoRoute | WrongMethod

record 'w site =
  si_api :: "'w api"
  si_cfg :: config
  si_sessions :: sessions
  si_crypto :: crypto
  si_dates :: http_dates
  si_floats :: floats
  si_unicode :: unicode_tables
  si_archive :: archive_lib
  si_hub :: "'w \<Rightarrow> hub"
  si_poll_timeout :: duration
  si_static :: "(request \<Rightarrow> writer \<Rightarrow> go_panic option \<times> writer) option"
  si_router :: "(string \<times> string) list \<Rightarrow> request \<Rightarrow> route_match"
  si_no_route :: "writer \<Rightarrow> writer"
  si_wrong_method :: "writer \<Rightarrow> writer"
  si_login_page :: "login_data \<Rightarrow> string \<times> bool"
  si_dashboard_page :: "dashboard_model \<Rightarrow> string \<times> bool"
  si_entries_section :: "dashboard_model \<Rightarrow> string \<times> bool"
  si_stats_section :: "dashboard_model \<Rightarrow> string \<times> bool"

text \<open>
  The readings of the clock and the orders in which maps are visited during one request. \<open>tu_wait\<close> is
  what waiting for a change gives: its result, and the shared state when it returns.
\<close>

record 'w turn =
  tu_limit :: time
  tu_timeout :: time
  tu_session :: time
  tu_handler :: time
  tu_gate :: time
  tu_failure :: time
  tu_cookie :: time
  tu_stats :: time
  tu_view :: time
  tu_run :: time
  tu_cutoff :: time
  tu_notify :: time
  tu_clock :: api_clock
  tu_gate_order :: "login_gate \<Rightarrow> string list"
  tu_list_order :: "string list"
  tu_older_order :: "string list"
  tu_backend_order :: "string list"
  tu_visits :: visits
  tu_wait :: "duration \<Rightarrow> request \<Rightarrow> 'w \<Rightarrow> (bool \<times> hub_state \<times> goerr option) \<times> 'w"

section \<open>Helpers\<close>

definition page_size :: int where [go_eval]: "page_size = 25"

definition poll_timeout :: "'w site \<Rightarrow> duration" where [go_eval]:
  "poll_timeout si = (if si_poll_timeout si > 0 then si_poll_timeout si else 30 * second)"

definition world_of :: "'w site_state \<Rightarrow> 'w" where [go_eval]:
  "world_of s = as_world (ss_api s)"

definition set_world :: "'w \<Rightarrow> 'w site_state \<Rightarrow> 'w site_state" where [go_eval]:
  "set_world w s = s\<lparr>ss_api := (ss_api s)\<lparr>as_world := w\<rparr>\<rparr>"

lemma set_world_simps [simp]:
  "world_of (set_world w s) = w" "world_of (site_log l m s) = world_of s"
  "world_of (s\<lparr>ss_logins := g\<rparr>) = world_of s" "world_of (s\<lparr>ss_limiter := k\<rparr>) = world_of s"
  "ss_logins (set_world w s) = ss_logins s" "ss_logins (site_log l m s) = ss_logins s"
  "ss_limiter (site_log l m s) = ss_limiter s"
  by (simp_all add: world_of_def set_world_def site_log_def)

definition render :: "string \<times> bool \<Rightarrow> int \<Rightarrow> writer \<Rightarrow> 'w site_state \<Rightarrow> go_panic option \<times> writer \<times> 'w site_state" where [go_eval]:
  "render page code w s =
     reply (write_body (fst page) (write_header code (set_header ''Content-Type'' ''text/html; charset=utf-8'' w)),
            if snd page then site_log Error ''render template'' s else s)"

text \<open>\<open>url.QueryEscape\<close>.\<close>

definition upper_hex :: "nat \<Rightarrow> char" where [go_eval]:
  "upper_hex n = ''0123456789ABCDEF'' ! n"

definition query_escape :: "string \<Rightarrow> string" where [go_eval]:
  "query_escape t =
     concat (map (\<lambda>c. if alnum_or ''-_.~'' (bval c) then [c]
                      else if c = CHR '' '' then ''+''
                      else [CHR ''%'', upper_hex (bval c div 16), upper_hex (bval c mod 16)]) t)"

definition redirect_msg :: "string \<Rightarrow> writer \<Rightarrow> writer" where [go_eval]:
  "redirect_msg msg w = http_redirect (''/?msg='' @ query_escape msg) 303 w"

definition session_user :: "'w site \<Rightarrow> 'w turn \<Rightarrow> request \<Rightarrow> string option" where [go_eval]:
  "session_user si tu r = username_from_request (si_crypto si) (si_sessions si) (tu_handler tu) r"

definition valid_csrf :: "'w site \<Rightarrow> 'w turn \<Rightarrow> request \<Rightarrow> bool" where [go_eval]:
  "valid_csrf si tu r =
     (case session_user si tu r of
        None \<Rightarrow> False
      | Some user \<Rightarrow>
          let token = header_value r ''X-Csrf-Token'';
              token' = (if token = [] then form_value r ''csrf_token'' else token)
          in valid_csrf_token (si_crypto si) (si_sessions si) user token')"

section \<open>The data of the dashboard\<close>

definition current_page :: "request \<Rightarrow> int" where [go_eval]:
  "current_page r = (let p = fst (parse_int (query_get r ''page'')) in if p < 1 then 1 else p)"

definition dashboard_data :: "'w site \<Rightarrow> 'w turn \<Rightarrow> request \<Rightarrow> 'w site_state \<Rightarrow> dashboard_model outcome" where [go_eval]:
  "dashboard_data si tu r s =
     (let st = ap_store (si_api si); w = world_of s;
          q = trim_space (query_get r ''q''); page = current_page r;
          offset = wrap64 (wrap64 (page - 1) * page_size)
      in case st_list st (tu_list_order tu) q page_size offset w of
           Panic \<Rightarrow> Panic
         | Fail e \<Rightarrow> Fail e
         | Ret (entries, found) \<Rightarrow>
             (case st_stats st (tu_visits tu) (tu_stats tu) w of
                Inl e \<Rightarrow> Fail e
              | Inr stats \<Rightarrow>
                  let user = (case session_user si tu r of None \<Rightarrow> [] | Some u \<Rightarrow> u) in
                  Ret (new_dashboard (si_floats si) (tu_view tu) user
                         (csrf_token (si_crypto si) (si_sessions si) user)
                         (duration_str (cf_cache_ttl (si_cfg si))) q (query_get r ''msg'') page page_size
                         stats entries found (metrics_snapshot (as_metrics (ss_api s))))))"

text \<open>What a page handler does with the data: an error is answered with 500, a panic goes on.\<close>

definition show_data ::
  "'w site \<Rightarrow> 'w turn \<Rightarrow> string \<Rightarrow> (dashboard_model \<Rightarrow> string \<times> bool) \<Rightarrow> (writer \<Rightarrow> writer) \<Rightarrow> 'w site_state handler" where [go_eval]:
  "show_data si tu what page prep r w s =
     (case dashboard_data si tu r s of
        Panic \<Rightarrow> (Some OtherPanic, w, s)
      | Fail e \<Rightarrow> reply (http_error ''Internal server error'' 500 w, site_log Error what s)
      | Ret d \<Rightarrow> render (page d) 200 (prep w) s)"

section \<open>Handlers\<close>

definition login_get :: "'w site \<Rightarrow> 'w turn \<Rightarrow> 'w site_state handler" where [go_eval]:
  "login_get si tu r w s =
     (if session_user si tu r \<noteq> None then reply (http_redirect ''/'' 303 w, s)
      else render (si_login_page si \<lparr>ld_error = [], ld_username = []\<rparr>) 200 w s)"

definition login_page :: "'w site \<Rightarrow> string \<Rightarrow> string \<Rightarrow> string \<times> bool" where [go_eval]:
  "login_page si user err = si_login_page si \<lparr>ld_error = err, ld_username = user\<rparr>"

definition login_ok :: "'w site \<Rightarrow> request \<Rightarrow> bool" where [go_eval]:
  "login_ok si r \<longleftrightarrow>
     form_value r ''username'' = cf_ui_username (si_cfg si)
     \<and> check_password (si_crypto si) (form_value r ''password'') (cf_ui_password (si_cfg si))"

definition login_post :: "'w site \<Rightarrow> 'w turn \<Rightarrow> 'w site_state handler" where [go_eval]:
  "login_post si tu r w s =
     (let ip = site_ip (si_cfg si) r; user = form_value r ''username'' in
      case gate_allow (tu_gate tu) ip (ss_logins s) of
        (ok, g) \<Rightarrow>
          let s1 = s\<lparr>ss_logins := g\<rparr> in
          if \<not> ok
          then render (login_page si [] ''Too many attempts, try again later'') 429 w (site_log Warn ''login locked out'' s1)
          else (case rq_form r of
            Inl e \<Rightarrow> render (login_page si [] ''Invalid form'') 400 w s1
          | Inr f \<Rightarrow>
              if \<not> login_ok si r
              then render (login_page si user ''Invalid username or password'') 401 w
                     (site_log Warn ''login failed''
                        (s1\<lparr>ss_logins := gate_failure (tu_gate_order tu) (tu_failure tu) ip (ss_logins s1)\<rparr>))
              else reply (http_redirect ''/'' 303
                            (set_session_cookie (si_dates si) (si_crypto si) (si_sessions si) (tu_cookie tu) user w),
                          site_log Info ''login'' (s1\<lparr>ss_logins := gate_success ip (ss_logins s1)\<rparr>))))"

definition logout :: "'w site \<Rightarrow> 'w turn \<Rightarrow> 'w site_state handler" where [go_eval]:
  "logout si tu r w s =
     (if \<not> valid_csrf si tu r then reply (http_error ''invalid CSRF token'' 403 w, s)
      else reply (http_redirect ''/login'' 303 (clear_session_cookie (si_dates si) (si_sessions si) w), s))"

definition dashboard :: "'w site \<Rightarrow> 'w turn \<Rightarrow> 'w site_state handler" where [go_eval]:
  "dashboard si tu r w s =
     show_data si tu ''dashboard'' (si_dashboard_page si)
       (set_cache_headers (si_dates si) (hub_snapshot (si_hub si (world_of s)))) r w s"

text \<open>The two sections the page polls: nothing is answered to a request that was cancelled.\<close>

definition poll_section ::
  "'w site \<Rightarrow> 'w turn \<Rightarrow> string \<Rightarrow> (dashboard_model \<Rightarrow> string \<times> bool) \<Rightarrow> 'w site_state handler" where [go_eval]:
  "poll_section si tu what page r w s =
     (case tu_wait tu (poll_timeout si) r (world_of s) of
        ((modified, state, err), w1) \<Rightarrow>
          let s1 = set_world w1 s in
          if err \<noteq> None then reply (w, s1)
          else let w2 = set_cache_headers (si_dates si) state w in
            if \<not> modified then reply (write_header 304 w2, s1)
            else show_data si tu what page (\<lambda>x. x) r w2 s1)"

definition entries_section :: "'w site \<Rightarrow> 'w turn \<Rightarrow> 'w site_state handler" where [go_eval]:
  "entries_section si tu = poll_section si tu ''dashboard entries'' (si_entries_section si)"

definition stats_section :: "'w site \<Rightarrow> 'w turn \<Rightarrow> 'w site_state handler" where [go_eval]:
  "stats_section si tu = poll_section si tu ''dashboard stats'' (si_stats_section si)"

definition cleanup_now :: "'w site \<Rightarrow> 'w turn \<Rightarrow> 'w site_state handler" where [go_eval]:
  "cleanup_now si tu r w s =
     (if \<not> valid_csrf si tu r then reply (http_error ''invalid CSRF token'' 403 w, s)
      else (case as_cleaner (ss_api s) of
        None \<Rightarrow> (Some OtherPanic, w, s)
      | Some c \<Rightarrow>
          (case cleaner_run (ap_backend (si_api si)) (ap_store (si_api si)) (tu_run tu) (tu_cutoff tu)
                  (tu_older_order tu) (tu_backend_order tu) c (world_of s) of
             (res, c', w1) \<Rightarrow>
               let s1 = set_world w1 (s\<lparr>ss_api := (ss_api s)\<lparr>as_cleaner := Some c'\<rparr>\<rparr>) in
               (case res of
                  Inl e \<Rightarrow> reply (http_error ''cleanup failed'' 500 w, site_log Error ''manual cleanup'' s1)
                | Inr n \<Rightarrow> reply (redirect_msg (int_str n @ '' expired artifacts removed'') w,
                                 set_world (ap_notify (si_api si) (tu_notify tu) w1) s1)))))"

definition delete_entry :: "'w site \<Rightarrow> 'w turn \<Rightarrow> 'w site_state handler" where [go_eval]:
  "delete_entry si tu r w s =
     (let h = rq_hash r in
      if \<not> valid_csrf si tu r then reply (http_error ''invalid CSRF token'' 403 w, s)
      else if \<not> valid_hash h then reply (http_error ''invalid hash'' 400 w, s)
      else (case be_delete (ap_backend (si_api si)) [h] (world_of s) of
        (Some e, w1) \<Rightarrow> reply (http_error ''purge failed'' 500 w,
                              site_log Error ''manual cache delete failed'' (set_world w1 s))
      | (None, w1) \<Rightarrow>
          (case st_delete (ap_store (si_api si)) [h] w1 of
             (Some e, w2) \<Rightarrow> reply (http_error ''purge failed'' 500 w,
                                   site_log Error ''manual catalog delete failed'' (set_world w2 s))
           | (None, w2) \<Rightarrow> reply (redirect_msg (''artifact '' @ short_hash h @ '' purged'') w, set_world w2 s))))"

section \<open>Routes\<close>

definition cache_path :: string where [go_eval]: "cache_path = ''/v1/cache/{hash}''"
definition delete_path :: string where [go_eval]: "delete_path = ''/ui/entries/{hash}/delete''"

definition cache_routes :: "(string \<times> string) list" where [go_eval]:
  "cache_routes = [(''PUT'', cache_path), (''GET'', cache_path), (''HEAD'', cache_path)]"

definition ui_routes :: "(string \<times> string) list" where [go_eval]:
  "ui_routes = [(''GET'', ''/''), (''GET'', ''/ui/entries''), (''GET'', ''/ui/stats''),
                (''POST'', ''/ui/cleanup''), (''POST'', delete_path), (''POST'', ''/logout'')]"

text \<open>The routes in the order they are registered; the method \<open>*\<close> is any method.\<close>

definition site_routes :: "'w site \<Rightarrow> (string \<times> string) list" where [go_eval]:
  "site_routes si =
     [(''GET'', ''/health'')] @ (if si_static si = None then [] else [(''*'', ''/static/*'')])
     @ cache_routes @ [(''GET'', ''/login''), (''POST'', ''/login'')] @ ui_routes"

definition health :: "'s handler" where [go_eval]:
  "health r w s = reply (write_body ''OK'' (set_header ''Content-Type'' ''text/plain'' w), s)"

text \<open>\<open>http.StripPrefix\<close> around the file server.\<close>

definition static_files :: "'w site \<Rightarrow> 's handler" where [go_eval]:
  "static_files si r w s =
     (case si_static si of
        None \<Rightarrow> reply (si_no_route si w, s)
      | Some files \<Rightarrow>
          if has_prefix (rq_path r) ''/static/''
          then (case files (r\<lparr>rq_path := trim_prefix (rq_path r) ''/static/''\<rparr>) w of (p, w') \<Rightarrow> (p, w', s))
          else reply (http_error ''404 page not found'' 404 w, s))"

text \<open>
  The handlers of the cache API start from an empty response; headers that are already set stay,
  unless the handler sets them.
\<close>

definition onto :: "writer \<Rightarrow> writer \<Rightarrow> writer" where [go_eval]:
  "onto w wr = wr\<lparr>wr_header := foldr (\<lambda>(k, v) h. gset h k v) (wr_header wr) (wr_header w)\<rparr>"

definition cache_handler ::
  "(request \<Rightarrow> 'w api_state \<Rightarrow> writer \<times> 'w api_state) \<Rightarrow> 'w site_state handler" where [go_eval]:
  "cache_handler h r w s = (case h r (ss_api s) of (wr, a) \<Rightarrow> reply (onto w wr, s\<lparr>ss_api := a\<rparr>))"

definition cache_route :: "'w site \<Rightarrow> 'w turn \<Rightarrow> string \<Rightarrow> 'w site_state handler" where [go_eval]:
  "cache_route si tu m =
     bearer (si_crypto si) (si_cfg si)
       (if m = ''PUT'' then cache_handler (cache_put (si_unicode si) (si_archive si) (si_api si) (tu_clock tu))
        else if m = ''GET'' then cache_handler (cache_get (si_api si) (tu_clock tu))
        else cache_handler (cache_head (si_api si)))"

definition ui_route :: "'w site \<Rightarrow> 'w turn \<Rightarrow> string \<Rightarrow> 'w site_state handler" where [go_eval]:
  "ui_route si tu p =
     require_session (si_crypto si) (si_sessions si) (tu_session tu)
       (if p = ''/'' then dashboard si tu
        else if p = ''/ui/entries'' then entries_section si tu
        else if p = ''/ui/stats'' then stats_section si tu
        else if p = ''/ui/cleanup'' then cleanup_now si tu
        else if p = delete_path then delete_entry si tu
        else logout si tu)"

definition routed :: "'w site \<Rightarrow> 'w turn \<Rightarrow> 'w site_state handler" where [go_eval]:
  "routed si tu r w s =
     (case si_router si (site_routes si) r of
        NoRoute \<Rightarrow> reply (si_no_route si w, s)
      | WrongMethod \<Rightarrow> reply (si_wrong_method si w, s)
      | Route m p h \<Rightarrow>
          let r' = r\<lparr>rq_hash := h\<rparr> in
          if (m, p) \<in> set cache_routes then cache_route si tu m r' w s
          else if (m, p) \<in> set ui_routes then ui_route si tu p r' w s
          else if (m, p) = (''GET'', ''/login'') then login_get si tu r' w s
          else if (m, p) = (''POST'', ''/login'') then login_post si tu r' w s
          else if (m, p) = (''GET'', ''/health'') then health r' w s
          else static_files si r' w s)"

definition site_handler :: "'w site \<Rightarrow> 'w turn \<Rightarrow> 'w site_state handler" where [go_eval]:
  "site_handler si tu =
     request_log (recoverer (security_headers
       (allowlist (si_cfg si) (rate_limit (si_floats si) (tu_limit tu) (si_cfg si)
         (request_timeout (tu_timeout tu) (30 * second) (routed si tu))))))"

text \<open>The state \<open>Handler\<close> starts from: fresh metrics, limiter and login gate.\<close>

definition site_start :: "'w site \<Rightarrow> cleaner option \<Rightarrow> 'w \<Rightarrow> 'w site_state" where [go_eval]:
  "site_start si cl w =
     \<lparr>ss_api = \<lparr>as_world = w, as_cleaner = cl, as_runs = 0, as_metrics = Some new_collector\<rparr>,
      ss_limiter = new_ip_limiter (si_floats si) (cf_rate_rps (si_cfg si)) (cf_rate_burst (si_cfg si)),
      ss_logins = Some (new_login_gate 5 (30 * second)), ss_log = []\<rparr>"

end
