(* ===== verification/Site_Security.thy ===== *)
theory Site_Security
  imports Http_Server
begin

text \<open>
  What the composed server guarantees whoever sends the request: which requests can change an
  artifact, what a login and a deletion do, what every response carries, and how a panic ends.
\<close>

section \<open>Through the middleware\<close>

text \<open>
  A request is either refused by the allow list or the rate limiter, with nothing behind them touched,
  or it is routed with a response that only has headers and a state that differs in log and limiter.
\<close>

lemma site_api_simps [simp]:
  "ss_api (site_log l m s) = ss_api s"
  "ss_api (s\<lparr>ss_limiter := k\<rparr>) = ss_api s" "ss_logins (s\<lparr>ss_limiter := k\<rparr>) = ss_logins s"
  by (simp_all add: site_log_def)

definition guard_headers :: "request \<Rightarrow> writer \<Rightarrow> writer" where [go_eval]:
  "guard_headers r w =
     (let w1 = set_header ''Content-Security-Policy'' csp
                 (set_header ''Referrer-Policy'' ''no-referrer''
                   (set_header ''X-Frame-Options'' ''DENY''
                     (set_header ''X-Content-Type-Options'' ''nosniff'' w)))
      in if rq_tls r then set_header ''Strict-Transport-Security'' ''max-age=31536000; includeSubDomains'' w1 else w1)"

lemma security_headers_eq: "security_headers next r w s = next r (guard_headers r w) s"
  by (simp add: security_headers_def guard_headers_def Let_def)

lemma guard_headers_simps [simp]:
  "wr_status (guard_headers r w) = wr_status w" "wr_body (guard_headers r w) = wr_body w"
  by (simp_all add: guard_headers_def Let_def)

definition inner_handler :: "'w site \<Rightarrow> 'w turn \<Rightarrow> 'w site_state handler" where
  "inner_handler si tu =
     allowlist (si_cfg si) (rate_limit (si_floats si) (tu_limit tu) (si_cfg si)
       (request_timeout (tu_timeout tu) (30 * second) (routed si tu)))"

lemma inner_handler_cases:
  assumes "inner_handler si tu r w s = (p, w', s')"
  obtains (refused) m c x where "p = None" "ss_api s' = ss_api s" "ss_logins s' = ss_logins s"
      "c = 403 \<or> c = 429" "w' = http_error m c x" "x = w \<or> x = set_header ''Retry-After'' ''1'' w"
  | (passed) d s1 where "ss_api s1 = ss_api s" "ss_logins s1 = ss_logins s"
      "routed si tu (r\<lparr>rq_deadline := d\<rparr>) w s1 = (p, w', s')"
proof -
  have same: "r = r\<lparr>rq_deadline := rq_deadline r\<rparr>" by simp
  have time: "\<exists>d. routed si tu (r\<lparr>rq_deadline := d\<rparr>) w s1 = (p, w', s')"
    if "request_timeout (tu_timeout tu) (30 * second) (routed si tu) r w s1 = (p, w', s')" for s1
    using that same unfolding request_timeout_def with_timeout_def Let_def
    by (cases "rq_method r = ''PUT'' \<or> has_prefix (rq_path r) ''/v1/cache/''") (metis, auto)
  show ?thesis
  proof (cases "rq_path r = ''/health'' \<or> cf_allow_nets (si_cfg si) = []
      \<or> ip_allowed (cf_allow_nets (si_cfg si)) (site_ip (si_cfg si) r)")
    case False
    with assms show ?thesis
      by (intro refused [of 403 "''Forbidden''" w]) (auto simp: inner_handler_def allowlist_def reply_def)
  next
    case True
    with assms have lim: "rate_limit (si_floats si) (tu_limit tu) (si_cfg si)
       (request_timeout (tu_timeout tu) (30 * second) (routed si tu)) r w s = (p, w', s')"
      by (auto simp: inner_handler_def allowlist_def split: if_splits)
    show ?thesis
    proof (cases "ss_limiter s = None \<or> rq_path r = ''/health''")
      case True
      with lim time [of s] passed [of s] show ?thesis by (auto simp: rate_limit_def)
    next
      case False
      obtain ok l where l: "limiter_allow (si_floats si) (tu_limit tu) (site_ip (si_cfg si) r) (ss_limiter s) = (ok, l)"
        by fastforce
      show ?thesis
      proof (cases ok)
        case True
        with False l lim time [of "s\<lparr>ss_limiter := l\<rparr>"] passed [of "s\<lparr>ss_limiter := l\<rparr>"] show ?thesis
          by (auto simp: rate_limit_def)
      next
        case nok: False
        with False l lim show ?thesis
          by (intro refused [of 429 "''Too many requests''" "set_header ''Retry-After'' ''1'' w"])
             (auto simp: rate_limit_def reply_def)
      qed
    qed
  qed
qed

lemma site_handler_inner:
  assumes "site_handler si tu r w s = (p, w', s')"
  obtains p2 w2 s2 where "inner_handler si tu r (guard_headers r w) s = (p2, w2, s2)"
    "ss_api s' = ss_api s2" "ss_logins s' = ss_logins s2"
    "p2 = None \<Longrightarrow> p = None \<and> w' = w2"
    "p2 = Some OtherPanic \<Longrightarrow> p = None \<and> w' = http_error ''Internal Server Error'' 500 w2"
    "p2 = Some AbortHandler \<Longrightarrow> p = Some AbortHandler"
proof -
  obtain p2 w2 s2 where i: "inner_handler si tu r (guard_headers r w) s = (p2, w2, s2)" by (metis prod_cases3)
  then have eq: "site_handler si tu r w s = request_log (\<lambda>r w s. case (p2, w2, s2) of
        (None, w', s') \<Rightarrow> (None, w', s')
      | (Some p, w', s') \<Rightarrow>
          if p = AbortHandler then (Some p, w', s')
          else (None, http_error ''Internal Server Error'' 500 w', site_log Error ''panic'' s')) r w s"
    by (simp add: site_handler_def request_log_def recoverer_def security_headers_eq inner_handler_def)
  show ?thesis
    by (rule that [OF i]; cases p2; use assms in \<open>auto simp: eq request_log_def split: if_splits\<close>)
qed

section \<open>What a request may change\<close>

text \<open>The credentials of a request: a token that may write, or a session with its form token.\<close>

definition may_write :: "'w site \<Rightarrow> request \<Rightarrow> bool" where [go_eval]:
  "may_write si r \<longleftrightarrow> is_write r \<and> fst (token_check (si_crypto si) (si_cfg si) r)"

lemma request_parts [simp]:
  "header_value (r\<lparr>rq_deadline := d\<rparr>) k = header_value r k" "header_value (r\<lparr>rq_hash := h\<rparr>) k = header_value r k"
  "form_value (r\<lparr>rq_deadline := d\<rparr>) k = form_value r k" "form_value (r\<lparr>rq_hash := h\<rparr>) k = form_value r k"
  "username_from_request cr se now (r\<lparr>rq_deadline := d\<rparr>) = username_from_request cr se now r"
  "username_from_request cr se now (r\<lparr>rq_hash := h\<rparr>) = username_from_request cr se now r"
  by (simp_all add: header_value_def form_value_def username_from_request_def request_cookie_def)

lemma credentials_simps [simp]:
  "may_write si (r\<lparr>rq_deadline := d\<rparr>) = may_write si r" "may_write si (r\<lparr>rq_hash := h\<rparr>) = may_write si r"
  "valid_csrf si tu (r\<lparr>rq_deadline := d\<rparr>) = valid_csrf si tu r"
  "valid_csrf si tu (r\<lparr>rq_hash := h\<rparr>) = valid_csrf si tu r"
  "session_user si tu (r\<lparr>rq_deadline := d\<rparr>) = session_user si tu r"
  "session_user si tu (r\<lparr>rq_hash := h\<rparr>) = session_user si tu r"
  by (simp_all add: may_write_def is_write_def token_check_def valid_csrf_def session_user_def
      Let_def cong: option.case_cong)

text \<open>
  What the router documents: it only gives registered routes, of the method of the request unless any
  method is registered.
\<close>

definition router_ok :: "'w site \<Rightarrow> bool" where
  "router_ok si \<longleftrightarrow>
     (\<forall>rs r m p h. si_router si rs r = Route m p h \<longrightarrow> (m, p) \<in> set rs \<and> (m = ''*'' \<or> m = rq_method r))"

text \<open>Other requests may run while one waits; here they leave the artifacts alone.\<close>

definition quiet_wait :: "('w \<Rightarrow> bool) \<Rightarrow> ('w \<Rightarrow> string \<rightharpoonup> string \<times> time) \<Rightarrow> 'w turn \<Rightarrow> bool" where
  "quiet_wait iv arts tu \<longleftrightarrow>
     (\<forall>d r w. iv w \<longrightarrow> iv (snd (tu_wait tu d r w)) \<and> arts (snd (tu_wait tu d r w)) = arts w)"

lemma render_world [simp]: "render page code w s = (p, w', s') \<Longrightarrow> world_of s' = world_of s"
  by (auto simp: render_def reply_def)

lemma show_data_world: "show_data si tu what page prep r w s = (p, w', s') \<Longrightarrow> world_of s' = world_of s"
  by (auto simp: show_data_def reply_def split: outcome.splits dest: render_world)

lemma login_get_world: "login_get si tu r w s = (p, w', s') \<Longrightarrow> world_of s' = world_of s"
  by (auto simp: login_get_def reply_def split: if_splits dest: render_world)

lemma login_post_world: "login_post si tu r w s = (p, w', s') \<Longrightarrow> world_of s' = world_of s"
  by (auto simp: login_post_def reply_def Let_def split: if_splits prod.splits sum.splits dest: render_world)

lemma static_world: "static_files si r w s = (p, w', s') \<Longrightarrow> world_of s' = world_of s"
  by (auto simp: static_files_def reply_def split: option.splits if_splits prod.splits)

lemma poll_section_world:
  assumes "poll_section si tu what page r w s = (p, w', s')"
  shows "world_of s' = snd (tu_wait tu (poll_timeout si) r (world_of s))"
  using assms unfolding poll_section_def Let_def
  by (auto simp: reply_def split: prod.splits if_splits dest: show_data_world)

context api_env
begin

definition same_arts :: "'w site_state \<Rightarrow> 'w site_state \<Rightarrow> bool" where
  "same_arts s s' \<longleftrightarrow> inv (world_of s') \<and> arts (world_of s') = arts (world_of s)"

lemma same_arts_world: "inv (world_of s) \<Longrightarrow> world_of s' = world_of s \<Longrightarrow> same_arts s s'"
  by (simp add: same_arts_def)

lemma cache_route_arts:
  assumes iv: "inv (world_of s)" and api: "si_api si = ap" and m: "m = ''*'' \<or> m = rq_method r"
    and w: "\<not> may_write si r" and run: "cache_route si tu m r w0 s = (p, w', s')"
  shows "same_arts s s'"
proof (cases "fst (token_check (si_crypto si) (si_cfg si) r)")
  case False
  with run iv show ?thesis
    by (auto simp: cache_route_def bearer_def reply_def same_arts_def split: prod.splits)
next
  case True
  with w have nw: "m \<noteq> ''PUT''" using m by (auto simp: may_write_def is_write_def)
  obtain ok code msg where "token_check (si_crypto si) (si_cfg si) r = (ok, code, msg)" by (metis prod_cases3)
  with True run nw have "(if m = ''GET'' then cache_handler (cache_get ap (tu_clock tu))
        else cache_handler (cache_head ap)) r w0 s = (p, w', s')"
    by (simp add: cache_route_def bearer_def api cong: if_cong)
  note run' = this
  show ?thesis
  proof (cases "m = ''GET''")
    case True
    obtain wr a where g: "cache_get ap (tu_clock tu) r (ss_api s) = (wr, a)" by fastforce
    with run' True have "s' = s\<lparr>ss_api := a\<rparr>" by (simp add: cache_handler_def reply_def)
    with cache_get_outcome [OF _ g] iv show ?thesis by (simp add: same_arts_def world_of_def)
  next
    case False
    obtain wr a where g: "cache_head ap r (ss_api s) = (wr, a)" by fastforce
    with run' False have "s' = s\<lparr>ss_api := a\<rparr>" by (simp add: cache_handler_def reply_def)
    with cache_head_outcome [OF _ g] iv show ?thesis by (simp add: same_arts_def world_of_def)
  qed
qed

lemma ui_route_arts:
  assumes iv: "inv (world_of s)" and c: "\<not> valid_csrf si tu r" and q: "quiet_wait inv arts tu"
    and run: "ui_route si tu pth r w0 s = (p, w', s')"
  shows "same_arts s s'"
proof (cases "username_from_request (si_crypto si) (si_sessions si) (tu_session tu) r")
  case None
  with run iv show ?thesis
    by (auto simp: ui_route_def require_session_def reply_def same_arts_def split: if_splits)
next
  case (Some user)
  have wait: "same_arts s s'" if "poll_section si tu what page r w0 s = (p, w', s')" for what page
    using poll_section_world [OF that] q iv by (simp add: quiet_wait_def same_arts_def)
  have dash: "same_arts s s'" if "dashboard si tu r w0 s = (p, w', s')"
    using show_data_world [OF that [unfolded dashboard_def]] iv by (rule same_arts_world [rotated])
  from Some run show ?thesis
    using iv c wait dash
    by (auto simp: ui_route_def require_session_def cleanup_now_def delete_entry_def logout_def entries_section_def
        stats_section_def reply_def same_arts_def Let_def split: if_splits)
qed

lemma routed_arts:
  assumes iv: "inv (world_of s)" and api: "si_api si = ap" and ro: "router_ok si" and q: "quiet_wait inv arts tu"
    and w: "\<not> may_write si r" and c: "\<not> valid_csrf si tu r" and run: "routed si tu r w0 s = (p, w', s')"
  shows "same_arts s s'"
proof (cases "si_router si (site_routes si) r")
  case (Route m pth h)
  have m: "m = ''*'' \<or> m = rq_method (r\<lparr>rq_hash := h\<rparr>)" using ro [unfolded router_ok_def, rule_format, OF Route] by simp
  have k: "health (r\<lparr>rq_hash := h\<rparr>) w0 s = (p, w', s') \<Longrightarrow> world_of s' = world_of s"
    by (simp add: health_def reply_def)
  from run Route show ?thesis
    using cache_route_arts [OF iv api m, of tu w0 p w' s'] ui_route_arts [OF iv _ q, of si "r\<lparr>rq_hash := h\<rparr>" pth w0 p w' s']
      login_get_world [of si tu "r\<lparr>rq_hash := h\<rparr>" w0 s p w' s'] login_post_world [of si tu "r\<lparr>rq_hash := h\<rparr>" w0 s p w' s']
      static_world [of si "r\<lparr>rq_hash := h\<rparr>" w0 s p w' s'] k same_arts_world [OF iv, of s'] w c
    unfolding routed_def Let_def by (simp split: if_splits)
qed (use run iv in \<open>auto simp: routed_def reply_def same_arts_def\<close>)

lemma site_arts:
  assumes iv: "inv (world_of s)" and api: "si_api si = ap" and ro: "router_ok si" and q: "quiet_wait inv arts tu"
    and w: "\<not> may_write si r" and c: "\<not> valid_csrf si tu r" and run: "site_handler si tu r w0 s = (p, w', s')"
  shows "same_arts s s'"
proof -
  from run obtain p2 w2 s2 where i: "inner_handler si tu r (guard_headers r w0) s = (p2, w2, s2)"
    "ss_api s' = ss_api s2" by (rule site_handler_inner)
  from i(1) have "same_arts s s2"
  proof (cases rule: inner_handler_cases)
    case (refused m cd x)
    with iv show ?thesis by (simp add: same_arts_def world_of_def)
  next
    case (passed d s1)
    from iv passed(1) have "inv (world_of s1)" by (simp add: world_of_def)
    from routed_arts [OF this api ro q _ _ passed(3)] w c passed(1) show ?thesis
      by (simp add: same_arts_def world_of_def)
  qed
  with i(2) show ?thesis by (simp add: same_arts_def world_of_def)
qed

end

text \<open>A sequence of requests, each with the readings of its turn.\<close>

primrec site_run :: "'w site \<Rightarrow> ('w turn \<times> request) list \<Rightarrow> 'w site_state \<Rightarrow> writer list \<times> 'w site_state" where
  "site_run si [] s = ([], s)"
| "site_run si (x # xs) s =
     (case site_handler si (fst x) (snd x) new_writer s of
        (p, w, s1) \<Rightarrow> (case site_run si xs s1 of (ws, s2) \<Rightarrow> (w # ws, s2)))"

definition stranger :: "'w site \<Rightarrow> 'w turn \<Rightarrow> request \<Rightarrow> bool" where [go_eval]:
  "stranger si tu r \<longleftrightarrow> \<not> may_write si r \<and> \<not> valid_csrf si tu r"

context api_env
begin

lemma site_run_arts:
  assumes "inv (world_of s)" and "si_api si = ap" and "router_ok si"
    and "\<forall>(tu, r) \<in> set xs. stranger si tu r \<and> quiet_wait inv arts tu"
    and "site_run si xs s = (ws, s')"
  shows "same_arts s s'"
  using assms(1,4,5)
proof (induction xs arbitrary: s ws)
  case Nil
  then show ?case by (simp add: same_arts_def)
next
  case (Cons x xs)
  obtain tu r where x: "x = (tu, r)" by fastforce
  obtain p w s1 where h: "site_handler si tu r new_writer s = (p, w, s1)" by (metis prod_cases3)
  obtain ws2 s2 where t: "site_run si xs s1 = (ws2, s2)" by fastforce
  from Cons.prems(2) x have "quiet_wait inv arts tu" "\<not> may_write si r" "\<not> valid_csrf si tu r"
    by (auto simp: stranger_def)
  from site_arts [OF Cons.prems(1) assms(2,3) this h] have 1: "same_arts s s1" .
  have s2: "s2 = s'" using Cons.prems(3) x h t by simp
  have "same_arts s1 s'" using Cons.IH [of s1 ws2] 1 Cons.prems(2) t s2 by (simp add: same_arts_def)
  with 1 show ?case by (simp add: same_arts_def)
qed

end


section \<open>Deleting an artifact\<close>

context api_env
begin

lemma delete_entry_outcome:
  assumes iv: "inv (world_of s)" and api: "si_api si = ap" and st: "wr_status w = None"
    and run: "delete_entry si tu r w s = (p, w', s')"
  shows "p = None \<and> inv (world_of s') \<and> status w' \<in> {303, 400, 403, 500}
    \<and> (status w' = 303 \<longleftrightarrow> valid_csrf si tu r \<and> valid_hash (rq_hash r)
          \<and> (\<exists>w1 w2. be_delete be [rq_hash r] (world_of s) = (None, w1) \<and> st_delete st [rq_hash r] w1 = (None, w2)))
    \<and> (status w' = 303 \<longrightarrow> arts (world_of s') = arts (world_of s) |` (- {rq_hash r})
          \<and> ents (world_of s') = ents (world_of s) |` (- {rq_hash r}))
    \<and> (status w' \<in> {400, 403} \<longrightarrow> s' = s)
    \<and> (\<forall>k. k \<noteq> rq_hash r \<longrightarrow> arts (world_of s') k = arts (world_of s) k \<and> ents (world_of s') k = ents (world_of s) k)"
proof (cases "valid_csrf si tu r \<and> valid_hash (rq_hash r)")
  case False
  with run iv st show ?thesis by (auto simp: delete_entry_def Let_def reply_def split: if_splits)
next
  case ok: True
  obtain e w1 where d: "be_delete be [rq_hash r] (world_of s) = (e, w1)" by fastforce
  obtain x w2 where t: "st_delete st [rq_hash r] w1 = (x, w2)" by fastforce
  have de: "ents w1 = ents (world_of s)" using delete_ents [OF iv d] .
  show ?thesis
  proof (cases e)
    case (Some a)
    note da = delete_error [OF iv d [unfolded Some]]
    from run ok d Some st have "p = None" "status w' = 500" "world_of s' = w1"
      by (auto simp: delete_entry_def Let_def reply_def api ap_backend)
    with da de d Some show ?thesis by auto
  next
    case None
    note da = delete_ok [OF iv d [unfolded None]]
    then have i1: "inv w1" by simp
    show ?thesis
    proof (cases x)
      case (Some a)
      note ta = del_error [OF i1 t [unfolded Some]]
      have "arts w2 = arts w1" using del_arts [OF i1 t] .
      moreover from run ok d t None Some st have "p = None" "status w' = 500" "world_of s' = w2"
        by (auto simp: delete_entry_def Let_def reply_def api ap_backend ap_store)
      ultimately show ?thesis using da ta de d t None Some by auto
    next
      case none: None
      note ta = del_ok [OF i1 t [unfolded none]]
      have "arts w2 = arts w1" using del_arts [OF i1 t] .
      moreover from run ok d t None none st have "p = None" "status w' = 303" "world_of s' = w2"
        by (auto simp: delete_entry_def Let_def reply_def redirect_msg_def api ap_backend ap_store)
      ultimately show ?thesis using da ta de d t None none ok by auto
    qed
  qed
qed

end

lemma server_delete_total: "\<exists>w'. be_delete server_backend hs w = (None, w')"
  by (simp add: server_backend_def on_disk_def memory_backend_def mem_delete_def)

lemma server_cat_delete_total: "\<exists>w'. st_delete (server_store u js now) hs w = (None, w')"
  by (simp add: server_store_def world_store_def notify_if_def on_cat_def object_store_def obj_delete_def Let_def
      split: prod.split)


section \<open>A concrete server\<close>

text \<open>A router for the routes whose pattern is the path, and for the paths of the cache.\<close>

definition example_router :: "(string \<times> string) list \<Rightarrow> request \<Rightarrow> route_match" where [go_eval]:
  "example_router rs r =
     (let m = rq_method r; pth = rq_path r in
      if (m, pth) \<in> set rs then Route m pth []
      else if has_prefix pth ''/v1/cache/'' \<and> (m, cache_path) \<in> set rs then Route m cache_path (drop 10 pth)
      else NoRoute)"

definition example_config :: config where [go_eval]:
  "example_config =
     \<lparr>cf_port = ''8080'', cf_log_level = ''info'', cf_log_format = ''text'', cf_aws_region = [], cf_aws_key_id = [],
      cf_aws_secret = [], cf_s3_bucket = [], cf_s3_endpoint = [], cf_s3_prefix = [], cf_s3_force_path = False,
      cf_create_bucket = False, cf_access_token = ''w'', cf_read_token = ''r'', cf_ui_username = ''admin'',
      cf_ui_password = ''pw'', cf_session_secret = ''k'', cf_secret_random = False, cf_session_secure = True,
      cf_trust_forwarded = False, cf_trusted_proxies = [], cf_allow_nets = [], cf_rate_rps = Num 0,
      cf_rate_burst = 0, cf_sqlite_path = [], cf_storage = ''memory'', cf_catalog = ''s3'', cf_catalog_flush = 0,
      cf_cache_ttl = 72 * hour, cf_cleanup_interval = hour, cf_cleanup_on_save = False, cf_max_upload = 100\<rparr>"

definition example_site :: "server_world site" where
  "example_site =
     \<lparr>si_api = server_api ascii_tables example_codec False 100 march_4, si_cfg = example_config,
      si_sessions = example_sessions, si_crypto = example_crypto, si_dates = no_dates, si_floats = exact_floats,
      si_unicode = ascii_tables, si_archive = example_archive, si_hub = wo_hub, si_poll_timeout = 30 * second,
      si_static = None, si_router = example_router,
      si_no_route = http_error ''404 page not found'' 404, si_wrong_method = write_header 405,
      si_login_page = (\<lambda>d. (''login'', False)), si_dashboard_page = (\<lambda>d. (''dashboard'', False)),
      si_entries_section = (\<lambda>d. (''entries'', False)), si_stats_section = (\<lambda>d. (''stats'', False))\<rparr>"

definition example_turn :: "server_world turn" where
  "example_turn =
     \<lparr>tu_limit = march_4, tu_timeout = march_4, tu_session = of_unix 60, tu_handler = of_unix 60, tu_gate = march_4,
      tu_failure = march_4, tu_cookie = of_unix 0, tu_stats = march_4, tu_view = march_4, tu_run = march_4,
      tu_cutoff = march_4, tu_notify = march_4, tu_clock = example_clock, tu_gate_order = (\<lambda>g. []),
      tu_list_order = [''a1''], tu_older_order = [''a1''], tu_backend_order = [''a1''],
      tu_visits = \<lparr>vs_entries = [''a1''], vs_kinds = [''build''], vs_days = [''2025-03-04'']\<rparr>,
      tu_wait = (\<lambda>d r w. ((True, hub_snapshot (wo_hub w), None), w))\<rparr>"

definition example_site_state :: "server_world site_state" where
  "example_site_state = \<lparr>ss_api = example_state, ss_limiter = None, ss_logins = None, ss_log = []\<rparr>"

lemma example_site_facts:
  "si_api example_site = server_api ascii_tables example_codec False 100 march_4"
  "router_ok example_site" "quiet_wait server_inv server_arts example_turn"
  "server_inv (world_of example_site_state)" "world_of example_site_state = example_world"
  by (auto simp: example_site_def router_ok_def example_router_def Let_def quiet_wait_def example_turn_def
      example_site_state_def world_of_def example_state_def example_world_inv split: if_splits)

text \<open>An upload with the read token, and a deletion by a session that presents its token.\<close>

definition example_reader_upload :: request where [go_eval]:
  "example_reader_upload = example_upload\<lparr>rq_header := [(''Content-Length'', [''3'']), (''Authorization'', [''Bearer r''])]\<rparr>"

definition example_delete :: request where
  "example_delete = example_session_request\<lparr>rq_method := ''POST'', rq_hash := ''a1'',
     rq_header := [(''X-Csrf-Token'', [csrf_token example_crypto example_sessions ''admin''])]\<rparr>"

lemma example_stranger: "stranger example_site example_turn example_reader_upload"
proof -
  have "username_from_request example_crypto example_sessions t example_reader_upload = None" for t
    by (simp add: username_from_request_def request_cookie_def example_reader_upload_def example_upload_def
        get_request_def)
  then have "\<not> valid_csrf example_site example_turn example_reader_upload"
    by (simp add: valid_csrf_def session_user_def example_site_def)
  moreover have "\<not> may_write example_site example_reader_upload"
  proof -
    have "header_value example_reader_upload ''Authorization'' = ''Bearer r''"
      by (simp add: header_value_def header_get_def example_reader_upload_def)
    moreover have "is_write example_reader_upload"
      by (simp add: is_write_def example_reader_upload_def example_upload_def)
    moreover have "fst (bearer_ok example_crypto ''Bearer r'' ''w'' ''r'' True) = False"
      by (simp add: bearer_ok_def has_prefix_def trim_prefix_def secure_eq_def example_crypto_def)
    moreover have "si_crypto example_site = example_crypto" "cf_access_token (si_cfg example_site) = ''w''"
      "cf_read_token (si_cfg example_site) = ''r''"
      by (simp_all add: example_site_def example_config_def)
    ultimately show ?thesis by (simp add: may_write_def token_check_def)
  qed
  ultimately show ?thesis by (simp add: stranger_def)
qed


lemma example_delete_csrf: "valid_csrf example_site example_turn example_delete"
proof -
  have "username_from_request example_crypto example_sessions (of_unix 60) example_delete = Some ''admin''"
    using example_login
    by (simp add: example_delete_def username_from_request_def request_cookie_def cong: option.case_cong)
  then show ?thesis
    by (simp add: valid_csrf_def session_user_def example_site_def example_turn_def example_delete_def
        header_value_def header_get_def valid_csrf_token_def csrf_token_def sign_def example_crypto_def
        example_sessions_def b64_encode_Nil)
qed


end
