(* ===== verification/Site_Responses.thy ===== *)
theory Site_Responses
  imports Site_Security
begin

text \<open>
  What the responses of the composed server have in common: the security headers, which refusals,
  errors and recovered panics carry as well, and the status of the dashboard and of a login.
\<close>

section \<open>Headers that protect every response\<close>

definition protections :: "(string \<times> string) list" where [go_eval]:
  "protections =
     [(''X-Content-Type-Options'', ''nosniff''), (''X-Frame-Options'', ''DENY''),
      (''Referrer-Policy'', ''no-referrer''), (''Content-Security-Policy'', csp)]"

text \<open>A header with all of them, and one that sets none of them to anything else.\<close>

definition protected_by :: "header \<Rightarrow> bool" where [go_eval]:
  "protected_by h \<longleftrightarrow> list_all (\<lambda>(k, v). gget h k = Some [v]) protections"

definition harmless :: "header \<Rightarrow> bool" where [go_eval]:
  "harmless h \<longleftrightarrow> list_all (\<lambda>(k, v). gget h k = None \<or> gget h k = Some [v]) protections"

definition own_key :: "string \<Rightarrow> bool" where [go_eval]:
  "own_key k \<longleftrightarrow> k \<notin> fst ` set protections"

lemma own_keys [simp]:
  "own_key ''Content-Type''" "own_key ''Content-Length''" "own_key ''Location''" "own_key ''Retry-After''"
  "own_key ''HX-Redirect''" "own_key ''Set-Cookie''" "own_key ''ETag''" "own_key ''Last-Modified''"
  "own_key ''Cache-Control''" "own_key ''Strict-Transport-Security''"
  by (simp_all add: own_key_def protections_def)

lemma own_key_apart: "own_key k \<Longrightarrow> (j, v) \<in> set protections \<Longrightarrow> j \<noteq> k"
  by (force simp: own_key_def)

lemma protected_gset [simp]: "own_key k \<Longrightarrow> protected_by (gset h k v) \<longleftrightarrow> protected_by h"
  unfolding protected_by_def by (rule list.pred_cong) (auto dest: own_key_apart)

lemma protected_gdel [simp]: "own_key k \<Longrightarrow> protected_by (gdel h k) \<longleftrightarrow> protected_by h"
  unfolding protected_by_def by (rule list.pred_cong) (auto dest: own_key_apart)

lemma harmless_gset [simp]: "own_key k \<Longrightarrow> harmless (gset h k v) \<longleftrightarrow> harmless h"
  unfolding harmless_def by (rule list.pred_cong) (auto dest: own_key_apart)

lemma harmless_gdel [simp]: "own_key k \<Longrightarrow> harmless (gdel h k) \<longleftrightarrow> harmless h"
  unfolding harmless_def by (rule list.pred_cong) (auto dest: own_key_apart)

lemma protected_header_set [simp]:
  "own_key k \<Longrightarrow> protected_by (header_set h k v) \<longleftrightarrow> protected_by h"
  "own_key k \<Longrightarrow> harmless (header_set h k v) \<longleftrightarrow> harmless h"
  by (simp_all add: header_set_def)

lemma protected_nosniff: "protected_by h \<Longrightarrow> protected_by (gset h ''X-Content-Type-Options'' [''nosniff''])"
  by (simp add: protected_by_def protections_def)

lemma harmless_nosniff: "harmless h \<Longrightarrow> harmless (gset h ''X-Content-Type-Options'' [''nosniff''])"
  by (simp add: harmless_def protections_def)

lemma harmless_Nil [simp]: "harmless []"
  by (simp add: harmless_def protections_def)

lemma protected_http_error: "protected_by (wr_header w) \<Longrightarrow> protected_by (wr_header (http_error m c w))"
  by (simp add: http_error_def header_set_def protected_nosniff)

lemma harmless_http_error: "harmless (wr_header w) \<Longrightarrow> harmless (wr_header (http_error m c w))"
  by (simp add: http_error_def header_set_def harmless_nosniff)

lemma gget_onto: "gget (foldr (\<lambda>(k, v) h. gset h k v) xs h) k = (case gget xs k of None \<Rightarrow> gget h k | Some v \<Rightarrow> Some v)"
  by (induction xs) (auto split: prod.split)

lemma protected_onto:
  assumes "protected_by (wr_header w)" and "harmless (wr_header wr)"
  shows "protected_by (wr_header (onto w wr))"
  using assms unfolding protected_by_def harmless_def list_all_iff onto_def
  by (fastforce simp: gget_onto split: option.split)

lemma protected_guard: "protected_by (wr_header (guard_headers r w))"
proof -
  have "protected_by (wr_header
     (set_header ''Content-Security-Policy'' csp
       (set_header ''Referrer-Policy'' ''no-referrer''
         (set_header ''X-Frame-Options'' ''DENY'' (set_header ''X-Content-Type-Options'' ''nosniff'' w)))))"
    by (simp add: protected_by_def protections_def header_set_def)
  then show ?thesis by (simp add: guard_headers_def Let_def header_set_def)
qed

text \<open>What the handlers of the cache set.\<close>

lemma harmless_constants: "harmless (wr_header internal_error)" "harmless (wr_header not_found)" "harmless (wr_header uploaded)"
  by (simp_all add: internal_error_def not_found_def uploaded_def harmless_http_error header_set_def)

lemma harmless_put_object: "put_object u al ap ck r sz s = (wr, s') \<Longrightarrow> harmless (wr_header wr)"
  unfolding put_object_def Let_def
  by (auto simp: harmless_constants harmless_http_error split: sum.splits prod.splits option.splits if_splits)

lemma harmless_put: "cache_put u al ap ck r s = (wr, s') \<Longrightarrow> harmless (wr_header wr)"
  unfolding cache_put_def Let_def
  by (auto simp: harmless_http_error dest: harmless_put_object split: prod.splits if_splits)

lemma harmless_get: "cache_get ap ck r s = (wr, s') \<Longrightarrow> harmless (wr_header wr)"
  unfolding cache_get_def Let_def
  by (auto simp: harmless_constants header_set_def split: sum.splits prod.splits if_splits)

lemma harmless_head: "cache_head ap r s = (wr, s') \<Longrightarrow> harmless (wr_header wr)"
  unfolding cache_head_def by (auto split: sum.splits prod.splits if_splits)

text \<open>
  The handlers that are parameters: neither the file server nor the router's own answers take a
  protection away.
\<close>

definition outside_protected :: "'w site \<Rightarrow> bool" where
  "outside_protected si \<longleftrightarrow>
     (\<forall>w. protected_by (wr_header w) \<longrightarrow>
        protected_by (wr_header (si_no_route si w)) \<and> protected_by (wr_header (si_wrong_method si w))
        \<and> (\<forall>files r. si_static si = Some files \<longrightarrow> protected_by (wr_header (snd (files r w)))))"

text \<open>The setters a handler composes its answer from.\<close>

lemma protected_setters [simp]:
  "protected_by (wr_header (write_header c w)) = protected_by (wr_header w)"
  "protected_by (wr_header (write_body b w)) = protected_by (wr_header w)"
  "protected_by (wr_header (http_redirect u c w)) = protected_by (wr_header w)"
  "protected_by (wr_header (redirect_msg m w)) = protected_by (wr_header w)"
  "protected_by (wr_header (set_cache_headers ht st w)) = protected_by (wr_header w)"
  "protected_by (wr_header (send_cookie ht ck w)) = protected_by (wr_header w)"
  by (simp_all add: http_redirect_def redirect_msg_def set_cache_headers_def send_cookie_def)

lemma protected_render: "render pg c w s = (p, w', s') \<Longrightarrow> protected_by (wr_header w') = protected_by (wr_header w)"
  by (auto simp: render_def reply_def)

lemma protected_show_data:
  assumes "show_data si tu what page prep r w s = (p, w', s')" "protected_by (wr_header w)"
    and "protected_by (wr_header (prep w))"
  shows "protected_by (wr_header w')"
  using assms unfolding show_data_def
  by (auto simp: reply_def protected_http_error split: outcome.splits dest: protected_render)

lemma protected_cache_handler:
  assumes "cache_handler h r w s = (p, w', s')" "protected_by (wr_header w)"
    and "\<And>wr a. h r (ss_api s) = (wr, a) \<Longrightarrow> harmless (wr_header wr)"
  shows "protected_by (wr_header w')"
  using assms by (auto simp: cache_handler_def reply_def protected_onto split: prod.splits)

lemma protected_poll_section:
  assumes "poll_section si tu what page r w s = (p, w', s')" "protected_by (wr_header w)"
  shows "protected_by (wr_header w')"
  using assms unfolding poll_section_def Let_def
  by (auto simp: reply_def split: prod.splits if_splits dest!: protected_show_data)

lemma protected_cache_route:
  assumes "cache_route si tu m r w s = (p, w', s')" "protected_by (wr_header w)"
  shows "protected_by (wr_header w')"
  using assms unfolding cache_route_def bearer_def
  by (auto simp: reply_def protected_http_error split: prod.splits if_splits
      elim!: protected_cache_handler dest: harmless_put harmless_get harmless_head)

lemma protected_login_post:
  assumes "login_post si tu r w s = (p, w', s')" "protected_by (wr_header w)"
  shows "protected_by (wr_header w')"
  using assms unfolding login_post_def Let_def
  by (auto simp: reply_def set_session_cookie_def split: prod.splits if_splits sum.splits dest: protected_render)

lemma protected_ui_route:
  assumes "ui_route si tu pth r w s = (p, w', s')" "protected_by (wr_header w)"
  shows "protected_by (wr_header w')"
proof (cases "username_from_request (si_crypto si) (si_sessions si) (tu_session tu) r")
  case None
  with assms show ?thesis
    by (auto simp: ui_route_def require_session_def reply_def protected_http_error split: if_splits)
next
  case (Some user)
  have dash: "dashboard si tu r w s = (p, w', s') \<Longrightarrow> protected_by (wr_header w')"
    using assms(2) unfolding dashboard_def by (auto dest!: protected_show_data)
  have clean: "cleanup_now si tu r w s = (p, w', s') \<Longrightarrow> protected_by (wr_header w')"
    using assms(2) unfolding cleanup_now_def Let_def
    by (auto simp: reply_def protected_http_error split: option.splits prod.splits sum.splits if_splits)
  have del: "delete_entry si tu r w s = (p, w', s') \<Longrightarrow> protected_by (wr_header w')"
    using assms(2) unfolding delete_entry_def Let_def
    by (auto simp: reply_def protected_http_error split: option.splits prod.splits if_splits)
  have out: "logout si tu r w s = (p, w', s') \<Longrightarrow> protected_by (wr_header w')"
    using assms(2) unfolding logout_def clear_session_cookie_def
    by (auto simp: reply_def protected_http_error split: if_splits)
  from Some assms dash clean del out show ?thesis
    unfolding ui_route_def require_session_def entries_section_def stats_section_def
    by (simp split: if_splits) (auto elim: protected_poll_section)
qed

lemma protected_routed:
  assumes "routed si tu r w s = (p, w', s')" "protected_by (wr_header w)" "outside_protected si"
  shows "protected_by (wr_header w')"
proof (cases "si_router si (site_routes si) r")
  case (Route m pth h)
  have st: "static_files si (r\<lparr>rq_hash := h\<rparr>) w s = (p, w', s') \<Longrightarrow> protected_by (wr_header w')"
    using assms(2,3) unfolding static_files_def outside_protected_def
    by (auto simp: reply_def protected_http_error split: option.splits if_splits prod.splits) (metis snd_conv)
  have lg: "login_get si tu (r\<lparr>rq_hash := h\<rparr>) w s = (p, w', s') \<Longrightarrow> protected_by (wr_header w')"
    using assms(2) unfolding login_get_def by (auto simp: reply_def split: if_splits dest: protected_render)
  have he: "health (r\<lparr>rq_hash := h\<rparr>) w s = (p, w', s') \<Longrightarrow> protected_by (wr_header w')"
    using assms(2) by (auto simp: health_def reply_def)
  from assms(1,2) Route st lg he
    protected_cache_route [of si tu m "r\<lparr>rq_hash := h\<rparr>" w s p w' s']
    protected_ui_route [of si tu pth "r\<lparr>rq_hash := h\<rparr>" w s p w' s']
    protected_login_post [of si tu "r\<lparr>rq_hash := h\<rparr>" w s p w' s']
  show ?thesis unfolding routed_def Let_def by (simp split: if_splits)
next
  case NoRoute
  with assms show ?thesis by (auto simp: routed_def reply_def outside_protected_def)
next
  case WrongMethod
  with assms show ?thesis by (auto simp: routed_def reply_def outside_protected_def)
qed

text \<open>
  C14: every response carries the headers against sniffing, framing, referrers and foreign scripts:
  answers of every route, refusals by the allow list or the rate limit, wrong methods, unknown paths and
  the answer after a recovered panic. (An aborted response is none.)
\<close>

theorem every_response_is_protected:
  assumes "outside_protected si" and "site_handler si tu r w s = (None, w', s')"
  shows "gget (wr_header w') ''X-Content-Type-Options'' = Some [''nosniff'']
    \<and> gget (wr_header w') ''X-Frame-Options'' = Some [''DENY'']
    \<and> gget (wr_header w') ''Referrer-Policy'' = Some [''no-referrer'']
    \<and> gget (wr_header w') ''Content-Security-Policy'' = Some [csp]"
proof -
  from assms(2) obtain p2 w2 s2 where i: "inner_handler si tu r (guard_headers r w) s = (p2, w2, s2)"
    "p2 = None \<Longrightarrow> w' = w2" "p2 = Some OtherPanic \<Longrightarrow> w' = http_error ''Internal Server Error'' 500 w2"
    "p2 \<noteq> Some AbortHandler"
    by (rule site_handler_inner) auto
  from i(1) have w2: "protected_by (wr_header w2)"
    by (cases rule: inner_handler_cases)
       (auto simp: protected_guard protected_http_error intro: protected_routed [OF _ protected_guard assms(1)])
  have "protected_by (wr_header w')"
  proof (cases p2)
    case None
    with i w2 show ?thesis by simp
  next
    case (Some x)
    with i(4) have "x = OtherPanic" by (cases x) simp_all
    with Some i w2 show ?thesis by (simp add: protected_http_error)
  qed
  then show ?thesis by (simp add: protected_by_def protections_def)
qed

section \<open>Logging in\<close>

lemma status_render [simp]: "wr_status w = None \<Longrightarrow> render pg c w s = (p, w', s') \<Longrightarrow> status w' = c \<and> p = None"
  by (auto simp: render_def reply_def)

lemma cookie_after_render: "render pg c w s = (p, w', s') \<Longrightarrow> gget (wr_header w') ''Set-Cookie'' = gget (wr_header w) ''Set-Cookie''"
  by (auto simp: render_def reply_def header_set_def)

lemma wr_status_cookie [simp]: "wr_status (send_cookie ht c w) = wr_status w"
  by (simp add: send_cookie_def)

text \<open>How a login ends: locked out, an unreadable form, wrong credentials, or a session.\<close>

lemma login_post_cases:
  assumes "login_post si tu r new_writer s = (p, w', s')"
    and "gate_allow (tu_gate tu) (site_ip (si_cfg si) r) (ss_logins s) = (ok, g)"
  obtains (refused) c where "\<not> (ok \<and> (\<exists>f. rq_form r = Inr f) \<and> login_ok si r)" "p = None" "status w' = c"
      "c \<in> {400, 401, 429}" "gget (wr_header w') ''Set-Cookie'' = None"
  | (right) f where "ok" "rq_form r = Inr f" "login_ok si r" "p = None"
      "w' = http_redirect ''/'' 303 (set_session_cookie (si_dates si) (si_crypto si) (si_sessions si) (tu_cookie tu)
              (cf_ui_username (si_cfg si)) new_writer)"
proof -
  note run = assms(1) [unfolded login_post_def Let_def assms(2) prod.case]
  have refuse: "p = None \<and> status w' = c \<and> gget (wr_header w') ''Set-Cookie'' = None"
    if "render pg c new_writer s1 = (p, w', s')" for pg c s1
    using status_render [OF _ that] cookie_after_render [OF that] by simp
  consider (locked) "\<not> ok" | (form) e where "ok" "rq_form r = Inl e"
    | (wrong) f where "ok" "rq_form r = Inr f" "\<not> login_ok si r"
    | (right) f where "ok" "rq_form r = Inr f" "login_ok si r"
    by (cases "rq_form r") auto
  then show ?thesis
  proof cases
    case locked
    with run have "p = None \<and> status w' = 429 \<and> gget (wr_header w') ''Set-Cookie'' = None" by (intro refuse) simp
    with locked show ?thesis by (intro refused [of 429]) simp_all
  next
    case form
    with run have "p = None \<and> status w' = 400 \<and> gget (wr_header w') ''Set-Cookie'' = None" by (intro refuse) simp
    with form show ?thesis by (intro refused [of 400]) simp_all
  next
    case wrong
    with run have "p = None \<and> status w' = 401 \<and> gget (wr_header w') ''Set-Cookie'' = None" by (intro refuse) simp
    with wrong show ?thesis by (intro refused [of 401]) simp_all
  next
    case right
    with run show ?thesis by (intro that(2) [of f]) (simp_all add: reply_def login_ok_def)
  qed
qed


section \<open>The page parameter\<close>

lemma server_list:
  "st_list (server_store u js now) ord q l off w = obj_list u ord q l off (wo_cat w)"
  by (simp add: server_store_def world_store_def object_store_sel)

lemma server_stats: "\<exists>x. st_stats (server_store u js now) vs t w = Inr x"
  by (simp add: server_store_def world_store_def object_store_sel obj_stats_def Let_def)

lemma list_outcome:
  assumes "obj_inv o'" and "visit_order ord (oc_entries o')" and "int (length (oc_entries o')) + 25 < 2 ^ 63"
  shows "if off < 0 then obj_list u ord q 25 off o' = Panic else \<exists>x. obj_list u ord q 25 off o' = Ret x"
proof (cases "off < 0")
  case True
  then show ?thesis unfolding obj_list_listing Let_def by auto
next
  case False
  with assms length_listing [OF assms(1,2), of u q] obj_list_Ret [of off 25 u ord q o'] show ?thesis by simp
qed

lemma dashboard_data_outcome:
  assumes "server_inv (world_of s)" and "si_api si = server_api u js on_save mx now"
    and "cat_order (tu_list_order tu) (world_of s)"
    and "int (length (oc_entries (wo_cat (world_of s)))) + 25 < 2 ^ 63"
  shows "if wrap64 (wrap64 (current_page r - 1) * 25) < 0 then dashboard_data si tu r s = Panic
    else \<exists>d. dashboard_data si tu r s = Ret d"
proof -
  let ?off = "wrap64 (wrap64 (current_page r - 1) * 25)"
  have io: "obj_inv (wo_cat (world_of s))" "visit_order (tu_list_order tu) (oc_entries (wo_cat (world_of s)))"
    using assms(1,3) by (simp_all add: server_inv_def cat_order_def)
  note l = list_outcome [OF io assms(4), of ?off u "trim_space (query_get r ''q'')"]
  obtain x where x: "st_stats (server_store u js now) (tu_visits tu) (tu_stats tu) (world_of s) = Inr x"
    using server_stats by blast
  have st: "ap_store (si_api si) = server_store u js now" by (simp add: assms(2) server_api_def)
  from l show ?thesis
    by (auto simp: dashboard_data_def Let_def st server_list page_size_def x)
qed

text \<open>
  C15: the page parameter of the dashboard. The offset \<open>(page - 1) * 25\<close> is computed in 64 bits: a page
  number large enough to make it wrap to a negative number makes \<open>List\<close> panic, which is answered with 500;
  every other request, a page beyond the last one and an unreadable number included, is answered with 200.
  Neither changes anything.
\<close>

theorem dashboard_status:
  assumes "server_inv (world_of s)" and "si_api si = server_api u js on_save mx now"
    and "cat_order (tu_list_order tu) (world_of s)"
    and "int (length (oc_entries (wo_cat (world_of s)))) + 25 < 2 ^ 63"
    and "recoverer (dashboard si tu) r new_writer s = (p, w', s')"
  shows "p = None \<and> world_of s' = world_of s
    \<and> status w' = (if wrap64 (wrap64 (current_page r - 1) * 25) < 0 then 500 else 200)"
proof (cases "wrap64 (wrap64 (current_page r - 1) * 25) < 0")
  case True
  with dashboard_data_outcome [OF assms(1-4), of r] have "dashboard si tu r new_writer s = (Some OtherPanic, new_writer, s)"
    by (simp add: dashboard_def show_data_def)
  with assms(5) True show ?thesis by (auto simp: recoverer_def)
next
  case False
  with dashboard_data_outcome [OF assms(1-4), of r] obtain d where "dashboard_data si tu r s = Ret d" by auto
  then have "dashboard si tu r new_writer s = render (si_dashboard_page si d) 200
      (set_cache_headers (si_dates si) (hub_snapshot (si_hub si (world_of s))) new_writer) s"
    by (simp add: dashboard_def show_data_def)
  with assms(5) False show ?thesis
    by (auto simp: recoverer_def render_def reply_def set_cache_headers_def)
qed

section \<open>Concrete requests\<close>

lemma example_outside: "outside_protected example_site"
  by (simp add: outside_protected_def example_site_def protected_http_error)

theorem every_response_is_protected_witness:
  "\<exists>w' s'. site_handler example_site example_turn (get_request ''/health'') new_writer example_site_state = (None, w', s')
     \<and> gget (wr_header w') ''X-Frame-Options'' = Some [''DENY'']"
proof -
  have "si_router example_site (site_routes example_site) (get_request ''/health''\<lparr>rq_deadline := d\<rparr>)
      = Route ''GET'' ''/health'' []" for d
    by (simp add: example_site_def example_router_def site_routes_def get_request_def)
  then have h: "routed example_site example_turn (get_request ''/health''\<lparr>rq_deadline := d\<rparr>) w s
      = health (get_request ''/health''\<lparr>rq_deadline := d, rq_hash := []\<rparr>) w s" for d w s
    by (simp add: routed_def cache_routes_def ui_routes_def cache_path_def delete_path_def)
  obtain p w' s' where r: "site_handler example_site example_turn (get_request ''/health'') new_writer example_site_state
      = (p, w', s')" by (metis prod_cases3)
  from r have "p = None"
  proof (rule site_handler_inner)
    fix p2 w2 s2
    assume i: "inner_handler example_site example_turn (get_request ''/health'')
        (guard_headers (get_request ''/health'') new_writer) example_site_state = (p2, w2, s2)"
      and n: "p2 = None \<Longrightarrow> p = None \<and> w' = w2"
    from i have "p2 = None" by (cases rule: inner_handler_cases) (auto simp: h health_def reply_def)
    with n show "p = None" by simp
  qed
  with r every_response_is_protected [OF example_outside, of example_turn "get_request ''/health''"] show ?thesis
    by blast
qed

definition example_login_form :: request where
  "example_login_form = (get_request ''/login'')\<lparr>rq_method := ''POST'',
     rq_form := Inr [(''username'', [''admin'']), (''password'', [''pw''])]\<rparr>"

lemma example_site_names:
  "se_username (si_sessions example_site) = cf_ui_username (si_cfg example_site)"
  "cf_ui_username (si_cfg example_site) = ''admin''" "tu_cookie example_turn = of_unix 0"
  by (simp_all add: example_site_def example_sessions_def example_config_def example_turn_def)


definition example_page :: "string \<Rightarrow> request" where
  "example_page n = (get_request ''/'')\<lparr>rq_query := [(''page'', [n])]\<rparr>"

theorem dashboard_status_witness:
  "\<exists>w' s'. recoverer (dashboard example_site example_turn) (example_page (int_str 368934881474191034)) new_writer
       example_site_state = (None, w', s') \<and> status w' = 500
   \<and> (\<exists>w2 s2. recoverer (dashboard example_site example_turn) (example_page (int_str 3)) new_writer
       example_site_state = (None, w2, s2) \<and> status w2 = 200)"
proof -
  have page: "current_page (example_page (int_str n)) = (if n < 1 then 1 else n)" if "in64 n" for n
    using parse_int_str [OF that]
    by (simp add: current_page_def example_page_def query_get_def header_get_def Let_def)
  have big: "current_page (example_page (int_str 368934881474191034)) = 368934881474191034"
    "current_page (example_page (int_str 3)) = 3"
    using page [of 368934881474191034] page [of 3] by (simp_all add: in64_def)
  have ord: "cat_order (tu_list_order example_turn) (world_of example_site_state)"
    using example_order by (simp add: cat_order_def example_site_facts(5) example_turn_def example_world_def)
  have len: "int (length (oc_entries (wo_cat (world_of example_site_state)))) + 25 < 2 ^ 63"
    by (simp add: example_site_facts(5) example_world_def example_entries)
  note d = dashboard_status [OF example_site_facts(4,1) ord len]
  obtain p w' s' where a: "recoverer (dashboard example_site example_turn)
      (example_page (int_str 368934881474191034)) new_writer example_site_state = (p, w', s')" by (metis prod_cases3)
  obtain q w2 s2 where b: "recoverer (dashboard example_site example_turn)
      (example_page (int_str 3)) new_writer example_site_state = (q, w2, s2)" by (metis prod_cases3)
  from d [OF a] d [OF b] a b show ?thesis unfolding big by (simp add: wrap64_def)
qed

end
