(* ===== verification/Site_State.thy ===== *)
theory Site_State
  imports Site_Security
begin

text \<open>
  The state of the server over any traffic, whoever sends it: every handler of
  \<open>internal/httpserver/server.go\<close> keeps the invariants of the parts it is composed of, whether it
  answers, fails half-way or panics.
\<close>

section \<open>A well-typed state\<close>

definition gate_ok :: "login_gate option \<Rightarrow> bool" where [go_eval]:
  "gate_ok go =
     (case go of None \<Rightarrow> True | Some g \<Rightarrow> gwf (lg_by_ip g) \<and> int (length (lg_by_ip g)) \<le> gate_limit g)"

text \<open>The visiting order of a turn names every address of the table it is asked for.\<close>

definition gate_order_ok :: "'w turn \<Rightarrow> bool" where
  "gate_order_ok tu \<longleftrightarrow> (\<forall>g. fst ` set (lg_by_ip g) \<subseteq> set (tu_gate_order tu g))"

text \<open>Whatever runs while a request waits keeps the invariant.\<close>

definition wait_keeps :: "('w \<Rightarrow> bool) \<Rightarrow> 'w turn \<Rightarrow> bool" where
  "wait_keeps iv tu \<longleftrightarrow> (\<forall>d r w. iv w \<longrightarrow> iv (snd (tu_wait tu d r w)))"

definition typed :: "('w \<Rightarrow> bool) \<Rightarrow> 'w site_state \<Rightarrow> bool" where
  "typed iv s \<longleftrightarrow> iv (world_of s) \<and> gate_ok (ss_logins s)"

lemma typedI: "iv (world_of s) \<Longrightarrow> gate_ok (ss_logins s) \<Longrightarrow> typed iv s"
  by (simp add: typed_def)

lemma typed_simps [simp]:
  "typed iv (site_log l m s) = typed iv s" "typed iv (s\<lparr>ss_limiter := k\<rparr>) = typed iv s"
  "typed iv (set_world w s) \<longleftrightarrow> iv w \<and> gate_ok (ss_logins s)"
  "typed iv (s\<lparr>ss_api := a\<rparr>) \<longleftrightarrow> iv (as_world a) \<and> gate_ok (ss_logins s)"
  "typed iv (s\<lparr>ss_logins := g\<rparr>) \<longleftrightarrow> iv (world_of s) \<and> gate_ok g"
  by (simp_all add: typed_def) (simp add: world_of_def)

section \<open>The login gate\<close>

lemma gate_ok_allow: "gate_ok go \<Longrightarrow> gate_allow now ip go = (ok, go') \<Longrightarrow> gate_ok go'"
  by (auto simp: gate_allow_def gate_ok_def gate_limit_def ghas_def length_gset_mem split: option.splits)

lemma gate_ok_success: "gate_ok go \<Longrightarrow> gate_ok (gate_success ip go)"
  by (auto simp: gate_success_def gate_ok_def gate_limit_def split: option.splits
      intro: order_trans [OF of_nat_mono [OF length_gdel_le]])

lemma gate_ok_failure:
  assumes "gate_ok go" and "\<And>g. fst ` set (lg_by_ip g) \<subseteq> set (ord g)"
  shows "gate_ok (gate_failure ord now ip go)"
proof (cases go)
  case None
  then show ?thesis by (simp add: gate_failure_def gate_ok_def)
next
  case (Some g)
  with assms(1) have "gwf (lg_by_ip g)" "int (length (lg_by_ip g)) \<le> gate_limit g" by (simp_all add: gate_ok_def)
  from gate_failure_size [OF this assms(2), of now ip] Some show ?thesis by (auto simp: gate_ok_def)
qed

section \<open>Handlers\<close>

lemma typed_render: "typed iv s \<Longrightarrow> render page code w s = (p, w', s') \<Longrightarrow> typed iv s'"
  by (auto simp: render_def reply_def)

lemma typed_show_data: "typed iv s \<Longrightarrow> show_data si tu what page prep r w s = (p, w', s') \<Longrightarrow> typed iv s'"
  by (auto simp: show_data_def reply_def split: outcome.splits dest: typed_render)

lemma typed_login_get: "typed iv s \<Longrightarrow> login_get si tu r w s = (p, w', s') \<Longrightarrow> typed iv s'"
  by (auto simp: login_get_def reply_def split: if_splits dest: typed_render)

lemma typed_static: "typed iv s \<Longrightarrow> static_files si r w s = (p, w', s') \<Longrightarrow> typed iv s'"
  by (auto simp: static_files_def reply_def split: option.splits if_splits prod.splits)

lemma typed_login_post:
  assumes "typed iv s" and "gate_order_ok tu" and "login_post si tu r w s = (p, w', s')"
  shows "typed iv s'"
proof -
  obtain ok g where g: "gate_allow (tu_gate tu) (site_ip (si_cfg si) r) (ss_logins s) = (ok, g)" by fastforce
  with assms(1) have "gate_ok g" by (auto simp: typed_def dest: gate_ok_allow)
  with assms(1) have 1: "typed iv (s\<lparr>ss_logins := g\<rparr>)" by (simp add: typed_def)
  have "gate_ok (gate_failure (tu_gate_order tu) (tu_failure tu) (site_ip (si_cfg si) r) g)"
    using \<open>gate_ok g\<close> assms(2) by (intro gate_ok_failure) (simp_all add: gate_order_ok_def)
  with assms(1) have 2: "typed iv (s\<lparr>ss_logins := gate_failure (tu_gate_order tu) (tu_failure tu) (site_ip (si_cfg si) r) g\<rparr>)"
    by (simp add: typed_def)
  from assms(1) \<open>gate_ok g\<close> have 3: "typed iv (s\<lparr>ss_logins := gate_success (site_ip (si_cfg si) r) g\<rparr>)"
    by (simp add: typed_def gate_ok_success)
  have logged: "typed iv (site_log l m x)" if "typed iv x" for l m x using that by simp
  note l = assms(3) [unfolded login_post_def Let_def g prod.case]
  show ?thesis
  proof (cases "ok \<and> (\<exists>f. rq_form r = Inr f)")
    case False
    with l show ?thesis
      by (auto split: if_splits sum.splits intro: typed_render [OF 1] typed_render [OF logged [OF 1]])
  next
    case True
    with l 3 show ?thesis
      by (auto simp: reply_def simp del: typed_simps(5) split: if_splits intro: typed_render [OF logged [OF 2]])
  qed
qed

lemma typed_poll_section:
  assumes "typed iv s" and "wait_keeps iv tu" and "poll_section si tu what page r w s = (p, w', s')"
  shows "typed iv s'"
proof -
  obtain m st e w1 where t: "tu_wait tu (poll_timeout si) r (world_of s) = ((m, st, e), w1)"
    by (metis prod_cases3 surj_pair)
  with assms(1,2) have "iv w1" by (metis wait_keeps_def typed_def snd_conv)
  with assms(1) have 1: "typed iv (set_world w1 s)" by (simp add: typed_def)
  with assms(3) t show ?thesis
    by (auto simp: poll_section_def Let_def reply_def simp del: typed_simps split: if_splits
        intro: typed_show_data [OF 1])
qed

context server_env
begin

lemma run_inv:
  assumes "inv w" and "cleaner_run be st now1 now2 cord ord c w = (res, c', w')"
  shows "inv w'"
proof -
  have list: "inv w1" if "be_list be ord w = (z, w1)" for z w1 using list_frame [OF assms(1) that] by simp
  have del: "inv w2" if "inv w1" "be_delete be hs w1 = (x, w2)" for hs x w1 w2 using delete_inv [OF that] .
  have cat: "inv w2" if "inv w1" "st_delete st hs w1 = (x, w2)" for hs x w1 w2
    using that del_ok del_error by (cases x) blast+
  from assms(2) show ?thesis
    by (cases rule: cleaner_run_cases) (use assms(1) list del cat in blast)+
qed

end

context api_env
begin

lemma typed_cache_route:
  assumes t: "typed inv s" and api: "si_api si = ap" and run: "cache_route si tu m r w s = (p, w', s')"
  shows "typed inv s'"
proof -
  from t have iv: "inv (as_world (ss_api s))" and g: "gate_ok (ss_logins s)" by (simp_all add: typed_def world_of_def)
  have "inv (as_world (ss_api s')) \<and> ss_logins s' = ss_logins s"
    using run iv unfolding cache_route_def bearer_def cache_handler_def reply_def api
    by (auto split: prod.splits if_splits
        dest: cache_put_outcome(1) [OF iv] cache_get_outcome [OF iv] cache_head_outcome [OF iv])
  with g show ?thesis by (simp add: typed_def world_of_def)
qed

lemma typed_cleanup_now:
  assumes t: "typed inv s" and api: "si_api si = ap" and run: "cleanup_now si tu r w s = (p, w', s')"
  shows "typed inv s'"
proof (cases "valid_csrf si tu r \<and> as_cleaner (ss_api s) \<noteq> None")
  case False
  with run t show ?thesis by (auto simp: cleanup_now_def reply_def split: if_splits)
next
  case True
  then obtain c where c: "as_cleaner (ss_api s) = Some c" "valid_csrf si tu r" by blast
  obtain res c' w1 where cr: "cleaner_run be st (tu_run tu) (tu_cutoff tu) (tu_older_order tu) (tu_backend_order tu) c
      (world_of s) = (res, c', w1)" by (metis prod_cases3)
  from t have "inv w1" "gate_ok (ss_logins s)" using run_inv [OF _ cr] by (simp_all add: typed_def)
  with run c cr show ?thesis
    by (auto simp: cleanup_now_def reply_def Let_def api ap_backend ap_store typed_def notify_inv split: sum.splits)
qed

lemma typed_delete_entry:
  assumes t: "typed inv s" and api: "si_api si = ap" and run: "delete_entry si tu r w s = (p, w', s')"
  shows "typed inv s'"
proof -
  from t have iv: "inv (world_of s)" and g: "gate_ok (ss_logins s)" by (simp_all add: typed_def)
  obtain e w1 where d: "be_delete be [rq_hash r] (world_of s) = (e, w1)" by fastforce
  have i1: "inv w1" using delete_inv [OF iv d] .
  obtain x w2 where c: "st_delete st [rq_hash r] w1 = (x, w2)" by fastforce
  have i2: "inv w2" using del_ok [OF i1] del_error [OF i1] c by (cases x) blast+
  from run t g i1 i2 d c show ?thesis
    by (auto simp: delete_entry_def Let_def reply_def api ap_backend ap_store split: if_splits option.splits)
qed

lemma typed_ui_route:
  assumes t: "typed inv s" and api: "si_api si = ap" and q: "wait_keeps inv tu"
    and run: "ui_route si tu pth r w s = (p, w', s')"
  shows "typed inv s'"
proof -
  from run consider (out) "s' = s" | (dash) "dashboard si tu r w s = (p, w', s')"
    | (ent) "entries_section si tu r w s = (p, w', s')" | (stat) "stats_section si tu r w s = (p, w', s')"
    | (clean) "cleanup_now si tu r w s = (p, w', s')" | (del) "delete_entry si tu r w s = (p, w', s')"
    by (auto simp: ui_route_def require_session_def logout_def reply_def split: if_splits)
  then show ?thesis
  proof cases
    case dash
    with t show ?thesis by (auto simp: dashboard_def dest: typed_show_data)
  next
    case ent
    with typed_poll_section [OF t q] show ?thesis by (simp add: entries_section_def)
  next
    case stat
    with typed_poll_section [OF t q] show ?thesis by (simp add: stats_section_def)
  qed (use t typed_cleanup_now [OF t api] typed_delete_entry [OF t api] in auto)
qed

lemma typed_routed:
  assumes t: "typed inv s" and api: "si_api si = ap" and q: "wait_keeps inv tu" and o: "gate_order_ok tu"
    and run: "routed si tu r w s = (p, w', s')"
  shows "typed inv s'"
proof (cases "si_router si (site_routes si) r")
  case (Route m pth h)
  let ?r = "r\<lparr>rq_hash := h\<rparr>"
  from run Route consider "cache_route si tu m ?r w s = (p, w', s')" | "ui_route si tu pth ?r w s = (p, w', s')"
    | "login_get si tu ?r w s = (p, w', s')" | "login_post si tu ?r w s = (p, w', s')"
    | "health ?r w s = (p, w', s')" | "static_files si ?r w s = (p, w', s')"
    unfolding routed_def Let_def by (simp split: if_splits)
  then show ?thesis
  proof cases
    case 1
    then show ?thesis by (rule typed_cache_route [OF t api])
  next
    case 2
    then show ?thesis by (rule typed_ui_route [OF t api q])
  next
    case 3
    then show ?thesis by (rule typed_login_get [OF t])
  next
    case 4
    then show ?thesis by (rule typed_login_post [OF t o])
  next
    case 5
    with t show ?thesis by (simp add: health_def reply_def)
  next
    case 6
    then show ?thesis by (rule typed_static [OF t])
  qed
qed (use run t in \<open>auto simp: routed_def reply_def\<close>)

lemma typed_site:
  assumes t: "typed inv s" and api: "si_api si = ap" and q: "wait_keeps inv tu" and o: "gate_order_ok tu"
    and run: "site_handler si tu r w s = (p, w', s')"
  shows "typed inv s'"
proof -
  from run obtain p2 w2 s2 where i: "inner_handler si tu r (guard_headers r w) s = (p2, w2, s2)"
    "ss_api s' = ss_api s2" "ss_logins s' = ss_logins s2" by (rule site_handler_inner)
  from i(1) have "typed inv s2"
  proof (cases rule: inner_handler_cases)
    case (refused m cd x)
    with t show ?thesis by (simp add: typed_def world_of_def)
  next
    case (passed d s1)
    with t have "typed inv s1" by (simp add: typed_def world_of_def)
    from typed_routed [OF this api q o passed(3)] show ?thesis .
  qed
  with i show ?thesis by (simp add: typed_def world_of_def)
qed

lemma typed_site_run:
  assumes "typed inv s" and "si_api si = ap" and "\<forall>(tu, r) \<in> set xs. wait_keeps inv tu \<and> gate_order_ok tu"
    and "site_run si xs s = (ws, s')"
  shows "typed inv s'"
  using assms(1,3,4)
proof (induction xs arbitrary: s ws)
  case (Cons x xs)
  obtain tu r where x: "x = (tu, r)" by fastforce
  obtain p w s1 where h: "site_handler si tu r new_writer s = (p, w, s1)" by (metis prod_cases3)
  obtain ws2 s2 where t: "site_run si xs s1 = (ws2, s2)" by fastforce
  from Cons.prems(2) x have q: "wait_keeps inv tu" "gate_order_ok tu" by auto
  from typed_site [OF Cons.prems(1) assms(2) q h] have "typed inv s1" .
  with Cons.IH [of s1 ws2] Cons.prems(2,3) x h t show ?case by simp
qed simp

end

section \<open>The server\<close>

text \<open>
  C11: the state of the server stays well-typed under any traffic. Whatever requests arrive, with or
  without credentials, in any order, answered, failed half-way or panicking: every artifact and every
  metadata document is stored under one key, every catalog entry is filed under its own non-empty hash
  with a size and a hit count of 64 bits, the counters stay the sums of the days, and the table of login
  attempts stays within its limit.
\<close>

theorem site_stays_well_typed:
  assumes "server_inv (world_of s)" and "gate_ok (ss_logins s)" and "si_api si = server_api u js on_save mx now"
    and "\<forall>(tu, r) \<in> set xs. wait_keeps server_inv tu \<and> gate_order_ok tu"
    and "site_run si xs s = (ws, s')"
  shows "server_inv (world_of s') \<and> gate_ok (ss_logins s')
    \<and> (\<forall>h e. server_ents (world_of s') h = Some e \<longrightarrow>
         en_hash e = h \<and> h \<noteq> [] \<and> in64 (en_size e) \<and> in64 (en_hits e))"
proof -
  have "typed server_inv s" using assms(1,2) by (rule typedI)
  from srv.typed_site_run [OF this assms(3-5)] have "server_inv (world_of s')" "gate_ok (ss_logins s')"
    by (simp_all add: typed_def)
  then show ?thesis by (auto simp: server_inv_def server_ents_def entry_ok_def dest: obj_ents_ok)
qed

text \<open>A failed login that fills the table, and then a deletion.\<close>

definition example_full_gate :: login_gate where [go_eval]:
  "example_full_gate =
     (new_login_gate 5 (30 * second))\<lparr>lg_max_map := 1,
        lg_by_ip := [(''10.0.0.1'', \<lparr>la_fails = 1, la_until = 0, la_seen = march_4\<rparr>)]\<rparr>"

definition example_busy_turn :: "server_world turn" where
  "example_busy_turn = example_turn\<lparr>tu_gate_order := (\<lambda>g. map fst (lg_by_ip g))\<rparr>"

definition example_wrong_login :: request where
  "example_wrong_login = (get_request ''/login'')\<lparr>rq_method := ''POST'', rq_form := Inr [(''username'', [''admin''])]\<rparr>"

theorem site_stays_well_typed_witness:
  "\<exists>ws s'. site_run example_site [(example_busy_turn, example_wrong_login), (example_busy_turn, example_delete)]
       (example_site_state\<lparr>ss_logins := Some example_full_gate\<rparr>) = (ws, s')
     \<and> server_inv (world_of s') \<and> gate_ok (ss_logins s')"
proof -
  let ?s = "example_site_state\<lparr>ss_logins := Some example_full_gate\<rparr>"
  let ?xs = "[(example_busy_turn, example_wrong_login), (example_busy_turn, example_delete)]"
  obtain ws s' where r: "site_run example_site ?xs ?s = (ws, s')" by fastforce
  have i: "server_inv (world_of ?s)" using example_site_facts(4) by simp
  have g: "gate_ok (ss_logins ?s)"
    by (simp add: gate_ok_def example_full_gate_def gate_limit_def gwf_def)
  have q: "\<forall>(tu, r) \<in> set ?xs. wait_keeps server_inv tu \<and> gate_order_ok tu"
    by (simp add: wait_keeps_def gate_order_ok_def example_busy_turn_def example_turn_def)
  from site_stays_well_typed [OF i g example_site_facts(1) q r] r show ?thesis by blast
qed

end
