(* ===== verification/Upload_Race.thy ===== *)
theory Upload_Race
  imports Cache_Protocol Cleanup
begin

text \<open>
  Uploads that run at the same time: \<open>Put\<close> of \<open>internal/cacheapi/handler.go\<close> as a sequence of the calls
  it makes to the backend and the catalog, each atomic, interleaved with those of other uploads, with
  downloads and with removals.
\<close>

section \<open>The calls of one upload\<close>

text \<open>The next call: the existence check, the write, the catalog entry, the removal after a failed entry.\<close>

datatype put_phase = Checking | Writing | Recording string | Rolling_Back | Answered writer

definition conflict :: writer where [go_eval]:
  "conflict = http_error ''Cannot override an existing record'' 409 new_writer"

definition put_step ::
  "unicode_tables \<Rightarrow> archive_lib \<Rightarrow> 'w api \<Rightarrow> api_clock \<Rightarrow> request \<Rightarrow> int \<Rightarrow> put_phase \<Rightarrow> 'w \<Rightarrow> put_phase \<times> 'w" where [go_eval]:
  "put_step u al ap ck r sz ph w =
     (let be = ap_backend ap; st = ap_store ap; h = rq_hash r in
      case ph of
        Checking \<Rightarrow>
          (case be_exists be h w of
             (Inl e, w1) \<Rightarrow> (Answered internal_error, w1)
           | (Inr ex, w1) \<Rightarrow> (if ex then Answered conflict else Writing, w1))
      | Writing \<Rightarrow>
          (case be_put be h (rq_body r) sz (ck_put ck) w of
             (None, c, w1) \<Rightarrow> (Recording c, w1)
           | (Some e, c, w1) \<Rightarrow>
               (Answered (if e = ErrExists then conflict
                          else if e = ErrIncomplete then http_error ''upload did not match Content-Length'' 400 new_writer
                          else internal_error), w1))
      | Recording c \<Rightarrow>
          (case st_upsert st h sz (ck_now ck)
                  (merge_info u (from_headers u (rq_header r)) (inspect u al \<lparr>rd_data = c, rd_err = None\<rparr>)) w of
             (Some e, w1) \<Rightarrow> (Rolling_Back, w1) | (None, w1) \<Rightarrow> (Answered uploaded, w1))
      | Rolling_Back \<Rightarrow> (Answered internal_error, snd (be_delete be [h] w))
      | Answered wr \<Rightarrow> (Answered wr, w))"

definition put_steps ::
  "unicode_tables \<Rightarrow> archive_lib \<Rightarrow> 'w api \<Rightarrow> api_clock \<Rightarrow> request \<Rightarrow> int \<Rightarrow> nat \<Rightarrow> 'w \<Rightarrow> put_phase \<times> 'w" where [go_eval]:
  "put_steps u al ap ck r sz n w = ((\<lambda>(ph, w). put_step u al ap ck r sz ph w) ^^ n) (Checking, w)"

text \<open>Undisturbed, the calls are the handler: four of them are enough.\<close>

lemma put_steps_handler:
  assumes "put_object u al ap ck r sz s = (wr, s')"
  shows "put_steps u al ap ck r sz 4 (as_world s) = (Answered wr, as_world s')"
  using assms unfolding put_steps_def put_object_def Let_def
  by (auto simp: numeral_eq_Suc put_step_def conflict_def split: prod.splits sum.splits option.splits if_splits)

section \<open>The two halves of a cleanup\<close>

text \<open>What a run does up to the removal of the artifacts, and what it does after.\<close>

definition run_artifacts ::
  "'w backend \<Rightarrow> 'w store \<Rightarrow> time \<Rightarrow> string list \<Rightarrow> string list \<Rightarrow> cleaner \<Rightarrow> 'w \<Rightarrow> (goerr + string list) \<times> 'w" where [go_eval]:
  "run_artifacts be st now cord ord c w =
     (let cutoff = cleaner_cutoff now c in
      case st_list_older st cord cutoff w of
        Inl e \<Rightarrow> (Inl e, w)
      | Inr entries \<Rightarrow>
          (case be_list be ord w of
             (Inl e, w1) \<Rightarrow> (Inl e, w1)
           | (Inr objects, w1) \<Rightarrow>
               let hashes = expired_hashes cutoff entries objects in
               if hashes = [] then (Inr [], w1)
               else (case be_delete be hashes w1 of (Some e, w2) \<Rightarrow> (Inl e, w2) | (None, w2) \<Rightarrow> (Inr hashes, w2))))"

definition run_entries :: "'w store \<Rightarrow> string list \<Rightarrow> 'w \<Rightarrow> (goerr + int) \<times> 'w" where [go_eval]:
  "run_entries st hashes w =
     (if hashes = [] then (Inr 0, w)
      else (case st_delete st hashes w of (Some e, w1) \<Rightarrow> (Inl e, w1) | (None, w1) \<Rightarrow> (Inr (int (length hashes)), w1)))"

lemma cleaner_run_halves:
  "cleaner_run be st now1 now2 cord ord c w =
     (case run_artifacts be st now2 cord ord c w of
        (Inl e, w1) \<Rightarrow> (Inl e, c\<lparr>cl_last_run := now1\<rparr>, w1)
      | (Inr hs, w1) \<Rightarrow> (case run_entries st hs w1 of (res, w2) \<Rightarrow> (res, c\<lparr>cl_last_run := now1\<rparr>, w2)))"
proof -
  have cut: "cleaner_cutoff now2 (c\<lparr>cl_last_run := now1\<rparr>) = cleaner_cutoff now2 c" by (simp add: cleaner_cutoff_def)
  show ?thesis
    unfolding cleaner_run_def run_artifacts_def run_entries_def Let_def cut
    by (auto split: sum.splits prod.splits option.splits)
qed

lemma run_artifacts_removes:
  assumes "run_artifacts be st now cord ord c w = (Inr hs, w')" and "hs \<noteq> []"
  obtains obs w1 where "be_list be ord w = (Inr obs, w1)" "be_delete be hs w1 = (None, w')"
  using assms by (auto simp: run_artifacts_def Let_def split: sum.splits prod.splits option.splits if_splits)

section \<open>The interleaved calls\<close>

record upload =
  ul_request :: request
  ul_size :: int
  ul_clock :: api_clock
  ul_phase :: put_phase

record 'w race =
  ra_world :: 'w
  ra_uploads :: "nat \<Rightarrow> upload option"

text \<open>What the handler has checked before its first call.\<close>

definition admitted :: "upload \<Rightarrow> bool" where [go_eval]:
  "admitted x \<longleftrightarrow> valid_hash (rq_hash (ul_request x)) \<and> 0 \<le> ul_size x \<and> in64 (ul_size x)"

definition advance :: "unicode_tables \<Rightarrow> archive_lib \<Rightarrow> 'w api \<Rightarrow> upload \<Rightarrow> 'w \<Rightarrow> upload \<times> 'w" where [go_eval]:
  "advance u al ap x w =
     (case put_step u al ap (ul_clock x) (ul_request x) (ul_size x) (ul_phase x) w of
        (ph, w') \<Rightarrow> (x\<lparr>ul_phase := ph\<rparr>, w'))"

definition race_start :: "'w \<Rightarrow> 'w race" where [go_eval]:
  "race_start w = \<lparr>ra_world = w, ra_uploads = (\<lambda>_. None)\<rparr>"

text \<open>
  \<open>goes_on\<close> is any other work that leaves the artifacts alone (downloads, counters, notifications, flushes);
  \<open>removes\<close> is a call of the cleaner or of the dashboard that removes artifacts, but not of hashes in \<open>K\<close>.
\<close>

inductive race_step ::
  "('w \<Rightarrow> bool) \<Rightarrow> ('w \<Rightarrow> string \<rightharpoonup> string \<times> time) \<Rightarrow> unicode_tables \<Rightarrow> archive_lib \<Rightarrow> 'w api \<Rightarrow> string set \<Rightarrow>
   'w race \<Rightarrow> 'w race \<Rightarrow> bool"
  for iv :: "'w \<Rightarrow> bool" and arts :: "'w \<Rightarrow> string \<rightharpoonup> string \<times> time" and u :: unicode_tables and al :: archive_lib
    and ap :: "'w api" and K :: "string set" where
  arrives: "ra_uploads s i = None \<Longrightarrow> admitted x \<Longrightarrow> ul_phase x = Checking \<Longrightarrow>
    race_step iv arts u al ap K s (s\<lparr>ra_uploads := (ra_uploads s)(i \<mapsto> x)\<rparr>)"
| advances: "ra_uploads s i = Some x \<Longrightarrow> advance u al ap x (ra_world s) = (x', w') \<Longrightarrow>
    race_step iv arts u al ap K s \<lparr>ra_world = w', ra_uploads = (ra_uploads s)(i \<mapsto> x')\<rparr>"
| goes_on: "iv w' \<Longrightarrow> arts w' = arts (ra_world s) \<Longrightarrow>
    race_step iv arts u al ap K s (s\<lparr>ra_world := w'\<rparr>)"
| removes: "iv w' \<Longrightarrow> (\<And>k. arts w' k = arts (ra_world s) k \<or> k \<notin> K \<and> arts w' k = None) \<Longrightarrow>
    race_step iv arts u al ap K s (s\<lparr>ra_world := w'\<rparr>)"

section \<open>One winner\<close>

text \<open>An upload owns its hash from its successful write on, until it takes it back.\<close>

definition owns :: "upload \<Rightarrow> string \<Rightarrow> bool" where [go_eval]:
  "owns x h \<longleftrightarrow> rq_hash (ul_request x) = h
     \<and> (case ul_phase x of Recording c \<Rightarrow> True | Rolling_Back \<Rightarrow> True | Answered wr \<Rightarrow> status wr = 200 | _ \<Rightarrow> False)"

definition sent :: "upload \<Rightarrow> string" where [go_eval]:
  "sent x = limited (ul_size x) (rd_data (rq_body (ul_request x)))"

definition race_inv ::
  "('w \<Rightarrow> bool) \<Rightarrow> ('w \<Rightarrow> string \<rightharpoonup> string \<times> time) \<Rightarrow> string set \<Rightarrow> 'w race \<Rightarrow> bool" where
  "race_inv iv arts K s \<longleftrightarrow> iv (ra_world s)
     \<and> (\<forall>i x. ra_uploads s i = Some x \<longrightarrow> admitted x)
     \<and> (\<forall>i x h. ra_uploads s i = Some x \<longrightarrow> h \<in> K \<longrightarrow> owns x h \<longrightarrow> (\<exists>t. arts (ra_world s) h = Some (sent x, t)))
     \<and> (\<forall>i j x y h. ra_uploads s i = Some x \<longrightarrow> ra_uploads s j = Some y \<longrightarrow> h \<in> K \<longrightarrow> owns x h \<longrightarrow> owns y h \<longrightarrow> i = j)"

lemma conflict_status [simp]: "status conflict = 409"
  by (simp add: conflict_def)

context api_env
begin

lemma advance_owns:
  "advance u al ap x w = (x', w') \<Longrightarrow> owns x' h \<Longrightarrow> h = rq_hash (ul_request x)"
  by (auto simp: advance_def owns_def split: prod.splits)

lemma advance_effect:
  assumes iv: "inv w" and ok: "admitted x" and run: "advance u al ap x w = (x', w')"
  shows "inv w' \<and> admitted x' \<and> sent x' = sent x
    \<and> (\<forall>k. k \<noteq> rq_hash (ul_request x) \<longrightarrow> arts w' k = arts w k)
    \<and> (rq_hash (ul_request x) \<in> dom (arts w) \<longrightarrow> ul_phase x \<noteq> Rolling_Back \<longrightarrow>
         arts w' (rq_hash (ul_request x)) = arts w (rq_hash (ul_request x)))
    \<and> (owns x' (rq_hash (ul_request x)) \<longrightarrow>
         (if owns x (rq_hash (ul_request x)) then arts w' = arts w \<and> ul_phase x \<noteq> Rolling_Back
          else rq_hash (ul_request x) \<notin> dom (arts w) \<and> (\<exists>t. arts w' (rq_hash (ul_request x)) = Some (sent x, t))))"
proof -
  let ?h = "rq_hash (ul_request x)" let ?p = "put_step u al ap (ul_clock x) (ul_request x) (ul_size x)"
  from ok have hne: "?h \<noteq> []" and sz: "in64 (ul_size x)" by (simp_all add: admitted_def valid_hash_nonempty)
  obtain ph where st: "?p (ul_phase x) w = (ph, w')" and x': "x' = x\<lparr>ul_phase := ph\<rparr>"
    using run by (auto simp: advance_def split: prod.splits)
  have base: "admitted x' \<longleftrightarrow> admitted x" "sent x' = sent x" "ul_request x' = ul_request x"
    by (simp_all add: x' admitted_def sent_def)
  note sims = put_step_def ap_backend ap_store Let_def
  show ?thesis
  proof (cases "ul_phase x")
    case Checking
    obtain b w1 where b: "be_exists be ?h w = (b, w1)" by fastforce
    with st Checking have "w' = w1" "\<not> owns x' ?h"
      by (auto simp: sims owns_def x' split: sum.splits if_splits)
    with exists_frame [OF iv b] ok base show ?thesis by simp
  next
    case Writing
    obtain e c where p: "be_put be ?h (rq_body (ul_request x)) (ul_size x) (ck_put (ul_clock x)) w = (e, c, w')"
      and ph: "e = None \<longleftrightarrow> owns x' ?h"
      using st Writing by (auto simp: sims owns_def x' split: prod.splits option.splits)
    have no: "\<not> owns x ?h" using Writing by (simp add: owns_def)
    show ?thesis
    proof (cases e)
      case None
      with put_ok [OF iv, of ?h "rq_body (ul_request x)" "ul_size x" "ck_put (ul_clock x)" c w'] p
        put_keeps_others [OF iv p] ok base Writing no show ?thesis by (auto simp: sent_def)
    next
      case (Some a)
      with put_inv [OF iv p] put_keeps_others [OF iv p] put_never_overwrites [OF iv p] ok base Writing ph
      show ?thesis by auto
    qed
  next
    case (Recording c)
    obtain e info where p: "st_upsert st ?h (ul_size x) (ck_now (ul_clock x)) info w = (e, w')"
      using st Recording by (auto simp: sims split: prod.splits option.splits)
    have "owns x ?h" using Recording by (simp add: owns_def)
    with upsert_inv [OF iv hne sz p] upsert_arts [OF iv p] ok base Recording show ?thesis by simp
  next
    case Rolling_Back
    obtain e where p: "be_delete be [?h] w = (e, w')" and n: "\<not> owns x' ?h"
      using st Rolling_Back by (cases "be_delete be [?h] w") (auto simp: sims owns_def x' internal_error_def)
    from delete_inv [OF iv p] delete_frame [OF iv p] ok base Rolling_Back n show ?thesis by simp
  next
    case (Answered wr)
    with st have "w' = w" "ph = Answered wr" by (simp_all add: sims)
    with iv ok base Answered show ?thesis by (simp add: owns_def x')
  qed
qed

lemma race_invI:
  assumes "inv (ra_world s)"
    and "\<And>i x. ra_uploads s i = Some x \<Longrightarrow> admitted x"
    and "\<And>i x h. ra_uploads s i = Some x \<Longrightarrow> h \<in> K \<Longrightarrow> owns x h \<Longrightarrow> \<exists>t. arts (ra_world s) h = Some (sent x, t)"
    and "\<And>i j x y h. ra_uploads s i = Some x \<Longrightarrow> ra_uploads s j = Some y \<Longrightarrow> h \<in> K \<Longrightarrow> owns x h \<Longrightarrow> owns y h \<Longrightarrow> i = j"
  shows "race_inv inv arts K s"
  unfolding race_inv_def using assms by blast

lemma race_invD:
  assumes "race_inv inv arts K s"
  shows "inv (ra_world s)"
    and "ra_uploads s i = Some x \<Longrightarrow> admitted x"
    and "ra_uploads s i = Some x \<Longrightarrow> h \<in> K \<Longrightarrow> owns x h \<Longrightarrow> \<exists>t. arts (ra_world s) h = Some (sent x, t)"
    and "ra_uploads s i = Some x \<Longrightarrow> ra_uploads s j = Some y \<Longrightarrow> h \<in> K \<Longrightarrow> owns x h \<Longrightarrow> owns y h \<Longrightarrow> i = j"
  using assms unfolding race_inv_def by blast+

lemma race_inv_advances:
  assumes ri: "race_inv inv arts K s" and x: "ra_uploads s i = Some x"
    and run: "advance u al ap x (ra_world s) = (x', w')"
  shows "race_inv inv arts K \<lparr>ra_world = w', ra_uploads = (ra_uploads s)(i \<mapsto> x')\<rparr>"
proof -
  let ?h = "rq_hash (ul_request x)" let ?w = "ra_world s"
  note eff = advance_effect [OF race_invD(1) [OF ri] race_invD(2) [OF ri x] run]
  have other: "arts w' h = arts ?w h"
    if y: "ra_uploads s j = Some y" and j: "j \<noteq> i" and h: "h \<in> K" and o: "owns y h" for j y h
  proof (cases "h = ?h")
    case True
    from race_invD(3) [OF ri y h o] have "h \<in> dom (arts ?w)" by blast
    moreover have "ul_phase x \<noteq> Rolling_Back"
    proof
      assume "ul_phase x = Rolling_Back"
      with True have "owns x h" by (simp add: owns_def)
      from race_invD(4) [OF ri x y h this o] j show False by simp
    qed
    ultimately show ?thesis using eff True by blast
  next
    case False
    with eff show ?thesis by blast
  qed
  have new: "\<not> owns y ?h" if "ra_uploads s j = Some y" "j \<noteq> i" "?h \<in> K" "owns x' ?h" for j y
  proof
    assume o: "owns y ?h"
    from race_invD(3) [OF ri that(1,3) o] have "?h \<in> dom (arts ?w)" by blast
    with eff that(4) have "owns x ?h" by (metis (full_types))
    from race_invD(4) [OF ri x that(1,3) this o] that(2) show False by simp
  qed
  let ?s = "\<lparr>ra_world = w', ra_uploads = (ra_uploads s)(i \<mapsto> x')\<rparr>"
  show ?thesis
  proof (rule race_invI)
    show "inv (ra_world ?s)" using eff by simp
  next
    fix j y
    assume "ra_uploads ?s j = Some y"
    then show "admitted y" using eff race_invD(2) [OF ri, of j y] by (auto split: if_splits)
  next
    fix j y h
    assume "ra_uploads ?s j = Some y" and h: "h \<in> K" and o: "owns y h"
    then have y: "(if j = i then Some x' else ra_uploads s j) = Some y" by simp
    have "\<exists>t. arts w' h = Some (sent y, t)"
    proof (cases "j = i")
      case True
      with y o advance_owns [OF run] have yx: "y = x'" "h = ?h" by auto
      show ?thesis
      proof (cases "owns x ?h")
        case owned: True
        from race_invD(3) [OF ri x _ owned] h yx(2) have "\<exists>t. arts ?w ?h = Some (sent x, t)" by blast
        with eff yx o owned show ?thesis by auto
      next
        case False
        with eff yx o show ?thesis by auto
      qed
    next
      case False
      with y have y: "ra_uploads s j = Some y" by simp
      from race_invD(3) [OF ri y h o] other [OF y False h o] show ?thesis by simp
    qed
    then show "\<exists>t. arts (ra_world ?s) h = Some (sent y, t)" by simp
  next
    fix j k y z h
    assume "ra_uploads ?s j = Some y" and "ra_uploads ?s k = Some z" and h: "h \<in> K" and o: "owns y h" "owns z h"
    then have y: "(if j = i then Some x' else ra_uploads s j) = Some y"
      and z: "(if k = i then Some x' else ra_uploads s k) = Some z" by simp_all
    have hh: "h = ?h" if "j = i \<or> k = i" using that y z o advance_owns [OF run] by (auto split: if_splits)
    show "j = k"
    proof (cases "j = i \<or> k = i")
      case True
      then show ?thesis using new [of j y] new [of k z] y z h o hh by (cases "j = i"; cases "k = i") auto
    next
      case False
      with y z race_invD(4) [OF ri _ _ h o, of j k] show ?thesis by simp
    qed
  qed
qed

lemma race_inv_step: "race_step inv arts u al ap K s s' \<Longrightarrow> race_inv inv arts K s \<Longrightarrow> race_inv inv arts K s'"
proof (induction rule: race_step.induct)
  case (arrives s i x)
  then have "\<not> owns x h" for h by (simp add: owns_def)
  with arrives race_invD [OF arrives(4)] show ?case by (intro race_invI) (auto split: if_splits)
next
  case (advances s i x x' w')
  then show ?case by (intro race_inv_advances)
next
  case (goes_on w' s)
  with race_invD [OF goes_on(3)] show ?case by (intro race_invI) auto
next
  case (removes w' s)
  have "arts w' h = arts (ra_world s) h" if "h \<in> K" for h using removes(2) [of h] that by blast
  with removes race_invD [OF removes(3)] show ?case by (intro race_invI) auto
qed

lemma race_inv_reachable:
  "rtranclp (race_step inv arts u al ap K) s s' \<Longrightarrow> race_inv inv arts K s \<Longrightarrow> race_inv inv arts K s'"
  by (induction rule: rtranclp_induct) (auto intro: race_inv_step)

lemma race_inv_start: "inv w \<Longrightarrow> race_inv inv arts K (race_start w)"
  by (simp add: race_inv_def race_start_def)

end

section \<open>Claims\<close>

text \<open>
  C3: of all uploads of a hash that run at the same time, at most one is accepted, and what is stored is
  exactly its body. Whatever the interleaving of the calls of any number of uploads, of other requests and
  of removals of other hashes: two uploads of one hash are never both answered 200, and the artifact of an
  accepted one is the bytes it sent.
\<close>

theorem uploads_have_one_winner:
  assumes "server_inv w" and "h \<in> K"
    and "rtranclp (race_step server_inv server_arts u al (server_api u js on_save mx now) K) (race_start w) s"
    and "ra_uploads s i = Some x" and "rq_hash (ul_request x) = h" and "ul_phase x = Answered wr" and "status wr = 200"
  shows "(\<exists>t. server_arts (ra_world s) h = Some (take (nat (ul_size x)) (rd_data (rq_body (ul_request x))), t))
    \<and> (\<forall>j y wr'. ra_uploads s j = Some y \<and> rq_hash (ul_request y) = h \<and> ul_phase y = Answered wr' \<and> status wr' = 200
          \<longrightarrow> j = i)"
proof -
  have ri: "race_inv server_inv server_arts K s"
    using srv.race_inv_reachable [OF assms(3) srv.race_inv_start [OF assms(1)]] .
  have own: "owns y h" if "rq_hash (ul_request y) = h" "ul_phase y = Answered wr'" "status wr' = 200" for y wr'
    using that by (simp add: owns_def)
  note x = own [OF assms(5-7)]
  have "sent x = take (nat (ul_size x)) (rd_data (rq_body (ul_request x)))"
    using srv.race_invD(2) [OF ri assms(4)] by (simp add: sent_def limited_def admitted_def)
  with srv.race_invD(3) [OF ri assms(4,2) x] srv.race_invD(4) [OF ri _ assms(4,2) _ x] own show ?thesis
    by metis
qed

text \<open>
  C22: an upload that is accepted between the two halves of a cleanup loses its catalog entry. A run
  removes artifacts first and entries after; when it has removed the artifact of a hash, an upload of that
  hash completes, and the run then removes the entries, the new artifact is stored and has no entry.
\<close>

theorem cleanup_race_loses_entry:
  assumes "server_inv w"
    and "run_artifacts server_backend (server_store u js t1) now1 cord ord c w = (Inr hs, as_world s)"
    and "rq_hash r \<in> set hs" and "valid_hash (rq_hash r)" and "in64 sz"
    and "put_object u al (server_api u js on_save mx now) ck r sz s = (wr, s')" and "status wr = 200"
    and "run_entries (server_store u js t2) hs (as_world s') = (Inr n, w')"
  shows "server_ents w' (rq_hash r) = None
    \<and> (\<exists>t. server_arts w' (rq_hash r) = Some (limited sz (rd_data (rq_body r)), t))"
proof -
  from assms(3) have ne: "hs \<noteq> []" by auto
  from run_artifacts_removes [OF assms(2) ne] obtain obs w1
    where l: "be_list server_backend ord w = (Inr obs, w1)"
      and d: "be_delete server_backend hs w1 = (None, as_world s)" by metis
  have "server_inv w1" using env.list_frame [OF assms(1) l] by simp
  from env.delete_ok [OF this d] have i1: "server_inv (as_world s)" by simp
  note put = srv.put_object_outcome [OF i1 assms(4,5,6)]
  from assms(8) ne have sd: "st_delete (server_store u js t2) hs (as_world s') = (None, w')"
    by (auto simp: run_entries_def split: prod.splits option.splits)
  from env.del_ok [OF put(1) sd] env.del_arts [OF put(1) sd] put(6) [OF assms(7)] assms(3) show ?thesis by auto
qed

section \<open>A concrete race\<close>

text \<open>Two uploads of one hash with different bodies; both see that it is absent, and the first one writes first.\<close>

definition race_api :: "server_world api" where
  "race_api = server_api ascii_tables example_codec False 100 march_4"

definition racing :: "string \<Rightarrow> put_phase \<Rightarrow> upload" where [go_eval]:
  "racing body ph = \<lparr>ul_request = example_upload\<lparr>rq_body := \<lparr>rd_data = body, rd_err = None\<rparr>\<rparr>, ul_size = 3,
     ul_clock = example_clock, ul_phase = ph\<rparr>"

lemma racing_simps [simp]:
  "rq_hash (ul_request (racing body ph)) = ''b2''" "rq_body (ul_request (racing body ph)) = \<lparr>rd_data = body, rd_err = None\<rparr>"
  "ul_size (racing body ph) = 3" "ul_phase (racing body ph) = ph" "racing body ph\<lparr>ul_phase := ph'\<rparr> = racing body ph'"
  "admitted (racing body ph)"
  by (simp_all add: racing_def example_upload_def admitted_def example_hashes in64_def)

lemma server_put_conflict:
  assumes "h \<in> dom (server_arts w)"
  shows "\<exists>c w'. be_put server_backend h \<lparr>rd_data = [a, b, d], rd_err = None\<rparr> 3 now w = (Some ErrExists, c, w')"
proof -
  from assms have "ghas (mem_objects (wo_disk w)) h"
    by (auto simp: server_arts_def mem_arts_def ghas_def split: option.splits)
  then show ?thesis
    by (simp add: server_backend_def lift_backend_def memory_backend_def mem_put_def read_all_limited_def wrap64_def)
qed

theorem uploads_have_one_winner_witness:
  "\<exists>s wr. rtranclp (race_step server_inv server_arts ascii_tables example_archive race_api {''b2''})
        (race_start example_world) s
     \<and> (\<exists>t. server_arts (ra_world s) ''b2'' = Some (''xyz'', t))
     \<and> ra_uploads s 1 = Some (racing ''uvw'' (Answered wr)) \<and> status wr \<noteq> 200"
proof -
  let ?ap = "race_api" let ?R = "race_step server_inv server_arts ascii_tables example_archive race_api {''b2''}"
  let ?U = "\<lambda>p q. [0 \<mapsto> racing ''xyz'' p, Suc 0 \<mapsto> racing ''uvw'' q]"
  have absent: "''b2'' \<notin> dom (server_arts example_world)" using example_world_arts by simp
  have sims: "ap_backend ?ap = server_backend" "ap_store ?ap = server_store ascii_tables example_codec march_4"
    by (simp_all add: race_api_def server_api_def)
  have check: "advance ascii_tables example_archive ?ap (racing b Checking) example_world
      = (racing b Writing, example_world)" for b
    using absent by (simp add: advance_def put_step_def sims server_exists Let_def)
  obtain c w1 where p: "be_put server_backend ''b2'' \<lparr>rd_data = ''xyz'', rd_err = None\<rparr> 3
      (ck_put (ul_clock (racing ''xyz'' Writing))) example_world = (None, c, w1)"
    using server_put_total [OF absent, of "\<lparr>rd_data = ''xyz'', rd_err = None\<rparr>" 3
        "ck_put (ul_clock (racing ''xyz'' Writing))"] by fastforce
  have written: "advance ascii_tables example_archive ?ap (racing ''xyz'' Writing) example_world
      = (racing ''xyz'' (Recording c), w1)"
    using p by (simp add: advance_def put_step_def sims Let_def)
  have i1: "server_inv w1" "''b2'' \<in> dom (server_arts w1)"
    using env.put_ok [OF example_world_inv p] by auto
  obtain c2 w3 where q: "be_put server_backend ''b2'' \<lparr>rd_data = ''uvw'', rd_err = None\<rparr> 3
      (ck_put (ul_clock (racing ''uvw'' Writing))) w1 = (Some ErrExists, c2, w3)"
    using server_put_conflict [OF i1(2)] by blast
  have lose: "advance ascii_tables example_archive ?ap (racing ''uvw'' Writing) w1
      = (racing ''uvw'' (Answered conflict), w3)"
    using q by (simp add: advance_def put_step_def sims Let_def)
  obtain w2 where up: "st_upsert (server_store ascii_tables example_codec march_4) ''b2'' 3
      (ck_now (ul_clock (racing ''xyz'' (Recording c))))
      (merge_info ascii_tables (from_headers ascii_tables (rq_header (ul_request (racing ''xyz'' (Recording c)))))
        (inspect ascii_tables example_archive \<lparr>rd_data = c, rd_err = None\<rparr>)) w3 = (None, w2)"
    using server_upsert_total by blast
  have recorded: "advance ascii_tables example_archive ?ap (racing ''xyz'' (Recording c)) w3
      = (racing ''xyz'' (Answered uploaded), w2)"
    using up by (simp add: advance_def put_step_def sims Let_def)
  have start: "rtranclp ?R (race_start example_world) \<lparr>ra_world = example_world, ra_uploads = ?U Checking Checking\<rparr>"
    using race_step.arrives [of "race_start example_world" 0 "racing ''xyz'' Checking"]
      race_step.arrives [of "race_start example_world\<lparr>ra_uploads := [0 \<mapsto> racing ''xyz'' Checking]\<rparr>" 1 "racing ''uvw'' Checking"]
    by (intro rtranclp.rtrancl_into_rtrancl [OF r_into_rtranclp]) (simp_all add: race_start_def)
  have step0: "?R \<lparr>ra_world = w, ra_uploads = ?U ph q\<rparr> \<lparr>ra_world = w', ra_uploads = ?U ph' q\<rparr>"
    if "advance ascii_tables example_archive ?ap (racing ''xyz'' ph) w = (racing ''xyz'' ph', w')" for w w' ph ph' q
    using race_step.advances [of "\<lparr>ra_world = w, ra_uploads = ?U ph q\<rparr>" 0 "racing ''xyz'' ph"] that
    by (simp add: fun_upd_twist)
  have step1: "?R \<lparr>ra_world = w, ra_uploads = ?U ph q\<rparr> \<lparr>ra_world = w', ra_uploads = ?U ph q'\<rparr>"
    if "advance ascii_tables example_archive ?ap (racing ''uvw'' q) w = (racing ''uvw'' q', w')" for w w' ph q q'
    using race_step.advances [of "\<lparr>ra_world = w, ra_uploads = ?U ph q\<rparr>" 1 "racing ''uvw'' q"] that by simp
  let ?s = "\<lparr>ra_world = w2, ra_uploads = ?U (Answered uploaded) (Answered conflict)\<rparr>"
  have "rtranclp ?R (race_start example_world) ?s"
    using start step0 [OF check] step1 [OF check] step0 [OF written] step1 [OF lose] step0 [OF recorded]
    by (meson rtranclp.rtrancl_into_rtrancl)
  from uploads_have_one_winner [OF example_world_inv _ this [unfolded race_api_def], of "''b2''" 0 "racing ''xyz'' (Answered uploaded)" uploaded]
    this show ?thesis by (intro exI [of _ ?s] exI [of _ conflict]) auto
qed

text \<open>The cleanup that runs two days later, and an upload of the hash it removes.\<close>

theorem cleanup_race_loses_entry_witness:
  "\<exists>s wr s' w' n. run_artifacts server_backend (server_store ascii_tables example_codec march_4) (march_4 + 48 * hour)
        [''a1''] [''a1''] example_cleaner example_world = (Inr [''a1''], as_world s)
     \<and> put_object ascii_tables example_archive race_api example_clock (example_upload\<lparr>rq_hash := ''a1''\<rparr>) 3 s = (wr, s')
     \<and> run_entries (server_store ascii_tables example_codec march_4) [''a1''] (as_world s') = (Inr n, w')
     \<and> server_ents w' ''a1'' = None \<and> ''a1'' \<in> dom (server_arts w')"
proof -
  let ?r = "example_upload\<lparr>rq_hash := ''a1''\<rparr>" let ?st = "server_store ascii_tables example_codec march_4"
  have cut: "cleaner_cutoff (march_4 + 48 * hour) example_cleaner = march_4 + 24 * hour"
    by (simp add: example_cutoff)
  obtain w1 where run: "run_artifacts server_backend ?st (march_4 + 48 * hour) [''a1''] [''a1''] example_cleaner example_world
      = (Inr [''a1''], w1)"
  proof -
    obtain es where o: "st_list_older ?st [''a1''] (march_4 + 24 * hour) example_world = Inr es"
      by (simp add: server_store_def world_store_def object_store_def obj_list_older_def)
    obtain obs w0 where l: "be_list server_backend [''a1''] example_world = (Inr obs, w0)"
      by (simp add: server_backend_def on_disk_def memory_backend_def mem_list_def)
    obtain w1 where d: "be_delete server_backend [''a1''] w0 = (None, w1)"
      by (simp add: server_backend_def on_disk_def memory_backend_def mem_delete_def)
    have "set (expired_hashes (march_4 + 24 * hour) es obs) = {''a1''}"
      using env.expired_hashes_set [OF example_world_inv example_world_orders(2,1) o l] unfolding example_expired .
    then have "expired_hashes (march_4 + 24 * hour) es obs = [''a1'']"
      using distinct_expired_hashes [of "march_4 + 24 * hour" es obs]
      by (cases "expired_hashes (march_4 + 24 * hour) es obs") (auto simp: subset_singleton_iff)
    with o l d show ?thesis by (intro that [of w1], unfold run_artifacts_def Let_def cut) simp
  qed
  define s where "s = example_state\<lparr>as_world := w1\<rparr>"
  have sw: "as_world s = w1" by (simp add: s_def)
  obtain obs w0 where l: "be_list server_backend [''a1''] example_world = (Inr obs, w0)"
    "be_delete server_backend [''a1''] w0 = (None, w1)" by (rule run_artifacts_removes [OF run]) simp
  have "server_inv w0" using env.list_frame [OF example_world_inv l(1)] by simp
  from env.delete_ok [OF this l(2)] have absent: "''a1'' \<notin> dom (server_arts (as_world s))" by (simp add: sw)
  obtain wr s' where put: "put_object ascii_tables example_archive race_api example_clock ?r 3 s = (wr, s')" by fastforce
  have "status (fst (put_object ascii_tables example_archive race_api example_clock ?r 3 s)) = 200"
    unfolding race_api_def by (rule put_object_accepts) (use absent in \<open>simp_all add: example_upload_def\<close>)
  with put have "status wr = 200" by simp
  obtain w' where del: "st_delete ?st [''a1''] (as_world s') = (None, w')"
    by (auto simp: server_store_def world_store_def notify_if_def on_cat_def object_store_def obj_delete_def Let_def
        split: prod.split)
  have fin: "run_entries ?st [''a1''] (as_world s') = (Inr 1, w')" using del by (simp add: run_entries_def)
  from cleanup_race_loses_entry [OF example_world_inv run [folded sw] _ _ _ put [unfolded race_api_def] \<open>status wr = 200\<close> fin]
  have "server_ents w' ''a1'' = None \<and> ''a1'' \<in> dom (server_arts w')"
    using example_hashes by (auto simp: in64_def)
  with run [folded sw] put fin show ?thesis by blast
qed

end
