(* ===== verification/Startup.thy ===== *)
theory Startup
  imports Cache_Protocol Config S3_Backend Sql_Store Snapshot
begin

text \<open>
  \<open>cmd/server\<close>, \<open>internal/applog\<close> and \<open>internal/reqlog\<close>: what the process does before it serves: the
  health check command, log levels and attributes, the choice of backend and catalog, and the
  reconciliation of the catalog with the stored artifacts. Starting goroutines, listening and signals
  are not modelled.
\<close>

section \<open>Logging\<close>

datatype slog_level = Level_Debug | Level_Info | Level_Warn | Level_Error

text \<open>The numbers of the levels, which order them.\<close>

fun level_number :: "slog_level \<Rightarrow> int" where
  "level_number Level_Debug = -4"
| "level_number Level_Info = 0"
| "level_number Level_Warn = 4"
| "level_number Level_Error = 8"

instantiation slog_level :: linorder
begin

definition less_eq_slog_level :: "slog_level \<Rightarrow> slog_level \<Rightarrow> bool" where [go_eval]:
  "less_eq_slog_level a b \<longleftrightarrow> level_number a \<le> level_number b"

definition less_slog_level :: "slog_level \<Rightarrow> slog_level \<Rightarrow> bool" where [go_eval]:
  "less_slog_level a b \<longleftrightarrow> level_number a < level_number b"

instance
proof
  fix a b :: slog_level
  show "a \<le> b \<Longrightarrow> b \<le> a \<Longrightarrow> a = b" by (cases a; cases b) (simp_all add: less_eq_slog_level_def)
qed (auto simp: less_eq_slog_level_def less_slog_level_def)

end

definition parse_level :: "unicode_tables \<Rightarrow> string \<Rightarrow> goerr + slog_level" where [go_eval]:
  "parse_level u s =
     (let t = to_lower u (trim_space s) in
      if t \<in> {[], ''info''} then Inr Level_Info
      else if t = ''debug'' then Inr Level_Debug
      else if t \<in> {''warn'', ''warning''} then Inr Level_Warn
      else if t = ''error'' then Inr Level_Error
      else Inl (OtherErr ''LOG_LEVEL must be debug, info, warn, or error''))"

text \<open>\<open>strings.EqualFold(t, "json")\<close>; the long s (two bytes) folds to \<open>s\<close>.\<close>

definition folds_to_json :: "string \<Rightarrow> bool" where [go_eval]:
  "folds_to_json t \<longleftrightarrow>
     map ascii_lower t = ''json''
     \<or> (map ascii_lower (take 1 t) = ''j'' \<and> take 2 (drop 1 t) = [byte 0xC5, byte 0xBF]
        \<and> map ascii_lower (drop 3 t) = ''on'')"

record logger =
  lo_level :: slog_level
  lo_source :: bool
  lo_json :: bool

definition new_logger :: "slog_level \<Rightarrow> string \<Rightarrow> logger" where [go_eval]:
  "new_logger level format =
     \<lparr>lo_level = level, lo_source = (level \<le> Level_Debug), lo_json = folds_to_json (trim_space format)\<rparr>"

text \<open>The values of an attribute that are told apart: a source, an error, anything else.\<close>

datatype attr_value = Source_Value "string option" | Error_Value string | Text_Value string | Other_Value

definition short_source :: "string \<Rightarrow> string" where [go_eval]:
  "short_source file =
     (let base = last (split_at (CHR ''/'') file);
          dir = trim_suffix (take (length file - length base) file) ''/''
      in if dir = [] then base else path_base dir @ ''/'' @ base)"

definition replace_attr :: "string \<Rightarrow> attr_value \<Rightarrow> string \<times> attr_value" where [go_eval]:
  "replace_attr key v =
     (if key = ''source'' then (key, case v of Source_Value (Some f) \<Rightarrow> Source_Value (Some (short_source f)) | _ \<Rightarrow> v)
      else case v of Error_Value msg \<Rightarrow> (key, Text_Value msg) | _ \<Rightarrow> (key, v))"

text \<open>The logger a request context carries.\<close>

definition with_logger :: "'l option \<Rightarrow> 'l option \<Rightarrow> 'l option" where [go_eval]:
  "with_logger ctx lg = (case lg of None \<Rightarrow> ctx | Some l \<Rightarrow> Some l)"

definition from_or :: "'l \<Rightarrow> 'l option \<Rightarrow> 'l option \<Rightarrow> 'l" where [go_eval]:
  "from_or dflt ctx fallback =
     (case ctx of Some l \<Rightarrow> l | None \<Rightarrow> (case fallback of Some l \<Rightarrow> l | None \<Rightarrow> dflt))"

definition from_context :: "'l \<Rightarrow> 'l option \<Rightarrow> 'l" where [go_eval]:
  "from_context dflt ctx = from_or dflt ctx None"

section \<open>Health check\<close>

definition run_healthcheck :: "environment \<Rightarrow> (string \<Rightarrow> goerr + int) \<Rightarrow> int" where [go_eval]:
  "run_healthcheck getenv get =
     (let port = (if getenv ''PORT'' = [] then ''8080'' else getenv ''PORT'') in
      case get (''http://127.0.0.1:'' @ port @ ''/health'') of
        Inl e \<Rightarrow> 1 | Inr st \<Rightarrow> if st \<noteq> 200 then 1 else 0)"

section \<open>Backend and catalog\<close>

definition s3_config_of :: "config \<Rightarrow> s3_config" where [go_eval]:
  "s3_config_of c =
     \<lparr>sc_region = cf_aws_region c, sc_key_id = cf_aws_key_id c, sc_secret = cf_aws_secret c,
      sc_bucket = cf_s3_bucket c, sc_endpoint = cf_s3_endpoint c, sc_prefix = cf_s3_prefix c,
      sc_force_path = cf_s3_force_path c\<rparr>"

text \<open>At most \<open>n\<close> attempts to have the bucket; the last error remains.\<close>

fun ensure_retry :: "nat \<Rightarrow> ('w \<Rightarrow> goerr option \<times> 'w) \<Rightarrow> goerr option \<Rightarrow> 'w \<Rightarrow> goerr option \<times> 'w" where
  "ensure_retry 0 f last_err w = (last_err, w)"
| "ensure_retry (Suc n) f last_err w =
     (case f w of (None, w') \<Rightarrow> (None, w') | (Some e, w') \<Rightarrow> ensure_retry n f (Some e) w')"

datatype chosen_backend = In_Memory | In_Bucket s3_backend_cfg

definition choose_backend ::
  "(sdk_options \<Rightarrow> s3_error option) \<Rightarrow> 'w s3_client \<Rightarrow> config \<Rightarrow> 'w \<Rightarrow> (goerr + chosen_backend) \<times> 'w" where [go_eval]:
  "choose_backend load_config cl c w =
     (if cf_storage c = ''memory'' then (Inr In_Memory, w)
      else (case new_s3 load_config (s3_config_of c) of
        Inl e \<Rightarrow> (Inl e, w)
      | Inr b \<Rightarrow>
          if cf_create_bucket c
          then (case ensure_retry 12 (s3_ensure_bucket cl) None w of
                  (Some e, w') \<Rightarrow> (Inl e, w') | (None, w') \<Rightarrow> (Inr (In_Bucket b), w'))
          else (Inr (In_Bucket b), w)))"

text \<open>The catalog: a database that is opened and migrated, or the object catalog with its snapshot loaded.\<close>

datatype chosen_catalog = In_Database string sqldb | In_Objects objcat

definition choose_catalog ::
  "unicode_tables \<Rightarrow> 'w backend \<Rightarrow> codec \<Rightarrow> string \<Rightarrow> (string \<Rightarrow> goerr + sqldb) \<Rightarrow> config \<Rightarrow> 'w \<Rightarrow>
   (goerr + chosen_catalog) \<times> 'w" where [go_eval]:
  "choose_catalog u be js random_hex sql_open c w =
     (if cf_catalog c = ''sqlite''
      then (let dsn = sql_dsn random_hex (cf_sqlite_path c) in
            case sql_open dsn of
              Inl e \<Rightarrow> (Inl e, w)
            | Inr db \<Rightarrow> (case sql_migrate u db of
                           (Some e, db') \<Rightarrow> (Inl e, w) | (None, db') \<Rightarrow> (Inr (In_Database dsn db'), w)))
      else (case obj_load be js new_object w of
              (Some e, o', w') \<Rightarrow> (Inl e, w') | (None, o', w') \<Rightarrow> (Inr (In_Objects o'), w')))"

section \<open>Reconciliation\<close>

text \<open>Every stored artifact gets an entry; failures are logged and skipped.\<close>

fun ensure_all :: "'w store \<Rightarrow> time \<Rightarrow> object list \<Rightarrow> 'w \<Rightarrow> string list \<times> 'w" where
  "ensure_all st now [] w = ([], w)"
| "ensure_all st now (ob # obs) w =
     (let t = (if is_zero (ob_last_modified ob) then now else ob_last_modified ob) in
      case st_ensure st (ob_hash ob) (ob_size ob) t w of
        (err, w1) \<Rightarrow> (case ensure_all st now obs w1 of
           (failed, w2) \<Rightarrow> (if err = None then failed else ob_hash ob # failed, w2)))"

text \<open>An entry without label or kind is classified from its artifact.\<close>

definition reclassify ::
  "unicode_tables \<Rightarrow> archive_lib \<Rightarrow> 'w backend \<Rightarrow> 'w store \<Rightarrow> entry \<Rightarrow> 'w \<Rightarrow> 'w" where [go_eval]:
  "reclassify u al be st e w =
     (if task_label (en_task e) \<noteq> [] \<and> ti_kind (en_task e) \<noteq> [] then w
      else (case be_get be (en_hash e) w of
        (Inl err, w1) \<Rightarrow> w1
      | (Inr (body, n), w1) \<Rightarrow>
          (let info = inspect u al \<lparr>rd_data = body, rd_err = None\<rparr> in
           if task_empty info then w1 else snd (st_update_task st (en_hash e) info w1))))"

definition reconcile ::
  "unicode_tables \<Rightarrow> archive_lib \<Rightarrow> 'w backend \<Rightarrow> 'w store \<Rightarrow> string list \<Rightarrow> string list \<Rightarrow> time \<Rightarrow> 'w \<Rightarrow>
   string list \<times> 'w" where [go_eval]:
  "reconcile u al be st ord cord now w =
     (case be_list be ord w of
        (Inl e, w1) \<Rightarrow> ([], w1)
      | (Inr objects, w1) \<Rightarrow>
          (case ensure_all st now objects w1 of
             (failed, w2) \<Rightarrow>
               (failed, case st_list st cord [] (int (length objects)) 0 w2 of
                          Ret (entries, found) \<Rightarrow> fold (reclassify u al be st) entries w2
                        | _ \<Rightarrow> w2)))"

lemmas [go_eval] = ensure_retry.simps ensure_all.simps

section \<open>What reconciliation relies on\<close>

locale reconciler = server_env be st arts ents inv ord_ok cord_ok expired
  for be :: "'w backend" and st :: "'w store" and arts ents inv ord_ok cord_ok expired +
  assumes ensure_arts: "inv w \<Longrightarrow> h \<noteq> [] \<Longrightarrow> in64 n \<Longrightarrow> st_ensure st h n t w = (x, w') \<Longrightarrow> arts w' = arts w"
    and update_task: "inv w \<Longrightarrow> st_update_task st h info w = (x, w') \<Longrightarrow>
      inv w' \<and> arts w' = arts w \<and> dom (ents w') = dom (ents w)"
begin

lemma ensure_all_covers:
  assumes "inv w" and "\<forall>ob \<in> set obs. ob_hash ob \<noteq> [] \<and> in64 (ob_size ob)"
    and "ensure_all st now obs w = (failed, w')"
  shows "inv w' \<and> arts w' = arts w \<and> ob_hash ` set obs - set failed \<subseteq> dom (ents w')
    \<and> dom (ents w) - set failed \<subseteq> dom (ents w')"
  using assms
proof (induction obs arbitrary: w failed)
  case Nil
  then show ?case by simp
next
  case (Cons ob obs)
  define t where "t = (if is_zero (ob_last_modified ob) then now else ob_last_modified ob)"
  obtain err w1 where e: "st_ensure st (ob_hash ob) (ob_size ob) t w = (err, w1)" by fastforce
  obtain f2 w2 where r: "ensure_all st now obs w1 = (f2, w2)" by fastforce
  from Cons.prems(3) e r have w: "w2 = w'" and f: "failed = (if err = None then f2 else ob_hash ob # f2)"
    by (simp_all add: t_def Let_def split: if_splits)
  have ok: "ob_hash ob \<noteq> []" "in64 (ob_size ob)" using Cons.prems(2) by simp_all
  have i1: "inv w1" "arts w1 = arts w"
    using ensure_inv [OF Cons.prems(1) ok e] ensure_arts [OF Cons.prems(1) ok e] by simp_all
  have k: "ents w1 k = ents w k" if "k \<noteq> ob_hash ob" for k
    using ensure_keeps [OF Cons.prems(1) ok e] that by blast
  have h: "ob_hash ob \<in> dom (ents w1)" if "err = None"
    using ensure_ok [OF Cons.prems(1) ok] e that by simp
  have dom1: "dom (ents w) - set failed \<subseteq> dom (ents w1)"
  proof
    fix x assume x: "x \<in> dom (ents w) - set failed"
    show "x \<in> dom (ents w1)"
    proof (cases "x = ob_hash ob")
      case True
      with x f have "err = None" by (auto split: if_splits)
      with h True show ?thesis by simp
    next
      case False
      with k x show ?thesis by (simp add: domIff)
    qed
  qed
  from Cons.IH [OF i1(1) _ r [unfolded w]] Cons.prems(2) i1 have ih: "inv w'" "arts w' = arts w"
    "ob_hash ` set obs - set f2 \<subseteq> dom (ents w')" "dom (ents w1) - set f2 \<subseteq> dom (ents w')" by simp_all
  have sub: "set f2 \<subseteq> set failed" using f by auto
  have here: "ob_hash ob \<in> dom (ents w')" if "ob_hash ob \<notin> set failed"
    using that h ih(4) f sub by (cases "err = None") auto
  moreover have "dom (ents w) - set failed \<subseteq> dom (ents w')" using dom1 ih(4) sub by blast
  moreover have "ob_hash ` set (ob # obs) - set failed \<subseteq> dom (ents w')"
  proof
    fix x assume "x \<in> ob_hash ` set (ob # obs) - set failed"
    then consider "x = ob_hash ob" "x \<notin> set failed" | "x \<in> ob_hash ` set obs" "x \<notin> set failed" by auto
    then show "x \<in> dom (ents w')"
    proof cases
      case 1
      then show ?thesis using here by simp
    next
      case 2
      then show ?thesis using ih(3) sub by blast
    qed
  qed
  ultimately show ?case using ih(1,2) by simp
qed

lemma reclassify_keeps:
  assumes "inv w"
  shows "inv (reclassify u al be st e w) \<and> arts (reclassify u al be st e w) = arts w
    \<and> dom (ents (reclassify u al be st e w)) = dom (ents w)"
proof -
  obtain g w1 where g: "be_get be (en_hash e) w = (g, w1)" by fastforce
  note f = get_frame [OF assms g] get_ents [OF assms g]
  show ?thesis
  proof (cases g)
    case (Inl x)
    with f g assms show ?thesis by (simp add: reclassify_def)
  next
    case (Inr bn)
    obtain body n where bn: "bn = (body, n)" by fastforce
    define info where "info = inspect u al \<lparr>rd_data = body, rd_err = None\<rparr>"
    obtain x w2 where t: "st_update_task st (en_hash e) info w1 = (x, w2)" by fastforce
    from f update_task [OF _ t] g Inr bn assms t show ?thesis
      by (simp add: reclassify_def info_def [symmetric] Let_def)
  qed
qed

lemma fold_reclassify_keeps:
  "inv w \<Longrightarrow> inv (fold (reclassify u al be st) es w) \<and> arts (fold (reclassify u al be st) es w) = arts w
    \<and> dom (ents (fold (reclassify u al be st) es w)) = dom (ents w)"
  by (induction es arbitrary: w) (simp_all add: reclassify_keeps)

lemma reconcile_covers:
  assumes "inv w" and "ord_ok ord w" and "be_list be ord w = (Inr obs, w1)"
    and "\<forall>ob \<in> set obs. ob_hash ob \<noteq> [] \<and> in64 (ob_size ob)"
    and "reconcile u al be st ord cord now w = (failed, w')"
  shows "inv w' \<and> arts w' = arts w \<and> dom (arts w) - set failed \<subseteq> dom (ents w')
    \<and> dom (ents w) - set failed \<subseteq> dom (ents w')"
proof -
  obtain f w2 where e: "ensure_all st now obs w1 = (f, w2)" by fastforce
  have i1: "inv w1" "arts w1 = arts w" "ents w1 = ents w"
    using list_frame [OF assms(1,3)] list_ents [OF assms(1,3)] by simp_all
  from ensure_all_covers [OF i1(1) assms(4) e] i1 have 2: "inv w2" "arts w2 = arts w"
    "ob_hash ` set obs - set f \<subseteq> dom (ents w2)" "dom (ents w) - set f \<subseteq> dom (ents w2)" by simp_all
  have all: "dom (arts w) \<subseteq> ob_hash ` set obs"
    using list_ok [OF assms(1-3)] by (force simp: dom_def)
  from assms(3,5) e have "failed = f" and w': "w' = (case st_list st cord [] (int (length obs)) 0 w2 of
      Ret (entries, found) \<Rightarrow> fold (reclassify u al be st) entries w2 | _ \<Rightarrow> w2)"
    by (simp_all add: reconcile_def)
  moreover have "inv w' \<and> arts w' = arts w2 \<and> dom (ents w') = dom (ents w2)"
    unfolding w' using 2(1) fold_reclassify_keeps [OF 2(1)] by (auto split: outcome.split)
  moreover have "dom (arts w) - set f \<subseteq> dom (ents w2)" using 2(3) all by blast
  ultimately show ?thesis using 2(1,2,4) by simp
qed

end

section \<open>The server\<close>

lemma server_update_task:
  assumes "server_inv w" and "st_update_task (server_store u js now) h info w = (x, w')"
  shows "server_inv w' \<and> server_arts w' = server_arts w \<and> dom (server_ents w') = dom (server_ents w)"
proof -
  obtain y c where c: "obj_update_task h info (wo_cat w) = (y, c)" by fastforce
  from assms(1) have oi: "obj_inv (wo_cat w)" by (simp add: server_inv_def)
  have ci: "obj_inv c \<and> dom (obj_ents c) = dom (obj_ents (wo_cat w))"
  proof (cases "gget (oc_entries (wo_cat w)) h")
    case None
    with c oi show ?thesis by (simp add: obj_update_task_def)
  next
    case (Some e)
    with obj_ents_ok [OF oi, of h] have "entry_ok h e" by (simp add: obj_ents_def)
    with oi have "obj_inv ((wo_cat w)\<lparr>oc_entries := gset (oc_entries (wo_cat w)) h (e\<lparr>en_task := overlay info (en_task e)\<rparr>),
        oc_dirty := True\<rparr>)"
      by (intro obj_inv_entry) (simp_all add: entry_ok_def)
    moreover have "dom (obj_ents c) = dom (obj_ents (wo_cat w))"
    proof -
      from Some have "h \<in> dom (obj_ents (wo_cat w))" by (simp add: obj_ents_def domIff)
      moreover from c Some have "obj_ents c = (obj_ents (wo_cat w))(h \<mapsto> e\<lparr>en_task := overlay info (en_task e)\<rparr>)"
        by (auto simp: obj_update_task_def obj_ents_def)
      ultimately show ?thesis by (simp add: insert_absorb)
    qed
    ultimately show ?thesis using c Some by (simp add: obj_update_task_def)
  qed
  from assms(2) c have w': "wo_cat w' = c" "wo_disk w' = wo_disk w"
    by (auto simp: server_store_def world_store_def on_cat_def notify_if_def notify_on_def world_notify_def
        object_store_def split: if_splits)
  with ci assms(1) show ?thesis by (simp add: server_inv_def server_arts_def server_ents_def)
qed

lemma server_ensure_arts:
  "st_ensure (server_store u js now) h n t w = (x, w') \<Longrightarrow> server_arts w' = server_arts w"
  by (auto simp: server_store_def world_store_def on_cat_def notify_if_def notify_on_def world_notify_def
      server_arts_def split: if_splits prod.splits)

interpretation rec: reconciler server_backend "server_store u js now" server_arts server_ents server_inv
  disk_order cat_order created_before for u js now
  by unfold_locales (erule server_ensure_arts, erule (1) server_update_task)

lemma server_ensure_none: "\<exists>w'. st_ensure (server_store u js now) h n t w = (None, w')"
  by (simp add: server_store_def world_store_def on_cat_def notify_if_def object_store_def obj_ensure_def
      split: option.split prod.split)

lemma server_ensure_all_none: "ensure_all (server_store u js now) t obs w = (failed, w') \<Longrightarrow> failed = []"
proof (induction obs arbitrary: w failed)
  case (Cons ob obs)
  obtain w1 where "st_ensure (server_store u js now) (ob_hash ob) (ob_size ob)
      (if is_zero (ob_last_modified ob) then t else ob_last_modified ob) w = (None, w1)"
    using server_ensure_none by blast
  with Cons show ?case by (auto simp: Let_def split: prod.splits)
qed simp

text \<open>
  C38: reconciliation at start-up. Whatever the catalog held before, afterwards every stored artifact
  has an entry; no artifact is touched and no entry is lost, whichever artifacts had to be classified.
\<close>

theorem reconcile_completes_catalog:
  assumes "server_inv w" and "disk_order ord w"
    and "\<forall>h d t. server_arts w h = Some (d, t) \<longrightarrow> h \<noteq> [] \<and> int (length d) < 2 ^ 63"
    and "reconcile u al server_backend (server_store u js now) ord cord later w = (failed, w')"
  shows "failed = [] \<and> server_inv w' \<and> server_arts w' = server_arts w
    \<and> dom (server_arts w) \<subseteq> dom (server_ents w') \<and> dom (server_ents w) \<subseteq> dom (server_ents w')"
proof -
  obtain obs w1 where l: "be_list server_backend ord w = (Inr obs, w1)"
    and obs: "obs = map (\<lambda>(h, ob). \<lparr>ob_hash = h, ob_size = int (length (mo_data ob)), ob_last_modified = mo_modified ob\<rparr>)
                 (gvisit ord (mem_objects (wo_disk w)))"
    by (simp add: server_backend_def on_disk_def memory_backend_def mem_list_def)
  have "\<forall>ob \<in> set obs. ob_hash ob \<noteq> [] \<and> in64 (ob_size ob)"
  proof
    fix ob assume "ob \<in> set obs"
    then obtain h m where hm: "(h, m) \<in> set (gvisit ord (mem_objects (wo_disk w)))"
      and ob: "ob_hash ob = h" "ob_size ob = int (length (mo_data m))" by (auto simp: obs)
    from hm have "gget (mem_objects (wo_disk w)) h = Some m"
      by (simp add: set_gvisit_sub)
    then have "server_arts w h = Some (mo_data m, mo_modified m)" by (simp add: server_arts_def mem_arts_def)
    with assms(3) ob show "ob_hash ob \<noteq> [] \<and> in64 (ob_size ob)" by (auto simp: in64_def)
  qed
  from rec.reconcile_covers [OF assms(1,2) l this assms(4)] have r: "server_inv w' \<and> server_arts w' = server_arts w
    \<and> dom (server_arts w) - set failed \<subseteq> dom (server_ents w') \<and> dom (server_ents w) - set failed \<subseteq> dom (server_ents w')" .
  obtain f w2 where e: "ensure_all (server_store u js now) later obs w1 = (f, w2)" by fastforce
  with assms(4) l have "failed = f" by (simp add: reconcile_def)
  with server_ensure_all_none [OF e] r show ?thesis by simp
qed

text \<open>An artifact that the catalog does not know.\<close>

definition example_lost :: server_world where
  "example_lost = example_world\<lparr>wo_cat := new_object\<rparr>"

theorem reconcile_completes_catalog_witness:
  "\<exists>failed w'. reconcile ascii_tables example_archive server_backend (server_store ascii_tables example_codec march_4)
       [''a1''] [''a1''] march_4 example_lost = (failed, w')
     \<and> server_ents example_lost ''a1'' = None \<and> ''a1'' \<in> dom (server_ents w')"
proof -
  obtain failed w' where r: "reconcile ascii_tables example_archive server_backend
      (server_store ascii_tables example_codec march_4) [''a1''] [''a1''] march_4 example_lost = (failed, w')" by fastforce
  have a: "server_arts example_lost = [''a1'' \<mapsto> (''0123456789'', march_4)]"
    using example_world_arts by (simp add: example_lost_def server_arts_def)
  have i: "server_inv example_lost"
    using example_world_inv by (simp add: example_lost_def server_inv_def new_object_def obj_inv_def gwf_def stats_ok_def
        wrap64_id in64_0)
  have o: "disk_order [''a1''] example_lost"
    using example_world_orders by (simp add: example_lost_def disk_order_def)
  have "server_ents example_lost ''a1'' = None"
    by (simp add: example_lost_def server_ents_def obj_ents_def new_object_def)
  with reconcile_completes_catalog [OF i o _ r] a r show ?thesis by (auto split: if_splits)
qed

end
