(* ===== verification/Class_Names.thy ===== *)
theory Class_Names
  imports Cache_Api
begin

text \<open>
  \<open>utils/shadcn-templ.go\<close>: the class lists of the pages. The merge of \<open>tailwind-merge-go\<close> is a
  parameter, a function from class lists to the merged text; what the file adds around it is modelled:
  flattening, the rewriting of the important marker and of variables, and the restored order.
\<close>

section \<open>Replacing the matches of an expression\<close>

text \<open>\<open>ReplaceAllString\<close> with a template, given as a function of the captured groups.\<close>

function replace_all_from :: "regex \<Rightarrow> (captures \<Rightarrow> string) \<Rightarrow> nat option \<Rightarrow> runes \<Rightarrow> string" where
  "replace_all_from r f prev inp =
     (case find_from r prev inp of
        None \<Rightarrow> unchunk inp
      | Some (start, caps, prev', rest) \<Rightarrow>
          unchunk (take (length inp - length start) inp) @ f caps
            @ (if length rest < length inp then replace_all_from r f prev' rest else unchunk rest))"
  by pat_completeness auto

termination
  by (relation "measure (\<lambda>(r, f, prev, inp). length inp)") auto

declare replace_all_from.simps [simp del, go_eval]

definition replace_all :: "regex \<Rightarrow> (captures \<Rightarrow> string) \<Rightarrow> string \<Rightarrow> string" where [go_eval]:
  "replace_all r f s = replace_all_from r f None (chunks s)"

definition css_var :: regex where [go_eval]:
  "css_var = Group 1 (Seq (lit ''--'') (plus (Rune (alnum_or ''-''))))"

definition tw_v4_var :: regex where [go_eval]:
  "tw_v4_var = seqs [lit ''-('', css_var, lit '')'']"

definition tw_v3_var :: regex where [go_eval]:
  "tw_v3_var = seqs [lit ''-[var('', css_var, lit '')]'']"

section \<open>The important marker\<close>

text \<open>The position of the last colon outside brackets, in bytes; the loop runs over runes.\<close>

fun colon_from :: "runes \<Rightarrow> int \<Rightarrow> int \<Rightarrow> int \<Rightarrow> int" where
  "colon_from [] depth i found = found"
| "colon_from ((r, bs) # rs) depth i found =
     (let i' = i + int (length bs) in
      if r = bval (CHR ''['') then colon_from rs (depth + 1) i' found
      else if r = bval (CHR '']'') then colon_from rs (depth - 1) i' found
      else if r = bval (CHR '':'') \<and> depth = 0 then colon_from rs depth i' i
      else colon_from rs depth i' found)"

definition last_top_level_colon :: "string \<Rightarrow> int" where [go_eval]:
  "last_top_level_colon s = colon_from (chunks s) 0 0 (-1)"

definition tw_important_to_v3 :: "string \<Rightarrow> string" where [go_eval]:
  "tw_important_to_v3 token =
     (if \<not> has_suffix token ''!'' then token
      else let base = trim_suffix token ''!''; k = nat (last_top_level_colon base + 1)
           in take k base @ ''!'' @ drop k base)"

definition tw_important_to_v4 :: "string \<Rightarrow> string" where [go_eval]:
  "tw_important_to_v4 token =
     (let k = nat (last_top_level_colon token + 1) in
      if k \<ge> length token \<or> token ! k \<noteq> CHR ''!'' then token
      else take k token @ drop (k + 1) token @ ''!'')"

definition tw_map_tokens :: "(string \<Rightarrow> string) \<Rightarrow> string \<Rightarrow> string" where [go_eval]:
  "tw_map_tokens f s = (if CHR ''!'' \<notin> set s then s else join_with '' '' (map f (Go_Strings.fields s)))"

section \<open>Order\<close>

text \<open>The walk over the tokens from the right, taking each as often as it survived.\<close>

fun pick_survivors :: "string list \<Rightarrow> (string, int) gomap \<Rightarrow> string list" where
  "pick_survivors [] remaining = []"
| "pick_survivors (t # ts) remaining =
     (if count_of remaining t = 0 then pick_survivors ts remaining
      else t # pick_survivors ts (add_count t (-1) remaining))"

definition tw_reorder :: "string \<Rightarrow> string \<Rightarrow> string" where [go_eval]:
  "tw_reorder input merged =
     (let survivors = Go_Strings.fields merged in
      if length survivors < 2 then merged
      else let ordered = pick_survivors (rev (Go_Strings.fields input)) (tally (\<lambda>c. c) survivors) in
        if length ordered \<noteq> length survivors then merged else join_with '' '' (rev ordered))"

section \<open>Class lists\<close>

text \<open>The inputs of \<open>CN\<close>; the keys of a conditional map in any order.\<close>

datatype classes =
    No_Class
  | One_Class string
  | Many_Classes "string list"
  | Nested_Classes "classes list"
  | Chosen_Classes "(string, bool) gomap"
  | Other_Class

fun flatten_class :: "classes \<Rightarrow> string list" where
  "flatten_class No_Class = []"
| "flatten_class (One_Class t) = (if t \<noteq> [] then [t] else [])"
| "flatten_class (Many_Classes cs) = filter (\<lambda>c. c \<noteq> []) cs"
| "flatten_class (Nested_Classes ts) = concat (map flatten_class ts)"
| "flatten_class (Chosen_Classes m) = sort (map fst (filter (\<lambda>(c, on). on \<and> c \<noteq> []) m))"
| "flatten_class Other_Class = []"

definition flatten_classes :: "classes list \<Rightarrow> string list" where [go_eval]:
  "flatten_classes values = concat (map flatten_class values)"

definition cn :: "(string list \<Rightarrow> string) \<Rightarrow> classes list \<Rightarrow> string" where [go_eval]:
  "cn merge cs =
     (let merged = map (\<lambda>c. tw_map_tokens tw_important_to_v3
                              (replace_all tw_v4_var (\<lambda>g. ''-[var('' @ group 1 g @ '')]'') c)) (flatten_classes cs);
          input = join_with '' '' merged;
          out = tw_map_tokens tw_important_to_v4 (tw_reorder input (merge merged))
      in replace_all tw_v3_var (\<lambda>g. ''-('' @ group 1 g @ '')'') out)"

section \<open>Other helpers\<close>

definition if_else :: "bool \<Rightarrow> 'a \<Rightarrow> 'a \<Rightarrow> 'a" where [go_eval]:
  "if_else condition true_value false_value = (if condition then true_value else false_value)"

definition merge_attributes :: "(string, 'v) gomap list \<Rightarrow> (string, 'v) gomap" where [go_eval]:
  "merge_attributes attrs = fold (fold (\<lambda>(k, v) m. gset m k v)) attrs []"

definition random_id :: "string \<Rightarrow> string" where [go_eval]: "random_id text = ''id-'' @ text"

definition script_url :: "int \<Rightarrow> string \<Rightarrow> string" where [go_eval]:
  "script_url started path = path @ ''?v='' @ int_str started"

lemmas [go_eval] = colon_from.simps pick_survivors.simps flatten_class.simps

section \<open>The marker moves there and back\<close>

text \<open>The same scan over bytes: the bytes of a longer rune are none of the three characters.\<close>

fun colon_scan :: "string \<Rightarrow> int \<Rightarrow> int \<Rightarrow> int \<Rightarrow> int" where
  "colon_scan [] depth i found = found"
| "colon_scan (c # cs) depth i found =
     (if c = CHR ''['' then colon_scan cs (depth + 1) (i + 1) found
      else if c = CHR '']'' then colon_scan cs (depth - 1) (i + 1) found
      else colon_scan cs depth (i + 1) (if c = CHR '':'' \<and> depth = 0 then i else found))"

lemma decode_rune_bytes:
  assumes "decode_rune c cs = (r, n)" and "\<not> bval c < 128"
  shows "1 \<le> n \<and> n - 1 \<le> length cs \<and> (\<forall>b \<in> set (take (n - 1) cs). 128 \<le> bval b)"
  using assms
  by (auto simp: decode_rune_def decode2_def decode3_def decode4_def cont_byte_def Let_def
      split: list.splits if_splits)

lemma scan_high:
  "\<forall>b \<in> set xs. 128 \<le> bval b \<Longrightarrow> colon_scan (xs @ ys) d i l = colon_scan ys d (i + int (length xs)) l"
proof (induction xs arbitrary: i)
  case (Cons x xs)
  then have "x \<noteq> CHR ''['' \<and> x \<noteq> CHR '']'' \<and> x \<noteq> CHR '':''" by (auto simp: bval_def)
  with Cons show ?case by (simp add: add.assoc)
qed simp

lemma bval_inj: "bval c = bval d \<longleftrightarrow> c = d"
  by (metis byte_bval)

lemma colon_from_chunks: "colon_from (chunks s) d i l = colon_scan s d i l"
proof (induction s arbitrary: d i l rule: chunks.induct)
  case (2 c cs)
  obtain r n where rn: "decode_rune c cs = (r, n)" by fastforce
  show ?case
  proof (cases "bval c < 128")
    case True
    then have "decode_rune c cs = (bval c, 1)" by (simp add: decode_rune_def Let_def)
    with 2 [OF this [symmetric] refl] show ?thesis by (simp add: bval_inj Let_def)
  next
    case False
    note b = decode_rune_bytes [OF rn False]
    from False have nc: "r \<noteq> bval (CHR ''['') \<and> r \<noteq> bval (CHR '']'') \<and> r \<noteq> bval (CHR '':'')"
      using decode_rune_high [OF False, of cs] rn by (auto simp: bval_def)
    have "colon_scan (c # cs) d i l = colon_scan ((c # take (n - 1) cs) @ drop (n - 1) cs) d i l" by simp
    also have "\<dots> = colon_scan (drop (n - 1) cs) d (i + int (length (c # take (n - 1) cs))) l"
      using b False by (intro scan_high) auto
    finally show ?thesis using 2 [OF rn [symmetric] refl] rn nc by (simp add: Let_def)
  qed
qed simp

text \<open>Reading on from the middle of a text.\<close>

fun depth_after :: "string \<Rightarrow> int \<Rightarrow> int" where
  "depth_after [] d = d"
| "depth_after (c # cs) d = depth_after cs (if c = CHR ''['' then d + 1 else if c = CHR '']'' then d - 1 else d)"

lemma scan_append:
  "colon_scan (a @ b) d i l = colon_scan b (depth_after a d) (i + int (length a)) (colon_scan a d i l)"
  by (induction a arbitrary: d i l) (simp_all add: add.assoc)

lemma scan_bounds: "colon_scan a d i l = l \<or> (i \<le> colon_scan a d i l \<and> colon_scan a d i l < i + int (length a))"
proof (induction a arbitrary: d i l)
  case (Cons c a)
  define d' where "d' = (if c = CHR ''['' then d + 1 else if c = CHR '']'' then d - 1 else d)"
  define l' where "l' = (if c = CHR '':'' \<and> d = 0 then i else l)"
  have "colon_scan (c # a) d i l = colon_scan a d' (i + 1) l'" by (simp add: d'_def l'_def)
  moreover have "l' = l \<or> l' = i" by (simp add: l'_def)
  ultimately show ?case using Cons [of d' "i + 1" l'] by auto
qed simp

lemma scan_shift:
  "l < i \<Longrightarrow> m < j \<Longrightarrow> colon_scan a d i l = l \<Longrightarrow> colon_scan a d j m = m"
proof (induction a arbitrary: d i j)
  case (Cons c a)
  have "\<not> (c = CHR '':'' \<and> d = 0)"
    using Cons.prems(1,3) scan_bounds [of a d "i + 1" i] by auto
  with Cons.prems Cons.IH [of "i + 1" "j + 1"] show ?case by (auto split: if_splits)
qed simp

lemma last_colon_bounds: "-1 \<le> last_top_level_colon s \<and> last_top_level_colon s < int (length s)"
  using scan_bounds [of s 0 0 "-1"] by (auto simp: last_top_level_colon_def colon_from_chunks)

lemma last_colon_insert:
  assumes "k = nat (last_top_level_colon s + 1)"
  shows "last_top_level_colon (take k s @ ''!'' @ drop k s) = last_top_level_colon s"
proof -
  let ?i = "last_top_level_colon s" let ?a = "take k s" let ?b = "drop k s"
  define l where "l = colon_scan ?a 0 0 (-1)"
  have k: "int k = ?i + 1" "k \<le> length s" "length ?a = k" using last_colon_bounds [of s] assms by auto
  have all: "?i = colon_scan ?b (depth_after ?a 0) (int k) l"
    using scan_append [of ?a ?b 0 0 "-1"] k by (simp add: l_def last_top_level_colon_def colon_from_chunks)
  have lk: "l < int k" using scan_bounds [of ?a 0 0 "-1"] k by (auto simp: l_def)
  have il: "?i = l"
    using scan_bounds [of ?b "depth_after ?a 0" "int k" l, folded all] k(1) by linarith
  from lk have "l < int k + 1" by simp
  from scan_shift [OF lk this] all il have "colon_scan ?b (depth_after ?a 0) (int k + 1) l = l" by metis
  moreover have "last_top_level_colon (?a @ ''!'' @ ?b) = colon_scan (''!'' @ ?b) (depth_after ?a 0) (int k) l"
    by (simp only: last_top_level_colon_def colon_from_chunks scan_append k(3) l_def add_0)
  ultimately show ?thesis using il by simp
qed

text \<open>
  The important marker survives the translation for the merge. A token is restored exactly unless it
  already carries the marker in the old position and not in the new one.
\<close>

theorem tw_important_roundtrip:
  "tw_important_to_v4 (tw_important_to_v3 t) = t
     \<longleftrightarrow> has_suffix t ''!'' \<or> \<not> has_prefix (drop (nat (last_top_level_colon t + 1)) t) ''!''"
proof (cases "has_suffix t ''!''")
  case True
  then obtain base where t: "t = base @ ''!''" by (auto simp: has_suffix_iff)
  then have base: "trim_suffix t ''!'' = base" by (simp add: trim_suffix_def has_suffix_def)
  define k where "k = nat (last_top_level_colon base + 1)"
  have k: "k \<le> length base" using last_colon_bounds [of base] by (simp add: k_def nat_le_iff)
  have v3: "tw_important_to_v3 t = take k base @ ''!'' @ drop k base"
    using True by (simp add: tw_important_to_v3_def base k_def [symmetric] Let_def)
  then have "nat (last_top_level_colon (tw_important_to_v3 t) + 1) = k"
    using last_colon_insert [OF k_def] by (simp add: k_def)
  then have "tw_important_to_v4 (tw_important_to_v3 t) = base @ ''!''"
    using k by (simp only: tw_important_to_v4_def Let_def) (simp add: v3 nth_append min_def)
  with t True show ?thesis by simp
next
  case False
  define k where "k = nat (last_top_level_colon t + 1)"
  have v3: "tw_important_to_v3 t = t" using False by (simp add: tw_important_to_v3_def)
  show ?thesis
  proof (cases "k < length t \<and> t ! k = CHR ''!''")
    case True
    then have d: "drop k t = CHR ''!'' # drop (k + 1) t" by (metis Cons_nth_drop_Suc Suc_eq_plus1)
    have "has_suffix (take k t @ drop (k + 1) t @ ''!'') ''!''"
      using has_suffix_iff append_assoc by metis
    with False have "take k t @ drop (k + 1) t @ ''!'' \<noteq> t" by metis
    with True False d show ?thesis
      by (simp add: v3 tw_important_to_v4_def k_def [symmetric] Let_def has_prefix_iff)
  next
    case no: False
    then have "\<not> has_prefix (drop k t) ''!''"
      by (cases "k < length t") (auto simp: has_prefix_iff Cons_nth_drop_Suc [symmetric])
    with no False show ?thesis by (auto simp: v3 tw_important_to_v4_def k_def [symmetric] Let_def)
  qed
qed

section \<open>The order is the order of the last occurrences\<close>

lemma remdups_snoc: "remdups (xs @ [t]) = filter (\<lambda>x. x \<noteq> t) (remdups xs) @ [t]"
  by (induction xs) auto

lemma pick_survivors_spec:
  assumes "\<And>c. count_of m c = 0 \<or> count_of m c = 1"
  shows "rev (pick_survivors ts m) = filter (\<lambda>c. count_of m c = 1) (remdups (rev ts))"
  using assms
proof (induction ts arbitrary: m)
  case (Cons t ts)
  show ?case
  proof (cases "count_of m t = 0")
    case True
    with Cons.IH [OF Cons.prems] show ?thesis
      by (auto simp: remdups_snoc filter_filter intro: filter_cong)
  next
    case False
    with Cons.prems have one: "count_of m t = 1" by blast
    have dec: "count_of (add_count t (-1) m) c = (if c = t then 0 else count_of m c)" for c
      using one by (simp add: count_of_add wrap64_id in64_0)
    have "rev (pick_survivors ts (add_count t (-1) m))
        = filter (\<lambda>c. count_of (add_count t (-1) m) c = 1) (remdups (rev ts))"
      using Cons.prems by (intro Cons.IH) (simp add: dec)
    with one show ?thesis by (auto simp: remdups_snoc dec filter_filter intro: filter_cong)
  qed
qed simp

text \<open>
  The merged classes are put back in the order of the input. When the merge returns each surviving
  class once, in whatever order, the result is the survivors in the order of their last occurrences in
  the input.
\<close>

theorem tw_reorder_keeps_last:
  assumes "distinct (Go_Strings.fields merged)" and "set (Go_Strings.fields merged) \<subseteq> set (Go_Strings.fields input)"
    and "2 \<le> length (Go_Strings.fields merged)" and "int (length (Go_Strings.fields merged)) < 2 ^ 63"
  shows "tw_reorder input merged
    = join_with '' '' (filter (\<lambda>c. c \<in> set (Go_Strings.fields merged)) (remdups (Go_Strings.fields input)))"
proof -
  let ?m = "tally (\<lambda>c. c) (Go_Strings.fields merged)"
  have cnt: "count_of ?m c = (if c \<in> set (Go_Strings.fields merged) then 1 else 0)" for c
    using count_tally [OF assms(4), of "\<lambda>c. c" c] assms(1)
    by (auto simp: distinct_length_filter filter_empty_conv)
  have ord: "rev (pick_survivors (rev (Go_Strings.fields input)) ?m)
      = filter (\<lambda>c. c \<in> set (Go_Strings.fields merged)) (remdups (Go_Strings.fields input))"
    using pick_survivors_spec [of ?m "rev (Go_Strings.fields input)"] by (simp add: cnt)
  have "length (pick_survivors (rev (Go_Strings.fields input)) ?m) = length (Go_Strings.fields merged)"
  proof -
    have "set (filter (\<lambda>c. c \<in> set (Go_Strings.fields merged)) (remdups (Go_Strings.fields input))) = set (Go_Strings.fields merged)"
      using assms(2) by auto
    then have "length (filter (\<lambda>c. c \<in> set (Go_Strings.fields merged)) (remdups (Go_Strings.fields input))) = length (Go_Strings.fields merged)"
      using assms(1) distinct_card [of "Go_Strings.fields merged"]
        distinct_card [of "filter (\<lambda>c. c \<in> set (Go_Strings.fields merged)) (remdups (Go_Strings.fields input))"] by simp
    then show ?thesis using ord length_rev by metis
  qed
  with assms(3) ord show ?thesis by (simp add: tw_reorder_def Let_def)
qed

end
