(* ===== verification/Html_Writes.thy ===== *)
theory Html_Writes
  imports Class_Names "HOL-Library.Sublist"
begin

text \<open>
  What a generated template does (\<open>*_templ.go\<close>): it writes constant markup and, between it, data that
  passes through the functions of the templ library. The writes of a component are a list, with the writes
  of its children in place; \<open>render_writes\<close> performs them and stops at the first that fails. The library
  is a parameter. A lexer of tags and quoted values says where in the markup a write stands; data that stands
  in text or in a quoted value, and is escaped, does not change the tags of the page.
\<close>

section \<open>Writes\<close>

text \<open>
  The functions a value passes through before it is escaped: \<open>JoinStringErrs\<close>, \<open>JoinURLErrs\<close> of a text and
  of a \<open>SafeURL\<close>, \<open>SanitizeStyleAttributeValues\<close> of a \<open>SafeCSS\<close> and of a text, \<open>CSSClasses(..).String()\<close>.
\<close>

datatype data_kind = As_Text | As_Url | As_Safe_Url | As_Safe_Css | As_Style | As_Classes

type_synonym attributes = "(string, string) gomap"

datatype html_write =
    Markup string
  | Data data_kind string
  | Css_Items string
  | Attributes attributes

record templ_lib =
  tl_value :: "data_kind \<Rightarrow> string \<Rightarrow> string option"
  tl_escape :: "string \<Rightarrow> string"
  tl_css_items :: "string \<Rightarrow> string option"
  tl_attributes :: "attributes \<Rightarrow> string option"
  tl_merge :: "string list \<Rightarrow> string"

fun emit :: "templ_lib \<Rightarrow> html_write \<Rightarrow> string option" where
  "emit L (Markup s) = Some s"
| "emit L (Data k v) = map_option (tl_escape L) (tl_value L k v)"
| "emit L (Css_Items c) = tl_css_items L c"
| "emit L (Attributes a) = tl_attributes L a"

text \<open>The text that reaches the buffer, and whether a write failed.\<close>

fun render_writes :: "templ_lib \<Rightarrow> html_write list \<Rightarrow> string \<times> bool" where
  "render_writes L [] = ([], False)"
| "render_writes L (w # ws) =
     (case emit L w of
        None \<Rightarrow> ([], True)
      | Some s \<Rightarrow> (case render_writes L ws of (t, failed) \<Rightarrow> (s @ t, failed)))"

section \<open>Tags and quoted values\<close>

datatype lex = In_Text | In_Tag | In_Double | In_Single

definition dquote :: char where "dquote = CHR 0x22"
definition squote :: char where "squote = CHR 0x27"

fun lex_step :: "lex \<Rightarrow> char \<Rightarrow> lex" where
  "lex_step In_Text c = (if c = CHR ''<'' then In_Tag else In_Text)"
| "lex_step In_Tag c =
     (if c = CHR ''>'' then In_Text else if c = dquote then In_Double else if c = squote then In_Single else In_Tag)"
| "lex_step In_Double c = (if c = dquote then In_Tag else In_Double)"
| "lex_step In_Single c = (if c = squote then In_Tag else In_Single)"

fun lex_run :: "lex \<Rightarrow> string \<Rightarrow> lex" where
  "lex_run q [] = q"
| "lex_run q (c # cs) = lex_run (lex_step q c) cs"

text \<open>The tags of a page: text is dropped, and so is what stands between quotes.\<close>

fun tag_char :: "lex \<Rightarrow> char \<Rightarrow> bool" where
  "tag_char In_Text c = (c = CHR ''<'')"
| "tag_char In_Tag c = True"
| "tag_char In_Double c = (c = dquote)"
| "tag_char In_Single c = (c = squote)"

fun skeleton :: "lex \<Rightarrow> string \<Rightarrow> string" where
  "skeleton q [] = []"
| "skeleton q (c # cs) = (if tag_char q c then [c] else []) @ skeleton (lex_step q c) cs"

section \<open>Where the data stands\<close>

fun placed :: "lex \<Rightarrow> html_write list \<Rightarrow> lex option" where
  "placed q [] = Some q"
| "placed q (Markup s # ws) = placed (lex_run q s) ws"
| "placed q (Data k v # ws) = (if q = In_Tag then None else placed q ws)"
| "placed q (Css_Items c # ws) = placed q ws"
| "placed q (Attributes a # ws) = (if q = In_Tag then placed q ws else None)"

text \<open>The tags the constant markup alone makes.\<close>

fun outline :: "templ_lib \<Rightarrow> lex \<Rightarrow> html_write list \<Rightarrow> string" where
  "outline L q [] = []"
| "outline L q (Markup s # ws) = skeleton q s @ outline L (lex_run q s) ws"
| "outline L q (Data k v # ws) = outline L q ws"
| "outline L q (Css_Items c # ws) = outline L q ws"
| "outline L q (Attributes a # ws) =
     (case tl_attributes L a of None \<Rightarrow> [] | Some t \<Rightarrow> skeleton q t) @ outline L q ws"

text \<open>Writes without their data.\<close>

fun mask_data :: "html_write \<Rightarrow> html_write" where
  "mask_data (Data k v) = Data k []"
| "mask_data (Css_Items c) = Css_Items []"
| "mask_data w = w"

abbreviation masked :: "html_write list \<Rightarrow> html_write list" where
  "masked \<equiv> map mask_data"

text \<open>
  The documented behaviour of the library: escaped text has none of the characters that delimit tags and
  values; class names that are plain text need no style element; rendered attributes end inside the tag.
\<close>

definition escapes_markup :: "templ_lib \<Rightarrow> bool" where
  "escapes_markup L \<longleftrightarrow>
     (\<forall>v. set (tl_escape L v) \<inter> {CHR ''<'', CHR ''>'', dquote, squote} = {})
     \<and> (\<forall>c t. tl_css_items L c = Some t \<longrightarrow> t = [])
     \<and> (\<forall>a t. tl_attributes L a = Some t \<longrightarrow> lex_run In_Tag t = In_Tag)"

section \<open>Escaped data is inert\<close>

lemma lex_run_append [simp]: "lex_run q (xs @ ys) = lex_run (lex_run q xs) ys"
  by (induction xs arbitrary: q) auto

lemma skeleton_append: "skeleton q (xs @ ys) = skeleton q xs @ skeleton (lex_run q xs) ys"
  by (induction xs arbitrary: q) auto

lemma placed_append: "placed q (xs @ ys) = Option.bind (placed q xs) (\<lambda>q. placed q ys)"
  by (induction q xs rule: placed.induct) auto

lemma inert_text:
  assumes "set s \<inter> {CHR ''<'', CHR ''>'', dquote, squote} = {}" and "q \<noteq> In_Tag"
  shows "lex_run q s = q \<and> skeleton q s = []"
  using assms by (induction s) (cases q; auto)+

lemma outline_masked: "outline L q (masked ws) = outline L q ws"
  by (induction L q ws rule: outline.induct) auto

lemma emit_outline:
  assumes "escapes_markup L" and "placed q [w] = Some q'" and "emit L w = Some s"
  shows "skeleton q s = outline L q [w] \<and> lex_run q s = q'"
proof (cases w)
  case (Data k v)
  with assms(2) have "q \<noteq> In_Tag" by (auto split: if_splits)
  with assms Data show ?thesis
    using inert_text [of s q] by (auto simp: escapes_markup_def split: if_splits)
next
  case (Css_Items c)
  with assms have "s = []" by (auto simp: escapes_markup_def)
  with assms Css_Items show ?thesis by simp
next
  case (Attributes a)
  with assms show ?thesis by (auto simp: escapes_markup_def split: if_splits)
qed (use assms in auto)

lemma placed_Cons: "placed q (w # ws) = Option.bind (placed q [w]) (\<lambda>q. placed q ws)"
  using placed_append [of q "[w]" ws] by simp

lemma outline_Cons:
  "placed q [w] = Some q1 \<Longrightarrow> outline L q (w # ws) = outline L q [w] @ outline L q1 ws"
  by (cases w) (auto split: if_splits option.splits)

lemma render_outline:
  assumes "escapes_markup L" and "placed q ws = Some q'" and "render_writes L ws = (out, failed)"
  shows "prefix (skeleton q out) (outline L q ws)
    \<and> (\<not> failed \<longrightarrow> skeleton q out = outline L q ws \<and> lex_run q out = q')"
  using assms(2,3)
proof (induction ws arbitrary: q out)
  case (Cons w ws)
  then obtain q1 where q1: "placed q [w] = Some q1" "placed q1 ws = Some q'"
    using placed_Cons [of q w ws] by (cases "placed q [w]") simp_all
  show ?case
  proof (cases "emit L w")
    case (Some s)
    obtain t failed' where t: "render_writes L ws = (t, failed')" by fastforce
    with Cons.prems Some have "out = s @ t" "failed' = failed" by simp_all
    with Cons.IH [OF q1(2)] t emit_outline [OF assms(1) q1(1) Some] outline_Cons [OF q1(1), of L ws]
    show ?thesis by (simp add: skeleton_append)
  qed (use Cons.prems in simp)
qed simp

text \<open>Two runs of a template whose writes differ in their data only: the same tags.\<close>

lemma same_tags:
  assumes "escapes_markup L" and "masked ws = masked ws'"
    and "placed In_Text ws = Some In_Text" and "placed In_Text ws' = Some In_Text"
    and "render_writes L ws = (out, failed)" and "render_writes L ws' = (out', False)"
  shows "prefix (skeleton In_Text out) (skeleton In_Text out')
    \<and> (\<not> failed \<longrightarrow> skeleton In_Text out = skeleton In_Text out')"
  using render_outline [OF assms(1,3,5)] render_outline [OF assms(1,4,6)] outline_masked [of L In_Text ws]
    outline_masked [of L In_Text ws'] assms(2) by simp

lemma render_complete: "(\<And>w. emit L w \<noteq> None) \<Longrightarrow> \<not> snd (render_writes L ws)"
  by (induction ws) (auto split: option.splits prod.splits)

section \<open>Components whose children are text\<close>

text \<open>A sequence of writes that starts and ends in text.\<close>

abbreviation block :: "html_write list \<Rightarrow> bool" where
  "block ws \<equiv> placed In_Text ws = Some In_Text"

lemma placed_block [simp]: "block xs \<Longrightarrow> placed In_Text (xs @ ys) = placed In_Text ys"
  by (simp add: placed_append)

lemma block_concat [simp]: "(\<And>x. x \<in> set xs \<Longrightarrow> block (f x)) \<Longrightarrow> block (concat (map f xs))"
  by (induction xs) auto

lemma masked_concat:
  assumes "map p xs = map p' ys" and "\<And>x y. x \<in> set xs \<Longrightarrow> y \<in> set ys \<Longrightarrow> p x = p' y \<Longrightarrow> masked (f x) = masked (g y)"
  shows "masked (concat (map f xs)) = masked (concat (map g ys))"
  using assms
proof (induction xs arbitrary: ys)
  case (Cons x xs)
  then obtain y zs where "ys = y # zs" "p x = p' y" "map p xs = map p' zs" by (cases ys) auto
  with Cons show ?case by simp
qed simp

section \<open>A concrete library\<close>

text \<open>Escaping by character references, attributes in the order of the map, classes joined by spaces.\<close>

definition example_escape :: "string \<Rightarrow> string" where
  "example_escape t =
     concat (map (\<lambda>c. if c = CHR ''<'' then ''&lt;'' else if c = CHR ''>'' then ''&gt;''
       else if c = dquote then ''&#34;'' else if c = squote then ''&#39;'' else [c]) t)"

definition example_templ :: templ_lib where
  "example_templ =
     \<lparr>tl_value = (\<lambda>k v. Some v), tl_escape = example_escape, tl_css_items = (\<lambda>c. Some []),
      tl_attributes = (\<lambda>a. Some (concat (map (\<lambda>(k, v). '' '' @ example_escape k @ ''=\"'' @ example_escape v @ ''\"'') a))),
      tl_merge = join_with '' ''\<rparr>"

lemma example_escape_inert: "set (example_escape t) \<inter> {CHR ''<'', CHR ''>'', dquote, squote} = {}"
  by (auto simp: example_escape_def dquote_def squote_def split: if_splits)

lemma inert_in_tag: "set s \<inter> {CHR ''<'', CHR ''>'', dquote, squote} = {} \<Longrightarrow> lex_run In_Tag s = In_Tag"
  by (induction s) auto

lemma example_escapes: "escapes_markup example_templ"
proof -
  have "lex_run In_Tag (concat (map (\<lambda>(k, v). '' '' @ example_escape k @ ''=\"'' @ example_escape v @ ''\"'') a)) = In_Tag"
    for a :: attributes
    using inert_in_tag [OF example_escape_inert] inert_text [OF example_escape_inert, of In_Double]
    by (induction a) (auto simp: dquote_def squote_def)
  then show ?thesis using example_escape_inert by (simp add: escapes_markup_def example_templ_def)
qed

lemma example_complete: "render_writes example_templ ws = (out, failed) \<Longrightarrow> \<not> failed"
proof -
  have "emit example_templ w \<noteq> None" for w by (cases w) (simp_all add: example_templ_def)
  then show "render_writes example_templ ws = (out, failed) \<Longrightarrow> \<not> failed"
    using render_complete [of example_templ ws] by simp
qed

end
