(* ===== verification/Ui_Components.thy ===== *)
theory Ui_Components
  imports Html_Writes
begin

text \<open>
  The components of \<open>components/*\<close> as generated by templ: cards, tables, alerts, badges, buttons, inputs,
  labels, separators and frames of a fixed ratio, each the list of its writes. An optional property that is
  empty writes nothing; the classes are merged by \<open>CN\<close>.
\<close>

section \<open>Properties\<close>

text \<open>The variadic \<open>props\<close>: the first, or the zero value.\<close>

definition given_props :: "'p \<Rightarrow> 'p list \<Rightarrow> 'p" where [simp]:
  "given_props zero ps = (case ps of [] \<Rightarrow> zero | p # _ \<Rightarrow> p)"

record ui_props =
  ui_id :: string
  ui_class :: string
  ui_attributes :: attributes

definition no_props :: ui_props where [simp]:
  "no_props = \<lparr>ui_id = [], ui_class = [], ui_attributes = []\<rparr>"

record card_props = ui_props +
  cp_size :: string

record alert_props = ui_props +
  ap_variant :: string

record badge_props = ui_props +
  gp_variant :: string
  gp_href :: string

record button_props = ui_props +
  tp_variant :: string
  tp_size :: string
  tp_href :: string
  tp_target :: string
  tp_disabled :: bool
  tp_type :: string
  tp_form :: string

record input_props = ui_props +
  np_name :: string
  np_type :: string
  np_form :: string
  np_placeholder :: string
  np_value :: string
  np_disabled :: bool
  np_read_only :: bool
  np_required :: bool
  np_accept :: string

record label_props = ui_props +
  lp_for :: string

record separator_props = ui_props +
  sp_orientation :: string

record ratio_props = ui_props +
  rp_ratio :: string

definition no_card :: card_props where [simp]: "no_card = \<lparr>ui_id = [], ui_class = [], ui_attributes = [], cp_size = []\<rparr>"
definition no_alert :: alert_props where [simp]: "no_alert = \<lparr>ui_id = [], ui_class = [], ui_attributes = [], ap_variant = []\<rparr>"
definition no_badge :: badge_props where [simp]:
  "no_badge = \<lparr>ui_id = [], ui_class = [], ui_attributes = [], gp_variant = [], gp_href = []\<rparr>"
definition no_button :: button_props where [simp]:
  "no_button = \<lparr>ui_id = [], ui_class = [], ui_attributes = [], tp_variant = [], tp_size = [], tp_href = [], tp_target = [],
     tp_disabled = False, tp_type = [], tp_form = []\<rparr>"
definition no_input :: input_props where [simp]:
  "no_input = \<lparr>ui_id = [], ui_class = [], ui_attributes = [], np_name = [], np_type = [], np_form = [], np_placeholder = [],
     np_value = [], np_disabled = False, np_read_only = False, np_required = False, np_accept = []\<rparr>"
definition no_label :: label_props where [simp]: "no_label = \<lparr>ui_id = [], ui_class = [], ui_attributes = [], lp_for = []\<rparr>"
definition no_separator :: separator_props where [simp]:
  "no_separator = \<lparr>ui_id = [], ui_class = [], ui_attributes = [], sp_orientation = []\<rparr>"
definition no_ratio :: ratio_props where [simp]: "no_ratio = \<lparr>ui_id = [], ui_class = [], ui_attributes = [], rp_ratio = []\<rparr>"

section \<open>Parts of an element\<close>

definition attr :: "string \<Rightarrow> data_kind \<Rightarrow> string \<Rightarrow> html_write list" where
  "attr before k v = [Markup before, Data k v, Markup ''\"'']"

definition attr_if :: "string \<Rightarrow> string \<Rightarrow> html_write list" where
  "attr_if before v = (if v \<noteq> [] then attr before As_Text v else [])"

definition flag_if :: "string \<Rightarrow> bool \<Rightarrow> html_write list" where
  "flag_if text on = (if on then [Markup text] else [])"

definition id_attr :: "string \<Rightarrow> html_write list" where
  "id_attr i = attr_if '' id=\"'' i"

text \<open>
  An element whose attributes are its optional identifier, its slot, its classes and the given ones, around
  its children.
\<close>

definition slotted :: "string \<Rightarrow> string \<Rightarrow> string \<Rightarrow> ui_props \<Rightarrow> html_write list \<Rightarrow> html_write list" where
  "slotted tag slot cls p children =
     [Css_Items cls, Markup (''<'' @ tag)] @ id_attr (ui_id p)
     @ attr ('' data-slot=\"'' @ slot @ ''\" class=\"'') As_Classes cls
     @ [Attributes (ui_attributes p), Markup ''>''] @ children @ [Markup (''</'' @ tag @ ''>'')]"

definition class_slot ::
  "templ_lib \<Rightarrow> string \<Rightarrow> string \<Rightarrow> string \<Rightarrow> ui_props list \<Rightarrow> html_write list \<Rightarrow> html_write list" where
  "class_slot L tag slot classes ps children =
     (let p = given_props no_props ps
      in slotted tag slot (cn (tl_merge L) [One_Class classes, One_Class (ui_class p)]) p children)"

section \<open>Cards\<close>

definition card_frame :: "templ_lib \<Rightarrow> card_props list \<Rightarrow> html_write list \<Rightarrow> html_write list" where
  "card_frame L ps children =
     (let p = given_props no_card ps;
          size = (if cp_size p = [] then ''default'' else cp_size p);
          cls = cn (tl_merge L) [One_Class
      (''ring-foreground/10 bg-card text-card-foreground gap-(--card-spacing) overflow-hidden ''
      @ ''rounded-xl py-(--card-spacing) text-sm ring-1 [--card-spacing:--spacing(4)] ''
      @ ''has-data-[slot=card-footer]:pb-0 has-[>img:first-child]:pt-0 ''
      @ ''data-[size=sm]:[--card-spacing:--spacing(3)] ''
      @ ''data-[size=sm]:has-data-[slot=card-footer]:pb-0 *:[img:first-child]:rounded-t-xl ''
      @ ''*:[img:last-child]:rounded-b-xl group/card flex flex-col''), One_Class (ui_class p)]
      in [Css_Items cls, Markup ''<div''] @ id_attr (ui_id p)
         @ [Markup '' data-slot=\"card\" data-size=\"'', Data As_Text size, Markup ''\" class=\"'', Data As_Classes cls,
            Markup ''\"'', Attributes (ui_attributes p), Markup ''>''] @ children @ [Markup ''</div>''])"

definition card_header :: "templ_lib \<Rightarrow> ui_props list \<Rightarrow> html_write list \<Rightarrow> html_write list" where
  "card_header L = class_slot L ''div'' ''card-header''
     (''gap-1 rounded-t-xl px-(--card-spacing) [.border-b]:pb-(--card-spacing) group/card-header ''
      @ ''@container/card-header grid auto-rows-min items-start ''
      @ ''has-data-[slot=card-action]:grid-cols-[1fr_auto] ''
      @ ''has-data-[slot=card-description]:grid-rows-[auto_auto]'')"

definition card_title :: "templ_lib \<Rightarrow> ui_props list \<Rightarrow> html_write list \<Rightarrow> html_write list" where
  "card_title L = class_slot L ''div'' ''card-title''
     ''text-base leading-snug font-medium group-data-[size=sm]/card:text-sm font-heading''"

definition card_description :: "templ_lib \<Rightarrow> ui_props list \<Rightarrow> html_write list \<Rightarrow> html_write list" where
  "card_description L = class_slot L ''div'' ''card-description''
     ''text-muted-foreground text-sm''"

definition card_action :: "templ_lib \<Rightarrow> ui_props list \<Rightarrow> html_write list \<Rightarrow> html_write list" where
  "card_action L = class_slot L ''div'' ''card-action''
     ''col-start-2 row-span-2 row-start-1 self-start justify-self-end''"

definition card_content :: "templ_lib \<Rightarrow> ui_props list \<Rightarrow> html_write list \<Rightarrow> html_write list" where
  "card_content L = class_slot L ''div'' ''card-content''
     ''px-(--card-spacing)''"

definition card_footer :: "templ_lib \<Rightarrow> ui_props list \<Rightarrow> html_write list \<Rightarrow> html_write list" where
  "card_footer L = class_slot L ''div'' ''card-footer''
     ''bg-muted/50 rounded-b-xl border-t p-(--card-spacing) flex items-center''"

section \<open>Tables\<close>

definition table_frame :: "templ_lib \<Rightarrow> ui_props list \<Rightarrow> html_write list \<Rightarrow> html_write list" where
  "table_frame L ps children =
     [Markup ''<div data-slot=\"table-container\" class=\"relative w-full overflow-x-auto\">'']
     @ class_slot L ''table'' ''table'' ''w-full caption-bottom text-sm'' ps children
     @ [Markup ''</div>'']"

definition table_header :: "templ_lib \<Rightarrow> ui_props list \<Rightarrow> html_write list \<Rightarrow> html_write list" where
  "table_header L = class_slot L ''thead'' ''table-header''
     ''[&_tr]:border-b''"

definition table_body :: "templ_lib \<Rightarrow> ui_props list \<Rightarrow> html_write list \<Rightarrow> html_write list" where
  "table_body L = class_slot L ''tbody'' ''table-body''
     ''[&_tr:last-child]:border-0''"

definition table_footer :: "templ_lib \<Rightarrow> ui_props list \<Rightarrow> html_write list \<Rightarrow> html_write list" where
  "table_footer L = class_slot L ''tfoot'' ''table-footer''
     ''bg-muted/50 border-t font-medium [&>tr]:last:border-b-0''"

definition table_row :: "templ_lib \<Rightarrow> ui_props list \<Rightarrow> html_write list \<Rightarrow> html_write list" where
  "table_row L = class_slot L ''tr'' ''table-row''
     (''hover:bg-muted/50 data-[state=selected]:bg-muted border-b transition-colors ''
      @ ''has-aria-expanded:bg-muted/50'')"

definition table_head :: "templ_lib \<Rightarrow> ui_props list \<Rightarrow> html_write list \<Rightarrow> html_write list" where
  "table_head L = class_slot L ''th'' ''table-head''
     (''text-foreground h-10 px-2 text-left align-middle font-medium whitespace-nowrap ''
      @ ''[&:has([role=checkbox])]:pr-0 [&:has([data-slot=checkbox])]:pr-0'')"

definition table_cell :: "templ_lib \<Rightarrow> ui_props list \<Rightarrow> html_write list \<Rightarrow> html_write list" where
  "table_cell L = class_slot L ''td'' ''table-cell''
     (''p-2 align-middle whitespace-nowrap [&:has([role=checkbox])]:pr-0 ''
      @ ''[&:has([data-slot=checkbox])]:pr-0'')"

definition table_caption :: "templ_lib \<Rightarrow> ui_props list \<Rightarrow> html_write list \<Rightarrow> html_write list" where
  "table_caption L = class_slot L ''caption'' ''table-caption''
     ''text-muted-foreground mt-4 text-sm''"

section \<open>Alerts\<close>

definition alert_variant_classes :: "string \<Rightarrow> string" where
  "alert_variant_classes v =
     (if v = ''destructive'' then (''text-destructive bg-card *:data-[slot=alert-description]:text-destructive/90 ''
      @ ''*:[svg]:text-current'')
      else ''bg-card text-card-foreground'')"

definition alert_frame :: "templ_lib \<Rightarrow> alert_props list \<Rightarrow> html_write list \<Rightarrow> html_write list" where
  "alert_frame L ps children =
     (let p = given_props no_alert ps;
          cls = cn (tl_merge L) [One_Class
      (''grid gap-0.5 rounded-lg border px-2.5 py-2 text-left text-sm ''
      @ ''has-data-[slot=alert-action]:relative has-data-[slot=alert-action]:pr-18 ''
      @ ''has-[>svg]:grid-cols-[auto_1fr] has-[>svg]:gap-x-2 *:[svg]:row-span-2 ''
      @ ''*:[svg]:translate-y-0.5 *:[svg]:text-current *:[svg:not([class*='size-'])]:size-4 ''
      @ ''group/alert relative w-full''),
            One_Class (alert_variant_classes (ap_variant p)), One_Class (ui_class p)]
      in [Css_Items cls, Markup ''<div''] @ id_attr (ui_id p)
         @ attr '' data-slot=\"alert\" role=\"alert\" class=\"'' As_Classes cls
         @ [Attributes (ui_attributes p), Markup ''>''] @ children @ [Markup ''</div>''])"

definition alert_title :: "templ_lib \<Rightarrow> ui_props list \<Rightarrow> html_write list \<Rightarrow> html_write list" where
  "alert_title L = class_slot L ''div'' ''alert-title''
     (''font-medium group-has-[>svg]/alert:col-start-2 [&_a]:underline [&_a]:underline-offset-3 ''
      @ ''[&_a]:hover:text-foreground'')"

definition alert_description :: "templ_lib \<Rightarrow> ui_props list \<Rightarrow> html_write list \<Rightarrow> html_write list" where
  "alert_description L = class_slot L ''div'' ''alert-description''
     (''text-muted-foreground text-sm text-balance md:text-pretty [&_p:not(:last-child)]:mb-4 ''
      @ ''[&_a]:underline [&_a]:underline-offset-3 [&_a]:hover:text-foreground'')"

definition alert_action :: "templ_lib \<Rightarrow> ui_props list \<Rightarrow> html_write list \<Rightarrow> html_write list" where
  "alert_action L = class_slot L ''div'' ''alert-action''
     ''absolute top-2 right-2''"

section \<open>Badges\<close>

definition badge_base_classes :: string where
  "badge_base_classes =
     (''h-5 gap-1 rounded-4xl border border-transparent px-2 py-0.5 text-xs font-medium ''
      @ ''transition-all has-data-[icon=inline-end]:pr-1.5 has-data-[icon=inline-start]:pl-1.5 ''
      @ ''[&>svg]:size-3! group/badge inline-flex w-fit shrink-0 items-center justify-center ''
      @ ''overflow-hidden whitespace-nowrap focus-visible:border-ring focus-visible:ring-[3px] ''
      @ ''focus-visible:ring-ring/50 aria-invalid:border-destructive aria-invalid:ring-destructive/20 ''
      @ ''dark:aria-invalid:ring-destructive/40 [&>svg]:pointer-events-none'')"

definition badge_variant :: "badge_props \<Rightarrow> string" where
  "badge_variant p = (if gp_variant p = [] then ''default'' else gp_variant p)"

definition badge_variant_classes :: "string \<Rightarrow> string" where
  "badge_variant_classes v =
     (if v = ''secondary'' then ''bg-secondary text-secondary-foreground [a]:hover:bg-secondary/80''
      else if v = ''destructive'' then (''bg-destructive/10 [a]:hover:bg-destructive/20 focus-visible:ring-destructive/20 ''
      @ ''dark:focus-visible:ring-destructive/40 text-destructive dark:bg-destructive/20'')
      else if v = ''outline'' then ''border-border text-foreground [a]:hover:bg-muted [a]:hover:text-muted-foreground''
      else if v = ''ghost'' then ''hover:bg-muted hover:text-muted-foreground dark:hover:bg-muted/50''
      else if v = ''link'' then ''text-primary underline-offset-4 hover:underline''
      else ''bg-primary text-primary-foreground [a]:hover:bg-primary/80'')"

definition badge_classes :: "templ_lib \<Rightarrow> badge_props \<Rightarrow> string" where
  "badge_classes L p =
     cn (tl_merge L) [One_Class badge_base_classes, One_Class (badge_variant_classes (badge_variant p)), One_Class (ui_class p)]"

definition badge_rest :: "templ_lib \<Rightarrow> badge_props \<Rightarrow> html_write list \<Rightarrow> html_write list" where
  "badge_rest L p children =
     id_attr (ui_id p)
     @ [Markup '' data-slot=\"badge\" data-variant=\"'', Data As_Text (badge_variant p), Markup ''\" class=\"'',
        Data As_Classes (badge_classes L p), Markup ''\"'', Attributes (ui_attributes p), Markup ''>'']
     @ children"

definition badge_link :: "templ_lib \<Rightarrow> badge_props \<Rightarrow> html_write list \<Rightarrow> html_write list" where
  "badge_link L p children =
     [Css_Items (badge_classes L p), Markup ''<a href=\"'', Data As_Safe_Url (gp_href p), Markup ''\"'']
     @ badge_rest L p children @ [Markup ''</a>'']"

definition badge_span :: "templ_lib \<Rightarrow> badge_props \<Rightarrow> html_write list \<Rightarrow> html_write list" where
  "badge_span L p children =
     [Css_Items (badge_classes L p), Markup ''<span''] @ badge_rest L p children @ [Markup ''</span>'']"

definition badge_mark :: "templ_lib \<Rightarrow> badge_props list \<Rightarrow> html_write list \<Rightarrow> html_write list" where
  "badge_mark L ps children =
     (let p = given_props no_badge ps in if gp_href p \<noteq> [] then badge_link L p children else badge_span L p children)"

lemmas badge_defs = badge_mark_def badge_link_def badge_span_def badge_rest_def

section \<open>Buttons\<close>

definition button_base_classes :: string where
  "button_base_classes =
     (''focus-visible:border-ring focus-visible:ring-ring/50 aria-invalid:ring-destructive/20 ''
      @ ''dark:aria-invalid:ring-destructive/40 aria-invalid:border-destructive ''
      @ ''dark:aria-invalid:border-destructive/50 rounded-lg border border-transparent ''
      @ ''bg-clip-padding text-sm font-medium focus-visible:ring-3 aria-invalid:ring-3 ''
      @ ''active:not-aria-[haspopup]:translate-y-px [&_svg:not([class*='size-'])]:size-4 group/button ''
      @ ''inline-flex shrink-0 items-center justify-center whitespace-nowrap transition-all ''
      @ ''outline-none select-none disabled:pointer-events-none disabled:opacity-50 ''
      @ ''[&_svg]:pointer-events-none [&_svg]:shrink-0'')"

definition button_variant_classes :: "string \<Rightarrow> string" where
  "button_variant_classes v =
     (if v = ''destructive'' then (''bg-destructive/10 hover:bg-destructive/20 focus-visible:ring-destructive/20 ''
      @ ''dark:focus-visible:ring-destructive/40 dark:bg-destructive/20 text-destructive ''
      @ ''focus-visible:border-destructive/40 dark:hover:bg-destructive/30'')
      else if v = ''outline'' then (''border-border bg-background hover:bg-muted hover:text-foreground dark:bg-input/30 ''
      @ ''dark:border-input dark:hover:bg-input/50 aria-expanded:bg-muted ''
      @ ''aria-expanded:text-foreground'')
      else if v = ''secondary'' then (''bg-secondary text-secondary-foreground ''
      @ ''hover:bg-[color-mix(in_oklch,var(--secondary),var(--foreground)_5%)] ''
      @ ''aria-expanded:bg-secondary aria-expanded:text-secondary-foreground'')
      else if v = ''ghost'' then (''hover:bg-muted hover:text-foreground dark:hover:bg-muted/50 aria-expanded:bg-muted ''
      @ ''aria-expanded:text-foreground'')
      else if v = ''link'' then ''text-primary underline-offset-4 hover:underline''
      else ''bg-primary text-primary-foreground hover:bg-primary/80'')"

definition button_size_classes :: "string \<Rightarrow> string" where
  "button_size_classes v =
     (if v = ''xs'' then (''h-6 gap-1 rounded-[min(var(--radius-md),10px)] px-2 text-xs ''
      @ ''in-data-[slot=button-group]:rounded-lg has-data-[icon=inline-end]:pr-1.5 ''
      @ ''has-data-[icon=inline-start]:pl-1.5 [&_svg:not([class*='size-'])]:size-3'')
      else if v = ''sm'' then (''h-7 gap-1 rounded-[min(var(--radius-md),12px)] px-2.5 text-[0.8rem] ''
      @ ''in-data-[slot=button-group]:rounded-lg has-data-[icon=inline-end]:pr-1.5 ''
      @ ''has-data-[icon=inline-start]:pl-1.5 [&_svg:not([class*='size-'])]:size-3.5'')
      else if v = ''lg'' then ''h-9 gap-1.5 px-2.5 has-data-[icon=inline-end]:pr-2 has-data-[icon=inline-start]:pl-2''
      else if v = ''icon'' then ''size-8''
      else if v = ''icon-xs'' then (''size-6 rounded-[min(var(--radius-md),10px)] in-data-[slot=button-group]:rounded-lg ''
      @ ''[&_svg:not([class*='size-'])]:size-3'')
      else if v = ''icon-sm'' then ''size-7 rounded-[min(var(--radius-md),12px)] in-data-[slot=button-group]:rounded-lg''
      else if v = ''icon-lg'' then ''size-9''
      else ''h-8 gap-1.5 px-2.5 has-data-[icon=inline-end]:pr-2 has-data-[icon=inline-start]:pl-2'')"

definition button_slot :: "attributes \<Rightarrow> html_write list" where
  "button_slot attrs = flag_if '' data-slot=\"button\"'' (\<not> ghas attrs ''data-slot'')"

text \<open>The defaults of the first lines, and the classes they lead to.\<close>

definition button_defaults :: "button_props \<Rightarrow> button_props" where
  "button_defaults p =
     p\<lparr>tp_type := (if tp_type p = [] then ''button'' else tp_type p),
       tp_variant := (if tp_variant p = [] then ''default'' else tp_variant p),
       tp_size := (if tp_size p = [] then ''default'' else tp_size p)\<rparr>"

definition button_classes :: "templ_lib \<Rightarrow> button_props \<Rightarrow> string" where
  "button_classes L p =
     cn (tl_merge L) [One_Class button_base_classes, One_Class (button_variant_classes (tp_variant p)),
       One_Class (button_size_classes (tp_size p)), One_Class (ui_class p)]"

definition button_link :: "templ_lib \<Rightarrow> button_props \<Rightarrow> html_write list \<Rightarrow> html_write list" where
  "button_link L p children =
     [Css_Items (button_classes L p), Markup ''<a''] @ id_attr (ui_id p) @ attr '' href=\"'' As_Safe_Url (tp_href p)
     @ attr_if '' target=\"'' (tp_target p) @ button_slot (ui_attributes p)
     @ attr '' class=\"'' As_Classes (button_classes L p) @ [Attributes (ui_attributes p), Markup ''>''] @ children
     @ [Markup ''</a>'']"

definition button_element :: "templ_lib \<Rightarrow> button_props \<Rightarrow> html_write list \<Rightarrow> html_write list" where
  "button_element L p children =
     [Css_Items (button_classes L p), Markup ''<button''] @ id_attr (ui_id p) @ button_slot (ui_attributes p)
     @ attr '' class=\"'' As_Classes (button_classes L p) @ attr_if '' type=\"'' (tp_type p)
     @ attr_if '' form=\"'' (tp_form p) @ flag_if '' disabled'' (tp_disabled p)
     @ [Attributes (ui_attributes p), Markup ''>''] @ children @ [Markup ''</button>'']"

definition button :: "templ_lib \<Rightarrow> button_props list \<Rightarrow> html_write list \<Rightarrow> html_write list" where
  "button L ps children =
     (let p = button_defaults (given_props no_button ps)
      in if tp_href p \<noteq> [] \<and> \<not> tp_disabled p then button_link L p children else button_element L p children)"

lemmas button_defs = button_def button_link_def button_element_def

section \<open>Inputs and labels\<close>

definition input_options :: "input_props \<Rightarrow> html_write list" where
  "input_options p =
     attr_if '' type=\"'' (np_type p) @ attr_if '' name=\"'' (np_name p)
     @ attr_if '' placeholder=\"'' (np_placeholder p) @ attr_if '' value=\"'' (np_value p)
     @ (if np_type p = ''file'' then attr_if '' accept=\"'' (np_accept p) else [])
     @ attr_if '' form=\"'' (np_form p) @ flag_if '' disabled'' (np_disabled p)
     @ flag_if '' readonly'' (np_read_only p) @ flag_if '' required'' (np_required p)"

text \<open>An input without an identifier gets the given random one.\<close>

definition input_field :: "templ_lib \<Rightarrow> string \<Rightarrow> input_props list \<Rightarrow> html_write list" where
  "input_field L random ps =
     (let p = given_props no_input ps;
          i = (if ui_id p = [] then random else ui_id p);
          cls = cn (tl_merge L) [One_Class
      (''dark:bg-input/30 border-input focus-visible:border-ring focus-visible:ring-ring/50 ''
      @ ''aria-invalid:ring-destructive/20 dark:aria-invalid:ring-destructive/40 ''
      @ ''aria-invalid:border-destructive dark:aria-invalid:border-destructive/50 ''
      @ ''disabled:bg-input/50 dark:disabled:bg-input/80 h-8 rounded-lg border bg-transparent px-2.5 ''
      @ ''py-1 text-base transition-colors file:h-6 file:text-sm file:font-medium ''
      @ ''focus-visible:ring-3 aria-invalid:ring-3 md:text-sm w-full min-w-0 outline-none ''
      @ ''file:inline-flex file:border-0 file:bg-transparent file:text-foreground ''
      @ ''placeholder:text-muted-foreground disabled:pointer-events-none disabled:cursor-not-allowed ''
      @ ''disabled:opacity-50''), One_Class (ui_class p)]
      in [Css_Items cls] @ attr ''<input id=\"'' As_Text i
         @ flag_if '' data-slot=\"input\"'' (\<not> ghas (ui_attributes p) ''data-slot'')
         @ input_options p @ attr '' class=\"'' As_Classes cls @ [Attributes (ui_attributes p), Markup ''>''])"

definition label :: "templ_lib \<Rightarrow> label_props list \<Rightarrow> html_write list \<Rightarrow> html_write list" where
  "label L ps children =
     (let p = given_props no_label ps;
          cls = cn (tl_merge L) [One_Class
      (''gap-2 text-sm leading-none font-medium group-data-[disabled=true]:opacity-50 ''
      @ ''peer-disabled:opacity-50 flex items-center select-none ''
      @ ''group-data-[disabled=true]:pointer-events-none peer-disabled:cursor-not-allowed''), One_Class (ui_class p)]
      in [Css_Items cls, Markup ''<label''] @ id_attr (ui_id p) @ attr_if '' for=\"'' (lp_for p)
         @ attr '' data-slot=\"label\" class=\"'' As_Classes cls
         @ [Attributes (ui_attributes p), Markup ''>''] @ children @ [Markup ''</label>''])"

section \<open>Separators and frames\<close>

definition separator :: "templ_lib \<Rightarrow> separator_props list \<Rightarrow> html_write list" where
  "separator L ps =
     (let p = given_props no_separator ps;
          orientation = (if sp_orientation p = [] then ''horizontal'' else sp_orientation p);
          cls = cn (tl_merge L) [One_Class
      (''shrink-0 bg-border data-horizontal:h-px data-horizontal:w-full data-vertical:w-px ''
      @ ''data-vertical:self-stretch''), One_Class (ui_class p)]
      in [Css_Items cls, Markup ''<div''] @ id_attr (ui_id p)
         @ attr '' data-slot=\"separator\" data-orientation=\"'' As_Text orientation
         @ flag_if '' data-horizontal'' (orientation = ''horizontal'')
         @ flag_if '' data-vertical'' (orientation = ''vertical'')
         @ [Markup '' role=\"separator\" aria-orientation=\"'', Data As_Text orientation, Markup ''\" class=\"'',
            Data As_Classes cls, Markup ''\"'', Attributes (ui_attributes p), Markup ''></div>''])"

definition aspect_ratio :: "templ_lib \<Rightarrow> ratio_props list \<Rightarrow> html_write list \<Rightarrow> html_write list" where
  "aspect_ratio L ps children =
     (let p = given_props no_ratio ps;
          cls = cn (tl_merge L) [One_Class ''relative aspect-(--ratio)'', One_Class (ui_class p)]
      in [Css_Items cls, Markup ''<div''] @ id_attr (ui_id p) @ [Markup '' data-slot=\"aspect-ratio\"'']
         @ (if rp_ratio p \<noteq> [] then attr '' style=\"'' As_Style (''--ratio: '' @ rp_ratio p) else [])
         @ attr '' class=\"'' As_Classes cls
         @ [Attributes (ui_attributes p), Markup ''>''] @ children @ [Markup ''</div>''])"

section \<open>Every component starts and ends in text\<close>

lemmas lex_eval = dquote_def squote_def

lemma placed_attr [simp]: "lex_run q before = In_Double \<Longrightarrow> placed q (attr before k v @ ws) = placed In_Tag ws"
  by (simp add: attr_def lex_eval)

lemma placed_attr_if [simp]:
  "lex_run In_Tag before = In_Double \<Longrightarrow> placed In_Tag (attr_if before v @ ws) = placed In_Tag ws"
  by (simp add: attr_if_def)

lemma placed_flag [simp]: "lex_run In_Tag t = In_Tag \<Longrightarrow> placed In_Tag (flag_if t on @ ws) = placed In_Tag ws"
  by (simp add: flag_if_def)

lemma placed_id [simp]: "placed In_Tag (id_attr i @ ws) = placed In_Tag ws"
  by (simp add: id_attr_def lex_eval)

lemma placed_button_slot [simp]: "placed In_Tag (button_slot a @ ws) = placed In_Tag ws"
  by (simp add: button_slot_def lex_eval)

lemma block_class_slot:
  assumes "lex_run In_Tag tag = In_Tag" and "lex_run In_Double slot = In_Double" and "block ch"
  shows "block (class_slot L tag slot cls ps ch)"
  using assms by (simp add: class_slot_def slotted_def Let_def lex_eval)

lemma block_cards [simp]:
  assumes "block ch"
  shows "block (card_frame L cp ch)" "block (card_header L ps ch)" "block (card_title L ps ch)"
    "block (card_description L ps ch)" "block (card_action L ps ch)" "block (card_content L ps ch)"
    "block (card_footer L ps ch)"
  using assms
  by (simp_all add: card_frame_def card_header_def card_title_def card_description_def card_action_def
      card_content_def card_footer_def block_class_slot Let_def lex_eval)

lemma block_tables [simp]:
  assumes "block ch"
  shows "block (table_frame L ps ch)" "block (table_header L ps ch)" "block (table_body L ps ch)"
    "block (table_footer L ps ch)" "block (table_row L ps ch)" "block (table_head L ps ch)"
    "block (table_cell L ps ch)" "block (table_caption L ps ch)"
  using assms
  by (simp_all add: table_frame_def table_header_def table_body_def table_footer_def table_row_def table_head_def
      table_cell_def table_caption_def block_class_slot lex_eval)

lemma block_alerts [simp]:
  assumes "block ch"
  shows "block (alert_frame L ap ch)" "block (alert_title L ps ch)" "block (alert_description L ps ch)"
    "block (alert_action L ps ch)"
  using assms
  by (simp_all add: alert_frame_def alert_title_def alert_description_def alert_action_def block_class_slot
      Let_def lex_eval)

lemma block_badge [simp]: "block ch \<Longrightarrow> block (badge_mark L gp ch)"
  by (simp add: badge_defs Let_def lex_eval)

lemma block_button [simp]: "block ch \<Longrightarrow> block (button L bp ch)"
  by (simp add: button_defs Let_def lex_eval)

lemma block_input [simp]: "block (input_field L r np)"
  by (simp add: input_field_def input_options_def Let_def lex_eval)

lemma block_label [simp]: "block ch \<Longrightarrow> block (label L lp ch)"
  by (simp add: label_def Let_def lex_eval)

lemma block_separator [simp]: "block (separator L sp)"
  by (simp add: separator_def Let_def lex_eval)

lemma block_aspect_ratio [simp]: "block ch \<Longrightarrow> block (aspect_ratio L rp ch)"
  by (simp add: aspect_ratio_def Let_def lex_eval)

section \<open>Components without their data\<close>

text \<open>
  Writes that differ in their data only, put together; a component keeps its properties, except for the
  classes of a badge.
\<close>

named_theorems masked_cong "writes that differ in their data only"

lemma masked_append [masked_cong]:
  "masked xs = masked xs' \<Longrightarrow> masked ys = masked ys' \<Longrightarrow> masked (xs @ ys) = masked (xs' @ ys')"
  by simp

lemma masked_if [masked_cong]:
  "b = b' \<Longrightarrow> masked xs = masked xs' \<Longrightarrow> masked ys = masked ys'
     \<Longrightarrow> masked (if b then xs else ys) = masked (if b' then xs' else ys')"
  by simp

lemma masked_concat_length [masked_cong]:
  assumes "length xs = length ys" and "\<And>x y. masked (f x) = masked (g y)"
  shows "masked (concat (map f xs)) = masked (concat (map g ys))"
  using assms(1)
proof (induction xs ys rule: list_induct2)
  case (Cons x xs y ys)
  with assms(2) [of x y] show ?case by simp
qed simp

lemma masked_attr [simp]: "masked (attr before k v) = attr before k []"
  by (simp add: attr_def)

lemma masked_class_slot [masked_cong]:
  "masked ch = masked ch' \<Longrightarrow> masked (class_slot L tag slot cls ps ch) = masked (class_slot L tag slot cls ps ch')"
  by (simp add: class_slot_def slotted_def Let_def)

lemma masked_cards [masked_cong]:
  assumes "masked ch = masked ch'"
  shows "masked (card_frame L cp ch) = masked (card_frame L cp ch')"
    and "masked (card_header L ps ch) = masked (card_header L ps ch')"
    and "masked (card_title L ps ch) = masked (card_title L ps ch')"
    and "masked (card_description L ps ch) = masked (card_description L ps ch')"
    and "masked (card_action L ps ch) = masked (card_action L ps ch')"
    and "masked (card_content L ps ch) = masked (card_content L ps ch')"
    and "masked (card_footer L ps ch) = masked (card_footer L ps ch')"
  unfolding card_header_def card_title_def card_description_def card_action_def card_content_def card_footer_def
  by (simp add: card_frame_def Let_def assms) (rule masked_class_slot [OF assms])+

lemma masked_tables [masked_cong]:
  assumes "masked ch = masked ch'"
  shows "masked (table_frame L ps ch) = masked (table_frame L ps ch')"
    and "masked (table_header L ps ch) = masked (table_header L ps ch')"
    and "masked (table_body L ps ch) = masked (table_body L ps ch')"
    and "masked (table_footer L ps ch) = masked (table_footer L ps ch')"
    and "masked (table_row L ps ch) = masked (table_row L ps ch')"
    and "masked (table_head L ps ch) = masked (table_head L ps ch')"
    and "masked (table_cell L ps ch) = masked (table_cell L ps ch')"
    and "masked (table_caption L ps ch) = masked (table_caption L ps ch')"
  unfolding table_frame_def table_header_def table_body_def table_footer_def table_row_def table_head_def
    table_cell_def table_caption_def
  by (intro masked_append masked_class_slot [OF assms] refl) (rule masked_class_slot [OF assms])+

lemma masked_alerts [masked_cong]:
  assumes "masked ch = masked ch'"
  shows "masked (alert_frame L ap ch) = masked (alert_frame L ap ch')"
    and "masked (alert_title L ps ch) = masked (alert_title L ps ch')"
    and "masked (alert_description L ps ch) = masked (alert_description L ps ch')"
    and "masked (alert_action L ps ch) = masked (alert_action L ps ch')"
  unfolding alert_title_def alert_description_def alert_action_def
  by (simp add: alert_frame_def Let_def assms) (rule masked_class_slot [OF assms])+

lemma masked_badge [masked_cong]:
  assumes "masked ch = masked ch'"
  shows "masked (badge_mark L [no_badge\<lparr>gp_variant := v, ui_class := c\<rparr>] ch)
    = masked (badge_mark L [no_badge\<lparr>gp_variant := v, ui_class := c'\<rparr>] ch')"
  using assms by (simp add: badge_defs badge_variant_def id_attr_def attr_if_def Let_def)

lemma masked_button [masked_cong]:
  "masked ch = masked ch' \<Longrightarrow> masked (button L bp ch) = masked (button L bp ch')"
  by (simp add: button_defs Let_def)

lemma masked_label [masked_cong]:
  "masked ch = masked ch' \<Longrightarrow> masked (label L lp ch) = masked (label L lp ch')"
  by (simp add: label_def Let_def)

lemma masked_aspect_ratio [masked_cong]:
  "masked ch = masked ch' \<Longrightarrow> masked (aspect_ratio L rp ch) = masked (aspect_ratio L rp ch')"
  by (simp add: aspect_ratio_def Let_def)

text \<open>The value and the random identifier of an input.\<close>

lemma masked_input [masked_cong]:
  assumes "random \<noteq> [] \<and> random' \<noteq> [] \<or> ui_id p \<noteq> []"
    and "p\<lparr>np_value := []\<rparr> = p'\<lparr>np_value := []\<rparr>" and "np_value p = [] \<longleftrightarrow> np_value p' = []"
  shows "masked (input_field L random [p]) = masked (input_field L random' [p'])"
  using assms by (cases p; cases p') (auto simp: input_field_def input_options_def attr_if_def Let_def)

end
