(* ===== verification/Web_Pages.thy ===== *)
theory Web_Pages
  imports Ui_Components Web_Models
begin

text \<open>
  The pages (\<open>web/layout_templ.go\<close>, \<open>web/login_templ.go\<close>, \<open>web/dashboard_templ.go\<close>) as the lists of their
  writes, from the data of \<open>Web_Models\<close>. The dashboard and the two sections that it polls share
  \<open>stats_html\<close> and \<open>entries_html\<close>. The links that turn pages and the forms that change something are written
  here; which requests they make is proved below, and that the data of a page changes none of its tags.
\<close>

section \<open>The frame of a page\<close>

definition layout_html :: "string \<Rightarrow> html_write list \<Rightarrow> html_write list" where
  "layout_html title children =
     [Markup (''<!doctype html><html lang=\"en\" class=\"dark\"><head><meta charset=\"utf-8\"><meta ''
      @ ''name=\"viewport\" content=\"width=device-width, initial-scale=1\"><title>''),
      Data As_Text title,
      Markup (''</title><link rel=\"stylesheet\" href=\"/static/app.css\"><script src=\"/static/htmx.min.js\" ''
      @ ''defer></script></head><body class=\"min-h-svh bg-background text-foreground antialiased\">'')]
     @ children @ [Markup ''</body></html>'']"

definition logo_html :: "html_write list" where
  "logo_html =
     [Markup (''<div class=\"flex items-center gap-2\"><svg class=\"size-7 text-primary\" viewBox=\"0 0 32 32\" ''
      @ ''fill=\"none\" aria-hidden=\"true\"><path d=\"M16 3 29 10.5v11L16 29 3 21.5v-11L16 3Z\" ''
      @ ''stroke=\"currentColor\" stroke-width=\"1.6\"></path> <path d=\"M16 12.2 22 15.6v6.8L16 25.8 10 ''
      @ ''22.4v-6.8L16 12.2Z\" fill=\"currentColor\"></path></svg><div class=\"leading-tight\"><div ''
      @ ''class=\"text-sm font-medium tracking-tight\">Nx Cache</div><div class=\"text-muted-foreground ''
      @ ''text-xs\">Self-hosted remote cache</div></div></div>'')]"

definition nav_html :: "templ_lib \<Rightarrow> string \<Rightarrow> string \<Rightarrow> string \<Rightarrow> html_write list" where
  "nav_html L username ttl csrf =
     [Markup (''<header class=\"border-b bg-card/70 backdrop-blur\"><div class=\"mx-auto flex h-14 max-w-6xl ''
      @ ''items-center justify-between px-4\">'')]
     @ logo_html
     @ [Markup (''<div class=\"flex items-center gap-3\"><span class=\"text-muted-foreground hidden text-xs ''
      @ ''sm:inline\">TTL ''),
        Data As_Text ttl, Markup ''</span> <span class=\"text-sm\">'', Data As_Text username,
        Markup (''</span><form method=\"post\" action=\"/logout\"><input type=\"hidden\" name=\"csrf_token\" ''
      @ ''value=\"''),
        Data As_Text csrf, Markup ''\">'']
     @ button L [no_button\<lparr>tp_variant := ''ghost'', tp_size := ''sm'', tp_type := ''submit''\<rparr>] [Markup ''Sign out'']
     @ [Markup ''</form></div></div></header>'']"

section \<open>The login page\<close>

definition login_title :: "templ_lib \<Rightarrow> html_write list" where
  "login_title L =
     card_header L []
       ([Markup ''<div class=\"mb-4\">''] @ logo_html @ [Markup ''</div>''] @ card_title L [] [Markup ''Sign in''] @ [Markup '' '']
        @ card_description L [] [Markup ''Dashboard access is separate from the Nx bearer token used by CI.''])"

definition login_failure :: "templ_lib \<Rightarrow> string \<Rightarrow> html_write list" where
  "login_failure L err =
     (if err \<noteq> [] then
        alert_frame L [no_alert\<lparr>ap_variant := ''destructive'', ui_class := ''mb-4''\<rparr>]
          (alert_title L [] [Markup ''Could not sign in''] @ [Markup '' ''] @ alert_description L [] [Data As_Text err])
      else [])"

definition login_form :: "templ_lib \<Rightarrow> login_data \<Rightarrow> html_write list" where
  "login_form L d =
     card_content L []
       (login_failure L (ld_error d)
        @ [Markup '' <form method=\"post\" action=\"/login\" class=\"grid gap-4\"><div class=\"grid gap-2\">'']
        @ label L [no_label\<lparr>lp_for := ''username''\<rparr>] [Markup ''Username'']
        @ input_field L [] [no_input\<lparr>ui_id := ''username'', np_name := ''username'', np_value := ld_username d,
            np_required := True, ui_attributes := [(''autocomplete'', ''username'')]\<rparr>]
        @ [Markup ''</div><div class=\"grid gap-2\">'']
        @ label L [no_label\<lparr>lp_for := ''password''\<rparr>] [Markup ''Password'']
        @ input_field L [] [no_input\<lparr>ui_id := ''password'', np_name := ''password'', np_type := ''password'',
            np_required := True, ui_attributes := [(''autocomplete'', ''current-password'')]\<rparr>]
        @ [Markup ''</div>'']
        @ button L [no_button\<lparr>tp_type := ''submit'', ui_class := ''w-full''\<rparr>] [Markup ''Continue'']
        @ [Markup ''</form>''])"

definition login_html :: "templ_lib \<Rightarrow> login_data \<Rightarrow> html_write list" where
  "login_html L d =
     layout_html (''Sign in '' @ middle_dot @ '' Nx Cache'')
       ([Markup ''<main class=\"mx-auto flex min-h-svh w-full max-w-md items-center px-4\">'']
        @ card_frame L [no_card\<lparr>ui_class := ''w-full''\<rparr>] (login_title L @ [Markup '' ''] @ login_form L d)
        @ [Markup ''</main>''])"

section \<open>Statistics\<close>

definition stat_card_html :: "templ_lib \<Rightarrow> string \<Rightarrow> string \<Rightarrow> string \<Rightarrow> html_write list" where
  "stat_card_html L title value hint =
     card_frame L []
       (card_header L []
          (card_description L [] [Data As_Text title] @ [Markup '' '']
           @ card_title L [no_props\<lparr>ui_class := ''text-2xl tabular-nums''\<rparr>] [Data As_Text value])
        @ [Markup '' '']
        @ card_content L [] [Markup ''<p class=\"text-muted-foreground text-xs\">'', Data As_Text hint, Markup ''</p>''])"

definition kinds_html :: "templ_lib \<Rightarrow> kind_count list \<Rightarrow> html_write list" where
  "kinds_html L ks =
     (if ks = [] then []
      else [Markup (''<div class=\"md:col-span-4 lg:col-span-6 flex flex-wrap items-center gap-2\"><span ''
      @ ''class=\"text-muted-foreground text-xs\">By kind</span> '')]
        @ concat (map (\<lambda>k. badge_mark L [no_badge\<lparr>gp_variant := ''outline'', ui_class := kind_badge_class (kc_kind k)\<rparr>]
                              [Data As_Text (kc_kind k @ '' '' @ int_str (kc_count k))]) ks)
        @ [Markup ''</div>''])"

definition day_html :: "day_bar \<Rightarrow> html_write list" where
  "day_html b =
     [Markup (''<div class=\"grid grid-cols-[3.25rem_1fr] items-center gap-3 text-xs\"><span ''
      @ ''class=\"text-muted-foreground\">''),
      Data As_Text (bar_label b),
      Markup ''</span><div class=\"bg-muted flex h-3 overflow-hidden rounded-full\" title=\"'',
      Data As_Text (bar_label b @ '': '' @ int_str (bar_hits b) @ '' hits, '' @ int_str (bar_misses b) @ '' misses''),
      Markup ''\"><div class=\"bg-emerald-500 h-full\" style=\"'',
      Data As_Safe_Css (''width: '' @ fixed 2 (bar_hit_width b) @ ''%''),
      Markup ''\"></div><div class=\"bg-rose-500 h-full\" style=\"'',
      Data As_Safe_Css (''width: '' @ fixed 2 (bar_miss_width b) @ ''%''),
      Markup ''\"></div></div></div>'']"

definition activity_html :: "templ_lib \<Rightarrow> day_bar list \<Rightarrow> html_write list" where
  "activity_html L days =
     card_frame L [no_card\<lparr>ui_class := ''h-full''\<rparr>]
       (card_header L []
          (card_title L [] [Markup ''Daily activity''] @ [Markup '' ''] @ card_description L [] [Markup ''The last seven days of cache traffic.''])
        @ [Markup '' '']
        @ card_content L [no_props\<lparr>ui_class := ''flex flex-1 flex-col items-center justify-center''\<rparr>]
            (if days = [] then [Markup ''<p class=\"text-muted-foreground text-sm\">No traffic recorded yet.</p>'']
             else [Markup ''<div class=\"w-full space-y-3\">''] @ concat (map day_html days)
               @ [Markup (''</div><div class=\"text-muted-foreground mt-4 flex gap-4 text-xs\"><span class=\"flex ''
      @ ''items-center gap-1.5\"><span class=\"bg-emerald-500 size-2 rounded-full\"></span>Hits</span> ''
      @ ''<span class=\"flex items-center gap-1.5\"><span class=\"bg-rose-500 size-2 ''
      @ ''rounded-full\"></span>Misses</span></div>'')]))"

definition legend_html :: "kind_legend \<Rightarrow> html_write list" where
  "legend_html k =
     [Markup (''<div class=\"grid grid-cols-[1fr_auto] items-center gap-4 text-xs\"><span class=\"flex ''
      @ ''items-center gap-2\"><span class=\"size-2 rounded-full\" style=\"''),
      Data As_Safe_Css (kl_color_style k), Markup ''\"></span>'', Data As_Text (kl_kind k),
      Markup ''</span> <span class=\"text-muted-foreground tabular-nums\">'', Data As_Text (int_str (kl_count k)),
      Markup ('' '' @ middle_dot @ '' ''), Data As_Text (kl_percent k), Markup ''</span></div>'']"

definition kind_pie_html :: "templ_lib \<Rightarrow> dashboard_model \<Rightarrow> html_write list" where
  "kind_pie_html L d =
     card_frame L [no_card\<lparr>ui_class := ''h-full''\<rparr>]
       (card_header L []
          (card_title L [] [Markup ''Cache kinds''] @ [Markup '' ''] @ card_description L [] [Markup ''Artifact distribution inferred from Nx output.''])
        @ [Markup '' '']
        @ card_content L [no_props\<lparr>ui_class := ''flex flex-1 items-center''\<rparr>]
            (if dd_kind_legend d = []
             then [Markup ''<p class=\"text-muted-foreground text-sm\">No classified artifacts yet.</p>'']
             else
               [Markup (''<div class=\"grid grid-cols-[7rem_1fr] items-center gap-6\"><div class=\"relative size-28 ''
      @ ''shrink-0\" role=\"img\" aria-label=\"Cache kind distribution\"><div class=\"size-full ''
      @ ''rounded-full\" style=\"''),
                Data As_Safe_Css (dd_kind_pie_style d),
                Markup (''\"></div><div class=\"bg-card absolute inset-4 flex flex-col items-center justify-center ''
      @ ''rounded-full border text-center\"><span class=\"text-lg font-semibold tabular-nums\">''),
                Data As_Text (int_str (sa_entries (dd_stats d))),
                Markup (''</span> <span class=\"text-muted-foreground text-[10px] uppercase ''
      @ ''tracking-wide\">artifacts</span></div></div><div class=\"min-w-0 space-y-2\">'')]
               @ concat (map legend_html (dd_kind_legend d)) @ [Markup ''</div></div>'']))"

definition stats_html :: "templ_lib \<Rightarrow> floats \<Rightarrow> dashboard_model \<Rightarrow> html_write list" where
  "stats_html L fl d =
     (let s = dd_stats d; reads = sn_reads (dd_latency d); writes = sn_writes (dd_latency d) in
      [Markup (''<div id=\"stats\" class=\"grid gap-4 md:grid-cols-4 lg:grid-cols-6\" hx-get=\"/ui/stats\" ''
      @ ''hx-trigger=\"every 15s\" hx-swap=\"outerHTML\">'')]
      @ stat_card_html L ''Artifacts'' (int_str (sa_entries s)) ''Objects currently in cache''
      @ stat_card_html L ''Storage'' (format_bytes fl (sa_total_size s)) ''Total size on S3''
      @ stat_card_html L ''Hit rate'' (format_rate fl s) (int_str (sa_stores s) @ '' stores'')
      @ stat_card_html L ''Hits / misses'' (int_str (sa_hits s) @ '' / '' @ int_str (sa_misses s)) ''Nx GET outcomes''
      @ stat_card_html L ''Read p50 / p95'' (format_latency_pair fl reads) (latency_hint fl ''GET'' reads)
      @ stat_card_html L ''Write p50 / p95'' (format_latency_pair fl writes) (latency_hint fl ''PUT'' writes)
      @ kinds_html L (dd_kinds d)
      @ [Markup ''<div class=\"h-full md:col-span-2 lg:col-span-3\">''] @ activity_html L (dd_day_bars d)
      @ [Markup ''</div><div class=\"h-full md:col-span-2 lg:col-span-3\">''] @ kind_pie_html L d @ [Markup ''</div></div>''])"

section \<open>The table of entries\<close>

definition entries_head :: "templ_lib \<Rightarrow> html_write list" where
  "entries_head L =
     table_header L []
       (table_row L []
          (table_head L [] [Markup ''Task''] @ [Markup '' ''] @ table_head L [] [Markup ''Kind''] @ [Markup '' '']
           @ table_head L [] [Markup ''Hash''] @ [Markup '' ''] @ table_head L [] [Markup ''Size''] @ [Markup '' '']
           @ table_head L [] [Markup ''Age''] @ [Markup '' ''] @ table_head L [] [Markup ''Hits''] @ [Markup '' '']
           @ table_head L [] [Markup ''Last access''] @ [Markup '' '']
           @ table_head L [no_props\<lparr>ui_class := ''text-right''\<rparr>] [Markup ''Action'']))"

text \<open>\<open>url.PathEscape\<close>.\<close>

definition path_escape :: "string \<Rightarrow> string" where [go_eval]:
  "path_escape t =
     concat (map (\<lambda>c. if alnum_or ''-_.~$&+:=@'' (bval c) then [c]
                      else [CHR ''%'', ''0123456789ABCDEF'' ! (bval c div 16), ''0123456789ABCDEF'' ! (bval c mod 16)]) t)"

definition purge_form :: "string \<Rightarrow> string \<Rightarrow> html_write list" where
  "purge_form csrf h =
     [Markup ''<form method=\"post\" action=\"'', Data As_Url (''/ui/entries/'' @ path_escape h @ ''/delete''),
      Markup (''\" onsubmit=\"return confirm('Purge this cache artifact?')\"><input type=\"hidden\" ''
      @ ''name=\"csrf_token\" value=\"''),
      Data As_Text csrf,
      Markup (''\"> <button type=\"submit\" class=\"text-muted-foreground text-xs ''
      @ ''hover:text-destructive\">Purge</button></form>'')]"

definition entry_row :: "templ_lib \<Rightarrow> string \<Rightarrow> entry_view \<Rightarrow> html_write list" where
  "entry_row L csrf e =
     table_row L []
       (table_cell L []
          (if ev_label e \<noteq> [] then [Markup ''<div class=\"font-medium\">'', Data As_Text (ev_label e), Markup ''</div>'']
           else [Markup ''<div class=\"text-muted-foreground\">Unknown task</div>''])
        @ [Markup '' '']
        @ table_cell L []
            (if ev_kind e \<noteq> []
             then badge_mark L [no_badge\<lparr>gp_variant := ''outline'', ui_class := kind_badge_class (ev_kind e)\<rparr>]
                    [Data As_Text (ev_kind e)]
             else [Markup (''<span class=\"text-muted-foreground text-xs\">''
                          @ em_dash @ ''</span>'')])
        @ [Markup '' '']
        @ table_cell L [no_props\<lparr>ui_class := ''font-mono text-xs text-muted-foreground''\<rparr>]
            [Markup ''<span title=\"'', Data As_Text (ev_hash e), Markup ''\">'', Data As_Text (ev_hash_short e), Markup ''</span>'']
        @ [Markup '' ''] @ table_cell L [] [Data As_Text (ev_size e)]
        @ [Markup '' ''] @ table_cell L [] [Data As_Text (ev_age e)]
        @ [Markup '' '']
        @ table_cell L [no_props\<lparr>ui_class := ''tabular-nums''\<rparr>] [Data As_Text (int_str (ev_hits e))]
        @ [Markup '' '']
        @ table_cell L [no_props\<lparr>ui_class := ''text-muted-foreground''\<rparr>] [Data As_Text (ev_last_access e)]
        @ [Markup '' '']
        @ table_cell L [no_props\<lparr>ui_class := ''text-right''\<rparr>] (purge_form csrf (ev_hash e)))"

definition page_link :: "string \<Rightarrow> int \<Rightarrow> string" where [go_eval]:
  "page_link query page = ''/?q='' @ query @ ''&page='' @ int_str page"

definition turn_button :: "templ_lib \<Rightarrow> string \<Rightarrow> int \<Rightarrow> string \<Rightarrow> html_write list" where
  "turn_button L query page text =
     button L [no_button\<lparr>tp_variant := ''outline'', tp_size := ''sm'', tp_href := page_link query page\<rparr>] [Markup text]"

definition pager :: "templ_lib \<Rightarrow> dashboard_model \<Rightarrow> html_write list" where
  "pager L d =
     (if dd_pages d > 1 then
        [Markup (''<div class=\"flex items-center justify-between py-4\"><p class=\"text-muted-foreground ''
      @ ''text-xs\">''),
         Data As_Text (int_str (dd_total d) @ '' artifacts''), Markup ''</p><div class=\"flex gap-2\">'']
        @ (if dd_page d > 1 then turn_button L (dd_query d) (wrap64 (dd_page d - 1)) ''Previous'' else [])
        @ (if dd_page d < dd_pages d then turn_button L (dd_query d) (wrap64 (dd_page d + 1)) ''Next'' else [])
        @ [Markup ''</div></div>'']
      else [])"

definition entries_html :: "templ_lib \<Rightarrow> dashboard_model \<Rightarrow> html_write list" where
  "entries_html L d =
     (if dd_entries d = []
      then [Markup (''<p class=\"text-muted-foreground py-10 text-center text-sm\">No cache artifacts yet. Point Nx ''
      @ ''at this server and run a build, test, or lint.</p>'')]
      else
        [Markup ''<div class=\"overflow-x-auto\">'']
        @ table_frame L []
            (entries_head L @ [Markup '' '']
             @ table_body L [] (concat (map (entry_row L (dd_csrf_token d)) (dd_entries d))))
        @ [Markup ''</div>''] @ pager L d)"

section \<open>The dashboard\<close>

definition dashboard_head :: "templ_lib \<Rightarrow> dashboard_model \<Rightarrow> html_write list" where
  "dashboard_head L d =
     [Markup ('' <main class=\"mx-auto flex w-full max-w-6xl flex-col gap-6 px-4 py-6\"><div class=\"flex ''
      @ ''flex-col gap-2 sm:flex-row sm:items-end sm:justify-between\"><div><h1 class=\"font-heading ''
      @ ''text-2xl tracking-tight\">Remote cache</h1><p class=\"text-muted-foreground text-sm\">S3-backed ''
      @ ''Nx artifacts, live cache signals, and ''),
      Data As_Text (dd_ttl d),
      Markup ('' retention.</p></div><form method=\"post\" action=\"/ui/cleanup\"><input type=\"hidden\" ''
      @ ''name=\"csrf_token\" value=\"''),
      Data As_Text (dd_csrf_token d), Markup ''\">'']
     @ button L [no_button\<lparr>tp_type := ''submit'', tp_variant := ''outline''\<rparr>] [Markup ''Purge expired'']
     @ [Markup ''</form></div>'']
     @ (if dd_message d \<noteq> [] then
          badge_mark L [no_badge\<lparr>gp_variant := ''secondary'', ui_class := ''w-fit''\<rparr>] [Data As_Text (dd_message d)]
        else [])"

definition filter_input :: "templ_lib \<Rightarrow> string \<Rightarrow> string \<Rightarrow> html_write list" where
  "filter_input L random query =
     input_field L random [no_input\<lparr>np_name := ''q'', np_value := query,
       np_placeholder := ''Filter task or hash'' @ ellipsis, ui_class := ''w-56'',
       ui_attributes := [(''hx-get'', ''/ui/entries''), (''hx-trigger'', ''keyup changed delay:300ms, search''),
         (''hx-target'', ''#entries''), (''hx-include'', ''closest form, this''), (''hx-push-url'', ''false'')]\<rparr>]"

definition entries_card :: "templ_lib \<Rightarrow> string \<Rightarrow> dashboard_model \<Rightarrow> html_write list" where
  "entries_card L random d =
     card_frame L []
       (card_header L [no_props\<lparr>ui_class := ''border-b''\<rparr>]
          (card_title L [] [Markup ''Cached artifacts''] @ [Markup '' '']
           @ card_description L []
               [Markup (''Task names come from Nx terminal output inside each cache tar (build, test, lint, ''
                        @ ellipsis @ ''). Age is time since first store.'')]
           @ [Markup '' ''] @ card_action L [] (filter_input L random (dd_query d)))
        @ [Markup '' '']
        @ card_content L [no_props\<lparr>ui_class := ''pt-0''\<rparr>]
            ([Markup ''<div id=\"entries\">''] @ entries_html L d @ [Markup ''</div>'']))"

definition dashboard_html :: "templ_lib \<Rightarrow> floats \<Rightarrow> string \<Rightarrow> dashboard_model \<Rightarrow> html_write list" where
  "dashboard_html L fl random d =
     layout_html (''Remote cache '' @ middle_dot @ '' Nx Cache'')
       (nav_html L (dd_username d) (dd_ttl d) (dd_csrf_token d) @ dashboard_head L d @ stats_html L fl d
        @ entries_card L random d @ [Markup ''</main>''])"

section \<open>Every page starts and ends in text\<close>

lemmas page_eval = dquote_def squote_def

lemma lex_high [simp]:
  "lex_run In_Text middle_dot = In_Text" "lex_run In_Text em_dash = In_Text" "lex_run In_Text ellipsis = In_Text"
  by code_simp+

lemma block_layout [simp]: "block ch \<Longrightarrow> block (layout_html t ch)"
  by (simp add: layout_html_def page_eval)

lemma block_logo [simp]: "block logo_html"
  by (simp add: logo_html_def page_eval)

lemma block_nav [simp]: "block (nav_html L u t c)"
  by (simp add: nav_html_def page_eval)

lemma block_login_parts [simp]: "block (login_title L)" "block (login_failure L e)" "block (login_form L d)"
  by (simp_all add: login_title_def login_failure_def login_form_def page_eval)

lemma block_login: "block (login_html L d)"
  by (simp add: login_html_def page_eval)

lemma block_stat_card [simp]: "block (stat_card_html L t v h)"
  by (simp add: stat_card_html_def page_eval)

lemma block_kinds [simp]: "block (kinds_html L ks)"
  by (simp add: kinds_html_def page_eval)

lemma block_activity [simp]: "block (activity_html L days)"
  by (simp add: activity_html_def day_html_def page_eval)

lemma block_pie [simp]: "block (kind_pie_html L d)"
  by (simp add: kind_pie_html_def legend_html_def page_eval)

lemma block_stats [simp]: "block (stats_html L fl d)"
  by (simp add: stats_html_def Let_def page_eval)

lemma block_entries_head [simp]: "block (entries_head L)"
  by (simp add: entries_head_def)

lemma block_purge [simp]: "block (purge_form c h)"
  by (simp add: purge_form_def page_eval)

lemma block_row [simp]: "block (entry_row L c e)"
  by (simp add: entry_row_def page_eval)

lemma block_pager [simp]: "block (pager L d)"
  by (simp add: pager_def turn_button_def page_eval)

lemma block_entries [simp]: "block (entries_html L d)"
  by (simp add: entries_html_def page_eval)

lemma block_entries_card [simp]: "block (entries_card L r d)"
  by (simp add: entries_card_def filter_input_def page_eval)

lemma block_head [simp]: "block (dashboard_head L d)"
  by (simp add: dashboard_head_def page_eval)

lemma block_dashboard: "block (dashboard_html L fl r d)"
  by (simp add: dashboard_html_def page_eval)

end
