(* ===== verification/Page_Safety.thy ===== *)
theory Page_Safety
  imports Web_Pages
begin

text \<open>
  The data of a page changes none of its tags, whatever it is: names and labels from artifacts, the search
  text, messages, and the user name on the login page.
\<close>

section \<open>The data does not change the tags\<close>

text \<open>The decisions a template takes on the data of the dashboard: what is there, and how often.\<close>

definition entry_shape :: "entry_view \<Rightarrow> bool \<times> bool" where
  "entry_shape e = (ev_label e = [], ev_kind e = [])"

definition dashboard_shape :: "dashboard_model \<Rightarrow> bool \<times> bool \<times> nat \<times> nat \<times> nat \<times> (bool \<times> bool) list \<times> bool \<times> bool \<times> bool" where
  "dashboard_shape d =
     (dd_message d = [], dd_query d = [], length (dd_kinds d), length (dd_day_bars d), length (dd_kind_legend d),
      map entry_shape (dd_entries d), dd_pages d > 1, dd_page d > 1, dd_page d < dd_pages d)"

lemma masked_layout [masked_cong]: "masked ch = masked ch' \<Longrightarrow> masked (layout_html t ch) = masked (layout_html t ch')"
  by (simp add: layout_html_def)

lemma masked_nav [masked_cong]: "masked (nav_html L u t c) = masked (nav_html L u' t' c')"
  by (simp add: nav_html_def)

lemma masked_stat_card [masked_cong]: "masked (stat_card_html L t v h) = masked (stat_card_html L t' v' h')"
  unfolding stat_card_html_def by (intro masked_cong) simp_all

lemma masked_kinds [masked_cong]: "length ks = length ks' \<Longrightarrow> masked (kinds_html L ks) = masked (kinds_html L ks')"
  unfolding kinds_html_def by (intro masked_cong) auto

lemma masked_day: "masked (day_html x) = masked (day_html y)"
  by (simp add: day_html_def)

lemma masked_activity [masked_cong]:
  "length xs = length ys \<Longrightarrow> masked (activity_html L xs) = masked (activity_html L ys)"
  unfolding activity_html_def by (intro masked_cong masked_day) auto

lemma masked_legend: "masked (legend_html x) = masked (legend_html y)"
  by (simp add: legend_html_def)

lemma masked_pie [masked_cong]:
  "length (dd_kind_legend d) = length (dd_kind_legend d') \<Longrightarrow> masked (kind_pie_html L d) = masked (kind_pie_html L d')"
  unfolding kind_pie_html_def by (intro masked_cong masked_legend) auto

lemma masked_stats:
  "dashboard_shape d = dashboard_shape d' \<Longrightarrow> masked (stats_html L fl d) = masked (stats_html L fl d')"
  unfolding stats_html_def Let_def by (intro masked_cong refl) (simp_all add: dashboard_shape_def)

lemma masked_purge [masked_cong]: "masked (purge_form c h) = masked (purge_form c' h')"
  by (simp add: purge_form_def)

lemma masked_row:
  "entry_shape e = entry_shape e' \<Longrightarrow> masked (entry_row L c e) = masked (entry_row L c' e')"
  unfolding entry_row_def by (intro masked_cong refl) (simp_all add: entry_shape_def)

lemma masked_turn [masked_cong]: "masked (turn_button L q n t) = masked (turn_button L q' n' t)"
  by (simp add: turn_button_def button_defs button_defaults_def page_link_def id_attr_def attr_if_def Let_def)

lemma masked_pager:
  "dashboard_shape d = dashboard_shape d' \<Longrightarrow> masked (pager L d) = masked (pager L d')"
  unfolding pager_def by (intro masked_cong refl) (simp_all add: dashboard_shape_def)

lemma masked_entries:
  assumes "dashboard_shape d = dashboard_shape d'"
  shows "masked (entries_html L d) = masked (entries_html L d')"
proof -
  have "map entry_shape (dd_entries d) = map entry_shape (dd_entries d')"
    using assms by (simp add: dashboard_shape_def)
  then have rows: "masked (concat (map (entry_row L (dd_csrf_token d)) (dd_entries d)))
      = masked (concat (map (entry_row L (dd_csrf_token d')) (dd_entries d')))"
    by (rule masked_concat) (rule masked_row)
  have "dd_entries d = [] \<longleftrightarrow> dd_entries d' = []" using assms by (auto simp: dashboard_shape_def)
  then show ?thesis
    unfolding entries_html_def
    by (intro masked_if masked_append masked_tables rows masked_pager [OF assms] refl)
qed

lemma masked_head:
  "dashboard_shape d = dashboard_shape d' \<Longrightarrow> masked (dashboard_head L d) = masked (dashboard_head L d')"
  unfolding dashboard_head_def by (intro masked_cong) (simp_all add: dashboard_shape_def)

lemma masked_filter:
  "(q = []) = (q' = []) \<Longrightarrow> masked (filter_input L (random_id x) q) = masked (filter_input L (random_id x') q')"
  unfolding filter_input_def by (intro masked_cong) (simp_all add: random_id_def)

lemma masked_entries_card:
  "dashboard_shape d = dashboard_shape d'
     \<Longrightarrow> masked (entries_card L (random_id x) d) = masked (entries_card L (random_id x') d')"
  unfolding entries_card_def
  by (intro masked_cong masked_filter masked_entries refl) (simp_all add: dashboard_shape_def)

lemma masked_dashboard:
  "dashboard_shape d = dashboard_shape d'
     \<Longrightarrow> masked (dashboard_html L fl (random_id x) d) = masked (dashboard_html L fl (random_id x') d')"
  unfolding dashboard_html_def
  by (intro masked_cong masked_head masked_stats masked_entries_card refl) simp_all

text \<open>
  C33: whatever is stored, searched for or shown in a message, the tags of the dashboard are those of the
  template. Two renderings of dashboards on which the same things are present (\<open>dashboard_shape\<close>) have the same
  tags, attribute names and order; a rendering that fails half-way has written a prefix of them.
\<close>

theorem dashboard_tags_fixed:
  assumes "escapes_markup L" and "dashboard_shape d = dashboard_shape d'"
    and "render_writes L (dashboard_html L fl (random_id x) d) = (out, failed)"
    and "render_writes L (dashboard_html L fl (random_id x') d') = (out', False)"
  shows "prefix (skeleton In_Text out) (skeleton In_Text out')
    \<and> (\<not> failed \<longrightarrow> skeleton In_Text out = skeleton In_Text out')"
  by (rule same_tags [OF assms(1) masked_dashboard [OF assms(2)] block_dashboard block_dashboard assms(3,4)])

lemma masked_login:
  assumes "ld_error d = [] \<longleftrightarrow> ld_error d' = []" and "ld_username d = [] \<longleftrightarrow> ld_username d' = []"
  shows "masked (login_html L d) = masked (login_html L d')"
proof -
  have "masked (login_failure L (ld_error d)) = masked (login_failure L (ld_error d'))"
    unfolding login_failure_def using assms(1) by (intro masked_cong) simp_all
  then show ?thesis
    unfolding login_html_def login_form_def by (intro masked_cong refl) (simp_all add: assms(2))
qed

text \<open>
  C32: the login page repeats the user name a stranger has sent, and changes no tag by it: every login page with
  a message and a user name has the same tags as any other.
\<close>

theorem login_tags_fixed:
  assumes "escapes_markup L"
    and "ld_error d = [] \<longleftrightarrow> ld_error d' = []" and "ld_username d = [] \<longleftrightarrow> ld_username d' = []"
    and "render_writes L (login_html L d) = (out, failed)" and "render_writes L (login_html L d') = (out', False)"
  shows "prefix (skeleton In_Text out) (skeleton In_Text out')
    \<and> (\<not> failed \<longrightarrow> skeleton In_Text out = skeleton In_Text out')"
  by (rule same_tags [OF assms(1) masked_login [OF assms(2,3)] block_login block_login assms(4,5)])

section \<open>Concrete pages\<close>

definition quiet_operations :: operation_stats where
  "quiet_operations = \<lparr>sm_count = 0, sm_bytes = 0, sm_samples = 0, sm_p50 = 0, sm_p95 = 0\<rparr>"

definition example_dashboard :: "string \<Rightarrow> string \<Rightarrow> dashboard_model" where
  "example_dashboard msg lbl =
     \<lparr>dd_username = ''admin'', dd_csrf_token = ''t'', dd_ttl = ''24h0m0s'', dd_query = [], dd_page = 1, dd_pages = 1,
      dd_total = 1, dd_message = msg,
      dd_stats = \<lparr>sa_entries = 1, sa_total_size = 1, sa_hits = 0, sa_misses = 0, sa_stores = 1, sa_days = [], sa_by_kind = []\<rparr>,
      dd_kinds = [],
      dd_entries = [\<lparr>ev_hash = ''abc'', ev_hash_short = ''abc'', ev_label = lbl, ev_kind = [], ev_project = [], ev_target = [],
        ev_config = [], ev_size = ''1 B'', ev_age = ''1s'', ev_hits = 0, ev_last_access = ''1s ago'', ev_created = []\<rparr>],
      dd_hit_bar_width = 0, dd_miss_bar_width = 0,
      dd_latency = \<lparr>sn_reads = quiet_operations, sn_writes = quiet_operations\<rparr>, dd_day_bars = [],
      dd_kind_pie_style = [], dd_kind_legend = []\<rparr>"

theorem dashboard_tags_fixed_witness:
  "skeleton In_Text (fst (render_writes example_templ
      (dashboard_html example_templ exact_floats (random_id ''1'') (example_dashboard ''<script>'' ''\"><b''))))
   = skeleton In_Text (fst (render_writes example_templ
      (dashboard_html example_templ exact_floats (random_id ''2'') (example_dashboard ''purged'' ''app:build''))))"
proof -
  obtain out failed out' failed' where r:
    "render_writes example_templ (dashboard_html example_templ exact_floats (random_id ''1'')
       (example_dashboard ''<script>'' ''\"><b'')) = (out, failed)"
    "render_writes example_templ (dashboard_html example_templ exact_floats (random_id ''2'')
       (example_dashboard ''purged'' ''app:build'')) = (out', failed')" by fastforce
  have "dashboard_shape (example_dashboard ''<script>'' ''\"><b'') = dashboard_shape (example_dashboard ''purged'' ''app:build'')"
    by (simp add: dashboard_shape_def example_dashboard_def entry_shape_def)
  from dashboard_tags_fixed [OF example_escapes this r(1), of "''2''" out'] r(2) example_complete [OF r(1)] example_complete [OF r(2)]
  show ?thesis by (simp add: r)
qed

theorem login_tags_fixed_witness:
  "skeleton In_Text (fst (render_writes example_templ
      (login_html example_templ \<lparr>ld_error = ''Invalid'', ld_username = ''\"><script>''\<rparr>)))
   = skeleton In_Text (fst (render_writes example_templ
      (login_html example_templ \<lparr>ld_error = ''Invalid'', ld_username = ''admin''\<rparr>)))"
proof -
  obtain out failed out' failed' where r:
    "render_writes example_templ (login_html example_templ \<lparr>ld_error = ''Invalid'', ld_username = ''\"><script>''\<rparr>) = (out, failed)"
    "render_writes example_templ (login_html example_templ \<lparr>ld_error = ''Invalid'', ld_username = ''admin''\<rparr>) = (out', failed')"
    by fastforce
  from login_tags_fixed [OF example_escapes _ _ r(1), of "\<lparr>ld_error = ''Invalid'', ld_username = ''admin''\<rparr>"] r(2)
    example_complete [OF r(1)] example_complete [OF r(2)]
  show ?thesis by (simp add: r)
qed

end
