(* ===== verification/Go_Url.thy ===== *)
theory Go_Url
  imports Http_Server
begin

text \<open>
  Queries of URLs as \<open>net/url\<close> reads them: percent-decoding, the split into parameters, and the query of a
  link. A parameter with a semicolon or a broken escape is dropped, as \<open>URL.Query\<close> does.
\<close>

section \<open>Decoding\<close>

fun query_unescape :: "string \<Rightarrow> string option" where
  "query_unescape [] = Some []"
| "query_unescape (c # cs) =
     (if c = CHR ''%'' then
        (case cs of
           a # b # rest \<Rightarrow>
             (case (hex_val a, hex_val b) of
                (Some x, Some y) \<Rightarrow> map_option ((#) (byte (16 * x + y))) (query_unescape rest)
              | _ \<Rightarrow> None)
         | _ \<Rightarrow> None)
      else map_option ((#) (if c = CHR ''+'' then CHR '' '' else c)) (query_unescape cs))"

definition query_pair :: "string \<Rightarrow> (string \<times> string) option" where [go_eval]:
  "query_pair part =
     (if CHR '';'' \<in> set part \<or> part = [] then None
      else case cut_at (CHR ''='') part of (k, v, _) \<Rightarrow>
        Option.bind (query_unescape k) (\<lambda>k'. map_option (Pair k') (query_unescape v)))"

definition add_value :: "string \<times> string \<Rightarrow> header \<Rightarrow> header" where [go_eval]:
  "add_value = (\<lambda>(k, v) m. gset m k ((case gget m k of None \<Rightarrow> [] | Some vs \<Rightarrow> vs) @ [v]))"

definition parse_query :: "string \<Rightarrow> header" where [go_eval]:
  "parse_query raw = fold add_value (List.map_filter query_pair (split_at (CHR ''&'') raw)) []"

text \<open>The query of a link: what is between the first question mark and the fragment.\<close>

definition link_query :: "string \<Rightarrow> header" where [go_eval]:
  "link_query link = parse_query (fst (snd (cut_at (CHR ''?'') (fst (cut_at (CHR ''#'') link)))))"

lemmas [go_eval] = query_unescape.simps

section \<open>The first value of a parameter\<close>

definition first_value :: "string \<Rightarrow> (string \<times> string) list \<Rightarrow> string" where
  "first_value k ps = (case filter (\<lambda>(k', v). k' = k) ps of [] \<Rightarrow> [] | p # _ \<Rightarrow> snd p)"

lemma gget_add_value:
  "gget (add_value (k', v) m) k =
     (if k' = k then Some ((case gget m k of None \<Rightarrow> [] | Some vs \<Rightarrow> vs) @ [v]) else gget m k)"
  by (auto simp: add_value_def)

lemma gget_add_values:
  "gget (fold add_value ps m) k =
     (let vs = map snd (filter (\<lambda>(k', v). k' = k) ps) in
      case gget m k of None \<Rightarrow> (if vs = [] then None else Some vs) | Some us \<Rightarrow> Some (us @ vs))"
proof (induction ps arbitrary: m)
  case (Cons p ps)
  obtain k' v where p: "p = (k', v)" by fastforce
  show ?case
    by (cases "k' = k") (simp_all add: p Cons.IH gget_add_value Let_def split: option.split)
qed (simp split: option.split)

lemma get_parse_query:
  "header_get (parse_query raw) k = first_value k (List.map_filter query_pair (split_at (CHR ''&'') raw))"
  by (auto simp: header_get_def parse_query_def gget_add_values first_value_def Let_def
      split: list.splits option.splits if_splits)

lemma first_value_append:
  "first_value k (ps @ qs) = (if \<exists>v. (k, v) \<in> set ps then first_value k ps else first_value k qs)"
proof (cases "filter (\<lambda>(k', v). k' = k) ps")
  case Nil
  then show ?thesis by (auto simp: first_value_def filter_empty_conv)
next
  case (Cons p rest)
  then have "p \<in> set ps \<and> fst p = k" by (metis (mono_tags, lifting) case_prod_unfold filter_eq_ConsD in_set_conv_decomp)
  with Cons show ?thesis by (auto simp: first_value_def) (metis prod.collapse)
qed

lemma first_value_in: "first_value k ps \<noteq> [] \<Longrightarrow> (k, first_value k ps) \<in> set ps"
  by (induction ps) (auto simp: first_value_def split: if_splits list.splits)

lemma cut_at_parts:
  "cut_at c s = (a, b, f) \<Longrightarrow> c \<notin> set a \<and> (if f then s = a @ c # b else s = a \<and> b = [])"
  by (induction s arbitrary: a) (auto split: if_splits prod.splits)

lemma before_cut: "fst (cut_at c (a @ b)) = (if c \<in> set a then fst (cut_at c a) else a @ fst (cut_at c b))"
  by (induction a) (auto split: prod.splits)

lemma split_at_before: "c \<in> set s \<Longrightarrow> p \<in> set (split_at c s) \<Longrightarrow> length p < length s"
proof (induction s arbitrary: p)
  case (Cons x s)
  show ?case
  proof (cases "c \<in> set s")
    case True
    with Cons.IH have "\<forall>p \<in> set (split_at c s). length p < length s" by blast
    with Cons.prems show ?thesis by (auto split: if_splits list.splits)
  next
    case False
    with Cons.prems show ?thesis by (auto simp: split_at_absent)
  qed
qed simp

lemma split_at_le: "p \<in> set (split_at c s) \<Longrightarrow> length p \<le> length s"
  using split_at_before [of c s p] by (cases "c \<in> set s") (auto simp: split_at_absent)

lemma split_at_snoc: "c \<notin> set t \<Longrightarrow> split_at c (s @ c # t) = split_at c s @ [t]"
  by (induction s) (auto simp: split_at_absent split: list.splits)

section \<open>What decoding does to the text\<close>

lemma unescape_shrinks: "query_unescape s = Some t \<Longrightarrow> length t \<le> length s"
proof (induction s arbitrary: t rule: query_unescape.induct)
  case (2 c cs)
  then show ?case by (auto split: if_splits list.splits option.splits) fastforce+
qed simp

lemma unescape_same:
  "query_unescape s = Some s \<longleftrightarrow> CHR ''%'' \<notin> set s \<and> CHR ''+'' \<notin> set s"
proof (induction s rule: query_unescape.induct)
  case (2 c cs)
  show ?case
  proof (cases "c = CHR ''%''")
    case True
    { fix a b rest t
      assume "cs = a # b # rest" "query_unescape rest = Some t"
      then have "length (x # t) < length (c # cs)" for x using unescape_shrinks [of rest t] by simp
      then have "x # t \<noteq> c # cs" for x by fastforce }
    with True show ?thesis by (auto split: list.splits option.splits)
  next
    case False
    with 2 show ?thesis by auto
  qed
qed simp

section \<open>What is escaped arrives\<close>

lemma upper_hex_digits:
  assumes "k < 16"
  shows "hex_val (upper_hex k) = Some k \<and> upper_hex k \<notin> {CHR ''#'', CHR ''&'', CHR '';'', CHR ''=''}"
proof -
  have "list_all (\<lambda>k. hex_val (upper_hex k) = Some k \<and> upper_hex k \<notin> set ''#&;='') [0..<16]" by code_simp
  with assms show ?thesis by (auto simp add: list_all_iff)
qed

lemma nibbles: "bval c div 16 < 16" "bval c mod 16 < 16"
  by (simp_all add: less_mult_imp_div_less)

lemma escape_char:
  "query_unescape ((if alnum_or ''-_.~'' (bval c) then [c] else if c = CHR '' '' then ''+''
       else [CHR ''%'', upper_hex (bval c div 16), upper_hex (bval c mod 16)]) @ s)
     = map_option ((#) c) (query_unescape s)"
proof -
  have "c \<noteq> CHR ''%'' \<and> c \<noteq> CHR ''+''" if "alnum_or ''-_.~'' (bval c)"
    using that by (auto simp: alnum_or_def bval_def)
  moreover have "hex_val (upper_hex (bval c div 16)) = Some (bval c div 16)"
    using upper_hex_digits [OF nibbles(1)] by simp
  moreover have "16 * (bval c div 16) + bval c mod 16 = bval c" by simp
  ultimately show ?thesis using upper_hex_digits [OF nibbles(2)] by simp
qed

lemma query_unescape_escape: "query_unescape (query_escape t) = Some t"
proof (induction t)
  case (Cons c t)
  then show ?case by (simp only: query_escape_def list.map concat.simps escape_char option.map)
qed (simp add: query_escape_def)

lemma query_escape_plain:
  assumes "c \<in> set (query_escape t)"
  shows "c \<noteq> CHR ''#'' \<and> c \<noteq> CHR ''&'' \<and> c \<noteq> CHR '';'' \<and> c \<noteq> CHR ''=''"
proof -
  from assms obtain x where "c \<in> set (if alnum_or ''-_.~'' (bval x) then [x] else if x = CHR '' '' then ''+''
      else [CHR ''%'', upper_hex (bval x div 16), upper_hex (bval x mod 16)])"
    unfolding query_escape_def set_concat set_map by blast
  then consider "alnum_or ''-_.~'' (bval c)" | "c = CHR ''+''" | "c = CHR ''%''" | "c = upper_hex (bval x div 16)"
    | "c = upper_hex (bval x mod 16)" by (auto split: if_splits)
  then show ?thesis
  proof cases
    case 1
    then show ?thesis by (auto simp: alnum_or_def bval_def)
  next
    case 4
    with upper_hex_digits [OF nibbles(1), of x] show ?thesis by auto
  next
    case 5
    with upper_hex_digits [OF nibbles(2), of x] show ?thesis by auto
  qed simp_all
qed

text \<open>
  The message of a redirect arrives. Whatever text a handler puts into it, the request that follows the
  redirect has exactly that text as its parameter \<open>msg\<close>.
\<close>

theorem redirect_message_arrives:
  "header_get (link_query (header_get (wr_header (redirect_msg t w)) ''Location'')) ''msg'' = t"
proof -
  have no: "CHR ''#'' \<notin> set (query_escape t)" "CHR ''&'' \<notin> set (query_escape t)" "CHR '';'' \<notin> set (query_escape t)"
    using query_escape_plain [of _ t] by blast+
  then have "link_query (''/?msg='' @ query_escape t) = parse_query (''msg='' @ query_escape t)"
    by (simp add: link_query_def cut_at_absent)
  moreover have "split_at (CHR ''&'') (''msg='' @ query_escape t) = [''msg='' @ query_escape t]"
    using no by (simp add: split_at_absent)
  moreover have "query_pair (''msg='' @ query_escape t) = Some (''msg'', t)"
    using no by (simp add: query_pair_def query_unescape_escape)
  ultimately show ?thesis
    by (simp add: redirect_msg_def http_redirect_def get_parse_query List.map_filter_def first_value_def
        del: append_Cons)
qed

end
