(* ===== verification/Page_Forms.thy ===== *)
theory Page_Forms
  imports Web_Pages Go_Url Site_Responses
begin

text \<open>
  What the pages send back: every form of the dashboard that changes something carries the token of the
  session, once, and the server accepts it; and which query a link of the pager makes.
\<close>

section \<open>The forms of a page\<close>

definition form_open :: string where "form_open = ''<form method=\"post\"''"
definition form_close :: string where "form_close = ''</form>''"
definition token_field :: string where "token_field = ''<input type=\"hidden\" name=\"csrf_token\" value=\"''"

text \<open>
  The scan of the writes: the tokens of the form that is open, whether the next value is that of a hidden
  token field, and the forms that are complete.
\<close>

type_synonym form_scan = "string list option \<times> bool \<times> string list list"

definition complete_form :: "string list option \<Rightarrow> string list list \<Rightarrow> string list list" where
  "complete_form cur found = (case cur of None \<Rightarrow> found | Some ts \<Rightarrow> found @ [ts])"

fun form_step :: "form_scan \<Rightarrow> html_write \<Rightarrow> form_scan" where
  "form_step (cur, field, found) (Markup s) =
     (if contains s form_open then (Some [], has_suffix s token_field, complete_form cur found)
      else if contains s form_close then (None, has_suffix s token_field, complete_form cur found)
      else (cur, has_suffix s token_field, found))"
| "form_step (cur, field, found) (Data k v) = (if field then map_option (\<lambda>ts. ts @ [v]) cur else cur, False, found)"
| "form_step (cur, field, found) w = (cur, False, found)"

definition post_forms :: "html_write list \<Rightarrow> string list list" where
  "post_forms ws = (case foldl form_step (None, False, []) ws of (cur, _, found) \<Rightarrow> complete_form cur found)"

section \<open>Components have no forms of their own\<close>

lemma contains_eval:
  "has_prefix s []" "\<not> has_prefix [] (d # p)" "has_prefix (c # s) (d # p) \<longleftrightarrow> c = d \<and> has_prefix s p"
  by (simp_all add: has_prefix_def)

lemma suffix_eval: "has_suffix [] p \<longleftrightarrow> p = []" "has_suffix (c # s) p \<longleftrightarrow> c # s = p \<or> has_suffix s p"
  by (auto simp: has_suffix_iff Cons_eq_append_conv)

lemmas scan_eval = contains.simps contains_eval suffix_eval form_open_def form_close_def token_field_def

text \<open>Writes between which no token field is left open: their effect on the forms.\<close>

abbreviation scan :: "html_write list \<Rightarrow> string list option \<Rightarrow> string list list \<Rightarrow> form_scan" where
  "scan ws cur found \<equiv> foldl form_step (cur, False, found) ws"

definition plain_markup :: "string \<Rightarrow> bool" where
  "plain_markup s \<longleftrightarrow> \<not> contains s form_open \<and> \<not> contains s form_close \<and> \<not> has_suffix s token_field"

definition closed :: "form_scan \<Rightarrow> form_scan" where
  "closed st = (case st of (cur, _, found) \<Rightarrow> (cur, False, found))"

lemma closed_triple [simp]: "closed (cur, field, found) = (cur, False, found)"
  by (simp add: closed_def)

lemma scan_markup [simp]: "plain_markup s \<Longrightarrow> form_step st (Markup s) = closed st"
  by (cases st) (simp add: plain_markup_def)

lemma scan_other [simp]: "form_step st (Css_Items c) = closed st" "form_step st (Attributes a) = closed st"
  by (cases st; simp)+

lemma scan_data [simp]: "form_step (closed st) (Data k v) = closed st"
  by (cases st) simp

lemma closed_closed [simp]: "closed (closed st) = closed st"
  by (cases st) simp

lemma scan_attr [simp]: "plain_markup b \<Longrightarrow> foldl form_step st (attr b k v) = closed st"
  by (simp add: attr_def plain_markup_def [of "''\"''"] scan_eval)

lemma scan_attr_if [simp]: "plain_markup b \<Longrightarrow> foldl form_step (closed st) (attr_if b v) = closed st"
  by (simp add: attr_if_def)

lemma scan_flag [simp]: "plain_markup t \<Longrightarrow> foldl form_step (closed st) (flag_if t on) = closed st"
  by (simp add: flag_if_def)

lemma scan_id [simp]: "foldl form_step (closed st) (id_attr i) = closed st"
  by (simp add: id_attr_def plain_markup_def scan_eval)

lemma scan_button_slot [simp]: "foldl form_step (closed st) (button_slot a) = closed st"
  by (simp add: button_slot_def plain_markup_def scan_eval)

lemmas plain_eval = plain_markup_def scan_eval

lemma scan_class_slot:
  assumes "plain_markup (''<'' @ tag)" and "plain_markup (''</'' @ tag @ ''>'')"
    and "plain_markup ('' data-slot=\"'' @ slot @ ''\" class=\"'')"
  shows "foldl form_step st (class_slot L tag slot cls ps ch) = closed (foldl form_step (closed st) ch)"
  using assms by (simp add: class_slot_def slotted_def Let_def plain_markup_def [of "''>''"] scan_eval)

lemma scan_cards [simp]:
  "foldl form_step st (card_frame L cp ch) = closed (foldl form_step (closed st) ch)"
  "foldl form_step st (card_header L ps ch) = closed (foldl form_step (closed st) ch)"
  "foldl form_step st (card_title L ps ch) = closed (foldl form_step (closed st) ch)"
  "foldl form_step st (card_description L ps ch) = closed (foldl form_step (closed st) ch)"
  "foldl form_step st (card_action L ps ch) = closed (foldl form_step (closed st) ch)"
  "foldl form_step st (card_content L ps ch) = closed (foldl form_step (closed st) ch)"
  unfolding card_header_def card_title_def card_description_def card_action_def card_content_def
  by (simp add: card_frame_def Let_def plain_eval, (rule scan_class_slot; simp add: plain_eval)+)

lemma scan_tables [simp]:
  "foldl form_step st (table_frame L ps ch) = closed (foldl form_step (closed st) ch)"
  "foldl form_step st (table_header L ps ch) = closed (foldl form_step (closed st) ch)"
  "foldl form_step st (table_body L ps ch) = closed (foldl form_step (closed st) ch)"
  "foldl form_step st (table_row L ps ch) = closed (foldl form_step (closed st) ch)"
  "foldl form_step st (table_head L ps ch) = closed (foldl form_step (closed st) ch)"
  "foldl form_step st (table_cell L ps ch) = closed (foldl form_step (closed st) ch)"
  unfolding table_frame_def table_header_def table_body_def table_row_def table_head_def table_cell_def
  by (simp add: scan_class_slot plain_eval, (rule scan_class_slot; simp add: plain_eval)+)

lemma scan_badge [simp]: "foldl form_step st (badge_mark L gp ch) = closed (foldl form_step (closed st) ch)"
  by (simp add: badge_defs Let_def plain_eval)

lemma scan_button [simp]: "foldl form_step st (button L bp ch) = closed (foldl form_step (closed st) ch)"
  by (simp add: button_defs Let_def plain_eval)

lemma scan_input [simp]: "foldl form_step st (input_field L r np) = closed st"
  by (simp add: input_field_def input_options_def Let_def plain_eval)

section \<open>The forms of the dashboard\<close>

lemma scan_logo [simp]: "foldl form_step st logo_html = closed st"
  by (simp add: logo_html_def plain_eval)

lemma scan_layout:
  "foldl form_step st (layout_html t ch) = closed (foldl form_step (closed st) ch)"
  by (simp add: layout_html_def plain_eval)

lemma scan_nav:
  "foldl form_step (None, f, found) (nav_html L u t c) = (None, False, found @ [[c]])"
  by (simp add: nav_html_def complete_form_def scan_eval)

lemma scan_head:
  "foldl form_step (None, f, found) (dashboard_head L d) = (None, False, found @ [[dd_csrf_token d]])"
  by (simp add: dashboard_head_def complete_form_def scan_eval)

lemma scan_concat: "(\<And>x st. foldl form_step st (g x) = closed st) \<Longrightarrow> foldl form_step (closed st) (concat (map g xs)) = closed st"
  by (induction xs) auto

lemma scan_stat_card [simp]: "foldl form_step st (stat_card_html L t v h) = closed st"
  by (simp add: stat_card_html_def plain_eval)

lemma scan_kinds [simp]: "foldl form_step (closed st) (kinds_html L ks) = closed st"
  by (simp add: kinds_html_def plain_eval scan_concat)

lemma scan_activity [simp]: "foldl form_step st (activity_html L days) = closed st"
  by (simp add: activity_html_def day_html_def plain_eval scan_concat)

lemma scan_pie [simp]: "foldl form_step st (kind_pie_html L d) = closed st"
  by (simp add: kind_pie_html_def legend_html_def plain_eval scan_concat middle_dot_def)

lemma scan_stats [simp]: "foldl form_step st (stats_html L fl d) = closed st"
  by (simp add: stats_html_def Let_def plain_eval)

lemma scan_entries_head [simp]: "foldl form_step st (entries_head L) = closed st"
  by (simp add: entries_head_def plain_eval)

lemma scan_row:
  "foldl form_step (None, f, found) (entry_row L c e) = (None, False, found @ [[c]])"
  by (simp add: entry_row_def purge_form_def complete_form_def scan_eval em_dash_def)

lemma scan_rows:
  "foldl form_step (None, False, found) (concat (map (entry_row L c) es)) = (None, False, found @ replicate (length es) [c])"
  by (induction es arbitrary: found) (simp_all add: scan_row replicate_append_same)

lemma scan_pager [simp]: "foldl form_step (closed st) (pager L d) = closed st"
  by (simp add: pager_def turn_button_def plain_eval)

lemma scan_entries:
  "foldl form_step (None, f, found) (entries_html L d)
     = (None, False, found @ replicate (length (dd_entries d)) [dd_csrf_token d])"
  using scan_pager [of "(None, False, _)"] by (simp add: entries_html_def scan_rows scan_eval)

lemma scan_entries_card:
  "foldl form_step (None, f, found) (entries_card L r d)
     = (None, False, found @ replicate (length (dd_entries d)) [dd_csrf_token d])"
  by (simp add: entries_card_def filter_input_def scan_entries scan_eval ellipsis_def)

lemma dashboard_forms:
  "post_forms (dashboard_html L fl r d) = replicate (length (dd_entries d) + 2) [dd_csrf_token d]"
  by (simp add: post_forms_def dashboard_html_def scan_layout scan_nav scan_head scan_entries_card scan_eval
      complete_form_def)

text \<open>
  C34: every form of the dashboard is accepted. The page has one form to log out, one to purge what has expired
  and one for each entry; each carries exactly one token, and a request of the same user that sends it back
  passes the check of the server.
\<close>

theorem dashboard_forms_accepted:
  assumes "dashboard_data si tu r s = Ret d" and "session_user si tu r = Some u"
    and "cr_hmac (si_crypto si) (se_secret (si_sessions si)) (''nx-cache-ui|'' @ u) \<noteq> []"
    and "ts \<in> set (post_forms (dashboard_html L fl x d))"
    and "session_user si tu' r' = Some u" and "header_value r' ''X-Csrf-Token'' = []"
    and "form_value r' ''csrf_token'' = hd ts"
  shows "length (post_forms (dashboard_html L fl x d)) = length (dd_entries d) + 2
    \<and> length ts = 1 \<and> valid_csrf si tu' r'"
proof -
  have "dd_csrf_token d = csrf_token (si_crypto si) (si_sessions si) u"
    using assms(1,2)
    by (auto simp: dashboard_data_def new_dashboard_def Let_def split: outcome.splits sum.splits prod.splits)
  moreover from this assms(4) have "ts = [csrf_token (si_crypto si) (si_sessions si) u]"
    by (auto simp: dashboard_forms)
  ultimately show ?thesis
    using assms(3,5-7)
    by (simp add: dashboard_forms valid_csrf_def valid_csrf_token_def secure_eq_def csrf_token_def sign_def csrf_purpose_def)
qed

section \<open>The links of the pager\<close>

text \<open>
  The characters with a meaning in a query are sent as the link has them. What a browser escapes on its own
  (blanks, quotes, bytes above 127) the server decodes again, so that these arrive either way.
\<close>

definition query_special :: "char set" where
  "query_special = {CHR ''#'', CHR ''&'', CHR ''%'', CHR ''+'', CHR '';''}"

lemma pair_value_shorter:
  assumes "query_pair part = Some (k, v)" and "v \<noteq> []" and "k \<noteq> []"
  shows "length v + 2 \<le> length part"
proof -
  obtain a b f where c: "cut_at (CHR ''='') part = (a, b, f)" by (metis prod_cases3)
  with assms have u: "query_unescape a = Some k" "query_unescape b = Some v"
    by (auto simp: query_pair_def Option.bind_eq_Some_conv split: if_splits)
  from u assms(2,3) have "a \<noteq> []" "b \<noteq> []" by auto
  with cut_at_parts [OF c] unescape_shrinks [OF u(2)] show ?thesis by (cases a) (auto split: if_splits)
qed

lemma first_value_shorter:
  assumes "\<And>p. p \<in> set parts \<Longrightarrow> length p < length q + 2" and "q \<noteq> []"
  shows "first_value ''q'' (List.map_filter query_pair parts) \<noteq> q"
proof
  assume "first_value ''q'' (List.map_filter query_pair parts) = q"
  with first_value_in [of "''q''"] assms(2) have "(''q'', q) \<in> set (List.map_filter query_pair parts)" by fastforce
  then obtain p where "p \<in> set parts" "query_pair p = Some (''q'', q)" by (auto simp: List.map_filter_def)
  with pair_value_shorter [of p "''q''" q] assms show False by fastforce
qed

text \<open>The parameters of a link whose query text has no separator.\<close>

definition page_part :: "int \<Rightarrow> string" where "page_part n = ''page='' @ int_str n"

lemma page_pair: "query_pair (page_part n) = Some (''page'', int_str n)"
proof -
  have no: "c \<notin> set (int_str n)" if "c \<in> query_special" for c
    using that by (rule_tac int_str_plain) (auto simp: query_special_def go_eval)
  have "cut_at (CHR ''='') (page_part n) = (''page'', int_str n, True)"
    by (simp add: page_part_def)
  moreover have "query_unescape (int_str n) = Some (int_str n)"
    using no by (simp add: unescape_same query_special_def)
  ultimately show ?thesis
    using no by (simp add: query_pair_def page_part_def query_special_def)
qed

lemma link_parts:
  assumes "CHR ''#'' \<notin> set q"
  shows "header_get (link_query (page_link q n)) k =
    first_value k (List.map_filter query_pair (split_at (CHR ''&'') (''q='' @ q) @ [page_part n]))"
proof -
  have no: "CHR ''#'' \<notin> set (int_str n)" "CHR ''&'' \<notin> set (page_part n)"
    using int_str_plain [of "CHR ''#''" n] int_str_plain [of "CHR ''&''" n] by (auto simp: page_part_def go_eval)
  have "link_query (page_link q n) = parse_query ((''q='' @ q) @ CHR ''&'' # page_part n)"
    using assms no by (simp add: link_query_def page_link_def page_part_def cut_at_absent)
  then show ?thesis by (simp only: get_parse_query split_at_snoc [OF no(2)])
qed

lemma filter_pair:
  "query_pair (''q='' @ q) =
     (if CHR '';'' \<in> set q then None else map_option (Pair ''q'') (query_unescape q))"
  by (simp add: query_pair_def)

lemma first_value_page: "first_value ''q'' (ps @ [(''page'', n)]) = first_value ''q'' ps"
  by (simp add: first_value_def)

lemma filter_kept:
  assumes "set q \<inter> query_special = {}"
  shows "header_get (link_query (page_link q n)) ''q'' = q
    \<and> header_get (link_query (page_link q n)) ''page'' = int_str n"
proof -
  from assms have "split_at (CHR ''&'') (''q='' @ q) = [''q='' @ q]" "query_unescape q = Some q"
    by (simp_all add: query_special_def unescape_same split_at_absent)
  with assms show ?thesis
    by (simp add: link_parts query_special_def List.map_filter_def filter_pair page_pair first_value_def
        del: append_Cons)
qed

lemma filter_lost:
  assumes "set q \<inter> query_special \<noteq> {}"
  shows "header_get (link_query (page_link q n)) ''q'' \<noteq> q"
proof -
  from assms have q: "q \<noteq> []" by auto
  consider (hash) "CHR ''#'' \<in> set q" | (amp) "CHR ''#'' \<notin> set q" "CHR ''&'' \<in> set q"
    | (plain) "CHR ''#'' \<notin> set q" "CHR ''&'' \<notin> set q" by blast
  then show ?thesis
  proof cases
    case hash
    then obtain a b where a: "cut_at (CHR ''#'') q = (a, b, True)" "length a < length q"
      using cut_at_parts [of "CHR ''#''" q] by (cases "cut_at (CHR ''#'') q") (fastforce split: if_splits)
    with hash have "fst (cut_at (CHR ''#'') (page_link q n)) = ''/?q='' @ a"
      using before_cut [of "CHR ''#''" "''/?q=''" "q @ ''&page='' @ int_str n"]
        before_cut [of "CHR ''#''" q "''&page='' @ int_str n"]
      by (simp add: page_link_def del: cut_at.simps)
    then have "link_query (page_link q n) = parse_query (''q='' @ a)" by (simp add: link_query_def)
    moreover have "length p < length q + 2" if "p \<in> set (split_at (CHR ''&'') (''q='' @ a))" for p
      using split_at_le [OF that] a(2) by simp
    ultimately show ?thesis using first_value_shorter [OF _ q] by (simp add: get_parse_query del: append_Cons)
  next
    case amp
    have "length p < length q + 2" if "p \<in> set (split_at (CHR ''&'') (''q='' @ q))" for p
      using split_at_before [OF _ that] amp(2) by simp
    then show ?thesis using first_value_shorter [OF _ q]
      by (simp add: link_parts amp(1) List.map_filter_def page_pair first_value_page del: append_Cons)
  next
    case plain
    with assms have "CHR '';'' \<in> set q \<or> query_unescape q \<noteq> Some q"
      by (auto simp: query_special_def unescape_same)
    moreover have "split_at (CHR ''&'') (''q='' @ q) = [''q='' @ q]" using plain by (simp add: split_at_absent)
    ultimately show ?thesis using q
      by (cases "query_unescape q")
        (auto simp: link_parts plain(1) List.map_filter_def filter_pair page_pair first_value_def simp del: append_Cons)
  qed
qed

text \<open>
  C35: the links that turn pages repeat the filter without escaping it. The request of a link has the filter and
  the page that the link was written for exactly when the filter has none of the characters with a meaning in
  queries; a filter with one of them gets lost or changed, and the next page is a page of another listing.
\<close>

theorem page_link_query:
  "header_get (link_query (page_link q n)) ''q'' = q \<and> header_get (link_query (page_link q n)) ''page'' = int_str n
     \<longleftrightarrow> set q \<inter> query_special = {}"
  using filter_kept [of q n] filter_lost [of q n] by blast

section \<open>A concrete form\<close>

text \<open>The purge form of a dashboard, sent back with the cookie of the session.\<close>

definition example_purge :: request where
  "example_purge = example_session_request\<lparr>rq_method := ''POST'',
     rq_form := Inr [(''csrf_token'', [csrf_token example_crypto example_sessions ''admin''])]\<rparr>"

theorem dashboard_forms_accepted_witness:
  "\<exists>d. dashboard_data example_site example_turn example_session_request example_site_state = Ret d
     \<and> [csrf_token example_crypto example_sessions ''admin''] \<in> set (post_forms (dashboard_html example_templ exact_floats [] d))
     \<and> valid_csrf example_site example_turn example_purge"
proof -
  have ord: "cat_order (tu_list_order example_turn) (world_of example_site_state)"
    using example_order by (simp add: cat_order_def example_site_facts(5) example_turn_def example_world_def)
  have len: "int (length (oc_entries (wo_cat (world_of example_site_state)))) + 25 < 2 ^ 63"
    by (simp add: example_site_facts(5) example_world_def example_entries)
  have "fst (parse_int []) = 0" by code_simp
  then have "current_page example_session_request = 1"
    by (simp add: current_page_def query_get_def header_get_def example_session_request_def get_request_def)
  with dashboard_data_outcome [OF example_site_facts(4,1) ord len, of example_session_request]
  obtain d where d: "dashboard_data example_site example_turn example_session_request example_site_state = Ret d"
    by (auto simp: wrap64_def)
  have u: "session_user example_site example_turn example_session_request = Some ''admin''"
    "session_user example_site example_turn example_purge = Some ''admin''"
    using example_login
    by (simp_all add: session_user_def example_site_def example_turn_def example_purge_def username_from_request_def
        request_cookie_def)
  from u(1) d have "dd_csrf_token d = csrf_token example_crypto example_sessions ''admin''"
    by (auto simp: dashboard_data_def new_dashboard_def Let_def example_site_def
        split: outcome.splits sum.splits prod.splits)
  then have ts: "[csrf_token example_crypto example_sessions ''admin''] \<in> set (post_forms (dashboard_html example_templ exact_floats [] d))"
    by (simp add: dashboard_forms)
  have "valid_csrf example_site example_turn example_purge"
    using dashboard_forms_accepted [OF d u(1) _ ts u(2)]
    by (simp add: example_site_def example_crypto_def example_purge_def example_session_request_def get_request_def
        header_value_def header_get_def form_value_def)
  with d ts show ?thesis by blast
qed

end
