(* ===== verification/Spec2Isabelle.thy ===== *)
theory Spec2Isabelle
  imports Storage Object_Store Snapshot Longpoll Notifying Server_World Cleanup Nx_Artifact Metrics Cache_Api Cache_Protocol
    Auth Go_Base64 Client_Ip Go_Net Login_Gate Access Config Sql_Store Catalog_Refinement S3_Backend Web_Models
    Middleware Http_Server Site_Security Site_Responses Site_State Upload_Race Startup Class_Names
    Html_Writes Ui_Components Web_Pages Page_Safety Go_Url Page_Forms
begin

text \<open>
  Verification library for the Nx remote-cache server (\<open>cmd/server\<close>, \<open>internal/\<close>, \<open>utils/\<close>).

  The program. Nx clients upload and download build artifacts under \<open>/v1/cache/{hash}\<close> with bearer
  tokens; a dashboard with signed session cookies shows, searches and deletes them. Artifacts live in a
  storage backend (an S3 bucket or memory); a catalog (in memory with snapshots in the backend, or SQLite)
  keeps an entry for each, with counters per day. A cleaner removes what is older than its time to live, and
  a hub wakes the polling requests of the dashboard when something changes. All handlers share one backend,
  one catalog and one hub; middleware in front of them logs, recovers panics, sets security headers, applies
  the allow list and the rate limiter, and bounds the time of a request.

  Conventions. A machine integer is an \<open>int\<close> with \<open>wrap64\<close> where the code computes in \<open>int64\<close>; the version
  of the hub is a \<open>64 word\<close>. Text is a list of bytes and is decoded to runes where the code ranges over it.
  A Go map is an association list; wherever the code ranges over one, the order is an argument, and theorems
  hold for every order that visits each key. A call that can fail returns \<open>goerr + 'a\<close> or \<open>goerr option\<close>, a
  call that can panic an \<open>outcome\<close>. State is passed explicitly; a context that is cancelled only adds errors.
  The readings of the clock during an operation are arguments.

  Libraries the program calls.
    \<^item> \<open>Go_Prelude\<close>, \<open>Go_Strings\<close>, \<open>Go_Time\<close>: integers, maps, errors, readers; \<open>strings\<close>, \<open>strconv\<close>,
      \<open>unicode/utf8\<close>, \<open>path\<close>; calendar dates. \<open>Regex\<close>: leftmost-first matching, total. \<open>Go_Base64\<close>: URL encoding.
    \<^item> \<open>Go_Http\<close>, \<open>Go_Net\<close>: requests, responses, headers; addresses and prefixes.
      \<open>Go_Url\<close>: queries of URLs.

  Components, in the order they are built on each other.
    \<^item> \<open>Storage\<close> (\<open>storage/storage.go\<close>): the interface \<open>Backend\<close> as a record of operations, its contract as the
      locales \<open>artifact_backend\<close> and \<open>meta_backend\<close>, and \<open>Memory\<close>, which keeps it. \<open>S3_Backend\<close>
      (\<open>storage/s3.go\<close>): uploads, deletions in batches and listings over the operations of the SDK.
    \<^item> \<open>Catalog\<close> (\<open>store/store.go\<close>): entries, labels, search, counts by kind, the interface \<open>Store\<close> and the locale
      \<open>artifact_catalog\<close>. \<open>Object_Store\<close> and \<open>Snapshot\<close> (\<open>store/object.go\<close>): the catalog in memory, paging,
      statistics, and loading and flushing of its snapshot as steps that interleave with operations.
      \<open>Sql_Store\<close> (\<open>store/store.go\<close>): the SQL statements on tables of rows. \<open>Catalog_Refinement\<close>: both catalogs
      answer alike. \<open>Notifying\<close> (\<open>store/notifying.go\<close>): the wrapper that notifies the hub.
    \<^item> \<open>Longpoll\<close> (\<open>longpoll/longpoll.go\<close>): the hub, entity tags, and waiting requests as an inductive step relation.
    \<^item> \<open>Cleanup\<close> (\<open>cleanup/cleanup.go\<close>), \<open>Metrics\<close> (\<open>metrics/metrics.go\<close>), \<open>Nx_Artifact\<close>
      (\<open>nxartifact/inspect.go\<close>): expiry, latencies, and which task an archive belongs to.
    \<^item> \<open>Server_Env\<close>, \<open>Server_World\<close>: the state the requests share, its contract \<open>server_env\<close>, and its
      instance with the in-process backend and catalog.
    \<^item> \<open>Cache_Api\<close>, \<open>Cache_Protocol\<close> (\<open>cacheapi/handler.go\<close>): \<open>Put\<close>, \<open>Get\<close>, \<open>Head\<close> and what clients may rely on.
      \<open>Upload_Race\<close>: uploads of one hash as steps, one for each call, in any interleaving, and a cleanup between
      whose two halves an upload is accepted.
    \<^item> \<open>Auth\<close> (\<open>auth/auth.go\<close>), \<open>Client_Ip\<close> (\<open>httpserver/clientip.go\<close>), \<open>Access\<close> (\<open>httpserver/access.go\<close>),
      \<open>Login_Gate\<close> (\<open>httpserver/login.go\<close>), \<open>Config\<close> (\<open>config/config.go\<close>).
    \<^item> \<open>Web_Models\<close> (\<open>web/models.go\<close>): the data of the dashboard. \<open>Middleware\<close> and \<open>Http_Server\<close>
      (\<open>httpserver/server.go\<close>, \<open>slog.go\<close>): every handler and middleware, the routes and their composition.
      \<open>Site_Security\<close>, \<open>Site_Responses\<close>, \<open>Site_State\<close>: what holds of the composed server.
    \<^item> \<open>Startup\<close> (\<open>cmd/server\<close>, \<open>applog\<close>, \<open>reqlog\<close>): levels and attributes of the log, the health check, the choice of
      backend and catalog, reconciliation. \<open>Class_Names\<close> (\<open>utils/shadcn-templ.go\<close>): class lists of the pages.
    \<^item> \<open>Html_Writes\<close>: a template as the list of its writes, performed until one fails; a lexer of tags and quoted
      values. \<open>Ui_Components\<close> (\<open>components/*/*_templ.go\<close>): cards, tables, alerts, badges, buttons, inputs, labels,
      separators, frames. \<open>Web_Pages\<close> (\<open>web/layout_templ.go\<close>, \<open>login_templ.go\<close>, \<open>dashboard_templ.go\<close>): the pages and
      the two sections the dashboard polls. \<open>Page_Safety\<close>, \<open>Page_Forms\<close>: what holds of the pages.

  What the lemmas show. For each component: its invariant and that every operation keeps it (locale contracts,
  interpreted on the model in the theory of the provider); the effect of each operation for every outcome; and,
  where clients depend on it, a property that spans operations: a stored artifact never changes and downloads as
  uploaded, a clean catalog is what the backend's snapshot holds under any interleaving with flushes, no waiting
  request misses a change, a cleanup removes exactly what has expired, the two catalogs simulate each other. For
  the composed server: requests without credentials change no artifact, every response is protected, and any
  traffic keeps the whole state well-typed. For the pages: no data changes a tag, every form of the dashboard is
  accepted by the server, and the links of the pager keep exactly the filters without special characters.

  Bounds. No function of the model runs on fuel: recursion is structural or has a measure. Listing a bucket
  follows the pages the client gives (\<open>S3_Backend\<close>), for which a finite chain of pages is a hypothesis. Sizes,
  counts and times that the code keeps in 64 bits are bounded by hypotheses only where a property needs it
  (fewer than \<open>2 ^ 63\<close> entries, whole-second times for SQLite).

  Parameters. Hash and MAC functions and random bytes; gzip and tar readers and writers; the JSON codec; the
  operations of the AWS SDK; the outcome of each SQL statement; Unicode tables beyond ASCII; rounding of \<open>float64\<close>;
  formatted HTTP dates; the router (which registered route a request takes), the file server; for the
  server the rendered pages (\<open>Web_Pages\<close> gives them), for the pages the functions of the templ library their
  data passes through; the merge of Tailwind classes. What is relied on is stated as a hypothesis of the theorem that uses it,
  and every such theorem has a witness with a concrete instance.

  Not modelled. \<open>embed.go\<close> and \<open>staticfs.go\<close> (files embedded by the compiler); the buffering of the templ runtime
  and the check of the context before each component, which end a page early like a failed write; the
  screenshot tool and the end-to-end tests; of \<open>main.go\<close> the goroutines, signals, listening and exit codes; the
  formatting of log lines by \<open>log/slog\<close>. Handlers run to their end, except where steps interleave: uploads
  and cleanups in \<open>Upload_Race\<close>, flushes, long polls, the ticker of the cleaner.
\<close>

end
